(* ===== verification/Prelude.thy ===== *)
theory Prelude
  imports Complex_Main "HOL-Library.AList"
begin

text \<open>
  Shared vocabulary of the development: the names of the model's basic types
  (vertex handles, dense vectors, sparse coefficient lists), the collections of
  rewrite rules the component theories fill, and the generic lemmas on
  association lists and list sums that the assembly proofs rest on, and on folds
  read as finite sums (with the Cauchy-Schwarz inequality) that the \<open>Point\<close>
  proofs rest on.
  A sparse matrix stores its written coefficients as an association list from
  (row, column) to value; writing a coefficient is \<open>AList.update\<close>, which
  overwrites an existing entry, and an entry never written reads as 0.
\<close>

named_theorems coef_simps "read-after-write rules for sparse coefficients"
named_theorems mesh_simps "frame rules for the mesh operations"

type_synonym vh = nat
  \<comment> \<open>a vertex handle of the external polyhedron\<close>
type_synonym vec = "real list"
  \<comment> \<open>a dense vector of doubles (Taucs/OpenNL \<open>Vector\<close>), read as reals\<close>
type_synonym coefs = "((nat \<times> nat) \<times> real) list"
  \<comment> \<open>the written coefficients of a sparse matrix\<close>

definition coef_of :: "coefs \<Rightarrow> nat \<Rightarrow> nat \<Rightarrow> real" where
  "coef_of cs i j = (case map_of cs (i, j) of None \<Rightarrow> 0 | Some v \<Rightarrow> v)"

definition row_sum_of :: "coefs \<Rightarrow> nat \<Rightarrow> real" where
  "row_sum_of cs i = sum_list (map snd (filter (\<lambda>e. fst (fst e) = i) cs))"

definition row_dot_of :: "coefs \<Rightarrow> nat \<Rightarrow> (nat \<Rightarrow> real) \<Rightarrow> real" where
  "row_dot_of cs i x = sum_list (map (\<lambda>e. snd e * x (snd (fst e))) (filter (\<lambda>e. fst (fst e) = i) cs))"

definition row_cols_of :: "coefs \<Rightarrow> nat \<Rightarrow> nat set" where
  "row_cols_of cs i = {j. (i, j) \<in> fst ` set cs}"

definition zero_vec :: "nat \<Rightarrow> vec" where
  "zero_vec n = replicate n 0"

subsection \<open>Reading a coefficient after a write\<close>

lemma coef_of_Nil [simp, coef_simps]: "coef_of [] i j = 0"
  by (simp add: coef_of_def)

lemma coef_of_update [simp, coef_simps]:
  "coef_of (AList.update (i, j) v cs) r c = (if (r, c) = (i, j) then v else coef_of cs r c)"
  by (simp add: coef_of_def update_conv')

lemma row_cols_of_update [simp, coef_simps]:
  "row_cols_of (AList.update (i, j) v cs) r =
     (if r = i then insert j (row_cols_of cs r) else row_cols_of cs r)"
  by (auto simp: row_cols_of_def dom_update)

lemma row_cols_of_Nil [simp, coef_simps]: "row_cols_of [] r = {}"
  by (simp add: row_cols_of_def)

lemma coef_of_notin:
  assumes "j \<notin> row_cols_of cs i"
  shows "coef_of cs i j = 0"
proof -
  from assms have "map_of cs (i, j) = None"
    by (simp add: row_cols_of_def map_of_eq_None_iff)
  then show ?thesis by (simp add: coef_of_def)
qed

subsection \<open>Row sums of a coefficient list\<close>

lemma row_sum_of_Nil [simp]: "row_sum_of [] i = 0"
  by (simp add: row_sum_of_def)

lemma row_sum_of_update:
  assumes "distinct (map fst cs)"
  shows "row_sum_of (AList.update (i, j) v cs) r =
           row_sum_of cs r + (if r = i then v - coef_of cs i j else 0)"
  using assms
proof (induction cs)
  case Nil
  then show ?case by (simp add: row_sum_of_def)
next
  case (Cons e cs)
  obtain k u where e: "e = (k, u)" by (cases e)
  show ?case
  proof (cases "k = (i, j)")
    case True
    with Cons.prems e have "(i, j) \<notin> fst ` set cs" by auto
    then have "map_of cs (i, j) = None" by (simp add: map_of_eq_None_iff)
    with True e show ?thesis
      by (simp add: row_sum_of_def coef_of_def)
  next
    case False
    with Cons e show ?thesis
      by (auto simp: row_sum_of_def coef_of_def)
  qed
qed

lemma row_sum_of_snoc:
  "row_sum_of (cs @ [((r, c), u)]) i = row_sum_of cs i + (if i = r then u else 0)"
  by (simp add: row_sum_of_def)

lemma row_cols_of_snoc:
  "row_cols_of (cs @ [((r, c), u)]) i = (if i = r then insert c (row_cols_of cs i) else row_cols_of cs i)"
  by (auto simp: row_cols_of_def)

lemma coef_of_snoc_fresh:
  assumes "(r, c) \<notin> fst ` set cs"
  shows "coef_of (cs @ [((r, c), u)]) i j = (if (i, j) = (r, c) then u else coef_of cs i j)"
proof -
  from assms have "map_of cs (r, c) = None" by (simp add: map_of_eq_None_iff)
  then show ?thesis
    by (auto simp: coef_of_def map_of_append split: option.splits)
qed

lemma finite_row_cols_of [simp]: "finite (row_cols_of cs i)"
proof -
  have "row_cols_of cs i \<subseteq> snd ` fst ` set cs"
    by (force simp: row_cols_of_def)
  then show ?thesis by (rule finite_subset) simp
qed

lemma row_dot_of_snoc:
  "row_dot_of (cs @ [((r, c), u)]) i x = row_dot_of cs i x + (if i = r then u * x c else 0)"
  by (simp add: row_dot_of_def)

lemma row_dot_of_eq_sum:
  assumes "distinct (map fst cs)"
  shows "row_dot_of cs i x = (\<Sum>j\<in>row_cols_of cs i. coef_of cs i j * x j)"
  using assms
proof (induction cs rule: rev_induct)
  case Nil
  then show ?case by (simp add: row_dot_of_def)
next
  case (snoc e cs)
  obtain r c u where e: "e = ((r, c), u)" by (cases e) auto
  from snoc.prems e have d: "distinct (map fst cs)" and fresh: "(r, c) \<notin> fst ` set cs"
    by auto
  have notin: "c \<notin> row_cols_of cs r"
    using fresh by (auto simp: row_cols_of_def)
  have same: "(\<Sum>j\<in>row_cols_of cs i. coef_of (cs @ [e]) i j * x j) =
      (\<Sum>j\<in>row_cols_of cs i. coef_of cs i j * x j)"
    using notin e by (intro sum.cong) (auto simp: coef_of_snoc_fresh[OF fresh])
  show ?case
  proof (cases "i = r")
    case True
    then show ?thesis
      using snoc.IH[OF d] same notin e
      by (simp add: row_dot_of_snoc row_cols_of_snoc coef_of_snoc_fresh[OF fresh])
  next
    case False
    then show ?thesis
      using snoc.IH[OF d] same e
      by (simp add: row_dot_of_snoc row_cols_of_snoc coef_of_snoc_fresh[OF fresh])
  qed
qed

lemma row_sum_of_eq_sum:
  assumes "distinct (map fst cs)"
  shows "row_sum_of cs i = (\<Sum>j\<in>row_cols_of cs i. coef_of cs i j)"
proof -
  have "row_sum_of cs i = row_dot_of cs i (\<lambda>_. 1)"
    by (simp add: row_sum_of_def row_dot_of_def comp_def)
  then show ?thesis by (simp add: row_dot_of_eq_sum[OF assms])
qed

lemma distinct_update_fst [simp]:
  "distinct (map fst cs) \<Longrightarrow> distinct (map fst (AList.update k v cs))"
  by (simp add: distinct_update)

subsection \<open>Searching a list by a key\<close>

lemma find_append_eq:
  "find P (xs @ ys) = (case find P xs of None \<Rightarrow> find P ys | Some x \<Rightarrow> Some x)"
  by (induction xs) auto

lemma find_key_unique:
  assumes "inj_on f (set xs)" and "u \<in> set xs"
  shows "find (\<lambda>x. f x = f u) xs = Some u"
  using assms
proof (induction xs)
  case Nil
  then show ?case by simp
next
  case (Cons a xs)
  show ?case
  proof (cases "f a = f u")
    case True
    with Cons.prems have "a = u" by (auto dest: inj_onD)
    then show ?thesis by simp
  next
    case False
    with Cons.prems have "u \<in> set xs" and "inj_on f (set xs)" by auto
    with False Cons.IH show ?thesis by simp
  qed
qed

lemma find_key_None: "find (\<lambda>x. f x = c) xs = None \<longleftrightarrow> c \<notin> f ` set xs"
  by (auto simp: find_None_iff)

lemma find_key_Some: "find (\<lambda>x. f x = c) xs = Some u \<Longrightarrow> u \<in> set xs \<and> f u = c"
  by (induction xs) (auto split: if_splits)

lemma find_key_rev:
  assumes "inj_on f (set xs)"
  shows "find (\<lambda>x. f x = c) (rev xs) = find (\<lambda>x. f x = c) xs"
proof (cases "c \<in> f ` set xs")
  case True
  then obtain u where u: "u \<in> set xs" "c = f u" by auto
  from assms have "inj_on f (set (rev xs))" by simp
  with u show ?thesis
    using find_key_unique[OF assms u(1)] find_key_unique[of f "rev xs" u] by simp
next
  case False
  then have "find (\<lambda>x. f x = c) (rev xs) = None" and "find (\<lambda>x. f x = c) xs = None"
    by (simp_all add: find_key_None)
  then show ?thesis by simp
qed

lemma find_key_pred:
  assumes "inj_on f (insert u (set xs))"
  shows "find (\<lambda>x. Q x \<and> f x = f u) xs = (if Q u \<and> u \<in> set xs then Some u else None)"
  using assms
proof (induction xs)
  case Nil
  then show ?case by simp
next
  case (Cons a xs)
  from Cons.prems have inj: "inj_on f (insert u (set xs))"
    by (rule inj_on_subset) auto
  show ?case
  proof (cases "f a = f u")
    case True
    have "a = u" by (rule inj_onD[OF Cons.prems True]) auto
    with Cons.IH[OF inj] show ?thesis by auto
  next
    case False
    then have "a \<noteq> u" by auto
    with False Cons.IH[OF inj] show ?thesis by auto
  qed
qed

subsection \<open>Dense vectors\<close>

lemma length_zero_vec [simp]: "length (zero_vec n) = n"
  by (simp add: zero_vec_def)

lemma nth_zero_vec [simp]: "i < n \<Longrightarrow> zero_vec n ! i = 0"
  by (simp add: zero_vec_def)

subsection \<open>Folds and finite sums\<close>

text \<open>Accumulating loops over a vector, written as folds, and the Cauchy-Schwarz
  inequality for the finite sums they compute.\<close>

lemma foldl_add_sum_list:
  "foldl (\<lambda>acc x. acc + f x) a xs = a + sum_list (map f xs)"
  for a :: "'a::comm_monoid_add"
  by (induction xs arbitrary: a) (simp_all add: add.assoc)

lemma foldl_add_upt_sum:
  "foldl (\<lambda>acc i. acc + f i) a [0..<n] = a + (\<Sum>i<n. f i)"
  for a :: "'a::comm_monoid_add"
  by (simp add: foldl_add_sum_list sum_set_upt_conv_sum_list_nat[symmetric] atLeast0LessThan)

lemma foldl_max_bounds:
  fixes a :: "'a::linorder"
  shows "a \<le> foldl (\<lambda>acc x. max acc (f x)) a xs \<and>
         (\<forall>x\<in>set xs. f x \<le> foldl (\<lambda>acc x. max acc (f x)) a xs) \<and>
         (foldl (\<lambda>acc x. max acc (f x)) a xs = a \<or>
          (\<exists>x\<in>set xs. foldl (\<lambda>acc x. max acc (f x)) a xs = f x))"
proof (induction xs arbitrary: a)
  case Nil
  then show ?case by simp
next
  case (Cons y ys)
  from Cons[of "max a (f y)"] show ?case
    by (auto simp: max_def split: if_splits)
qed

lemma sum_cross_square:
  fixes a b :: "nat \<Rightarrow> real"
  shows "(\<Sum>j<n. (x * b j - y * a j)\<^sup>2) =
         x * x * (\<Sum>j<n. b j * b j) - 2 * x * y * (\<Sum>j<n. a j * b j) + y * y * (\<Sum>j<n. a j * a j)"
  by (induction n) (simp_all add: power2_eq_square algebra_simps)

lemma sum_cauchy_schwarz:
  fixes a b :: "nat \<Rightarrow> real"
  shows "(\<Sum>i<n. a i * b i)\<^sup>2 \<le> (\<Sum>i<n. a i * a i) * (\<Sum>i<n. b i * b i)"
proof (induction n)
  case 0
  then show ?case by simp
next
  case (Suc n)
  let ?A = "\<Sum>i<n. a i * a i" and ?B = "\<Sum>i<n. b i * b i" and ?C = "\<Sum>i<n. a i * b i"
  have "0 \<le> (\<Sum>j<n. (a n * b j - b n * a j)\<^sup>2)" by (simp add: sum_nonneg)
  then have cross: "0 \<le> a n * a n * ?B - 2 * a n * b n * ?C + b n * b n * ?A"
    by (simp add: sum_cross_square)
  have "(?C + a n * b n)\<^sup>2 \<le> (?A + a n * a n) * (?B + b n * b n)"
    using Suc.IH cross by (simp add: power2_eq_square algebra_simps)
  then show ?case by simp
qed

end
