(* ===== verification/Mesh.thy ===== *)
theory Mesh
  imports Prelude
begin

text \<open>
  The mesh side of \<open>Calculator\<close>: the external polyhedron (vertex iteration
  order, one-ring of each vertex, per-vertex fields \<open>index\<close>, \<open>s\<close> and
  \<open>is_parameterized\<close>), the constraint records \<open>ConstrianedVertex\<close>, and the
  four loops of \<open>Calculator.cpp\<close> that write the vertex fields:
  \<open>index_mesh_vertices\<close>, the reset loop of \<open>compute\<close>, \<open>setScalarForVc\<close>
  and \<open>set_mesh_scalar_from_system\<close>. Each loop is a structural recursion over
  the list it iterates; the lemmas give the fields each one leaves behind.
\<close>

record vertex =
  v_index :: nat
  v_s :: real
  v_param :: bool

record mesh =
  vertices :: "vh list"
  ring :: "vh \<Rightarrow> vh list"
  vdata :: "vh \<Rightarrow> vertex"

record constrained_vertex =
  m_vh :: vh
  m_scalar :: real

definition mesh_wf :: "mesh \<Rightarrow> bool" where
  "mesh_wf m \<longleftrightarrow> distinct (vertices m) \<and>
     list_all (\<lambda>v. distinct (ring m v) \<and> v \<notin> set (ring m v) \<and>
                   list_all (\<lambda>u. u \<in> set (vertices m)) (ring m v)) (vertices m)"

definition ring_symmetric :: "mesh \<Rightarrow> bool" where
  "ring_symmetric m \<longleftrightarrow>
     list_all (\<lambda>v. list_all (\<lambda>u. v \<in> set (ring m u)) (ring m v)) (vertices m)"

subsection \<open>Indexing (\<open>index_mesh_vertices\<close>)\<close>

fun index_loop :: "vh list \<Rightarrow> nat \<Rightarrow> (vh \<Rightarrow> vertex) \<Rightarrow> nat \<times> (vh \<Rightarrow> vertex)" where
  "index_loop [] i vd = (i, vd)"
| "index_loop (v # vs) i vd =
     index_loop vs (Suc i) (vd(v := (vd v)\<lparr>v_param := False, v_s := -1, v_index := i\<rparr>))"

definition index_mesh_vertices :: "mesh \<Rightarrow> nat \<times> mesh" where
  "index_mesh_vertices m =
     (case index_loop (vertices m) 0 (vdata m) of (n, vd) \<Rightarrow> (n, m\<lparr>vdata := vd\<rparr>))"

subsection \<open>Resetting the pinned flags (loop in \<open>compute\<close>)\<close>

fun reset_loop :: "vh list \<Rightarrow> (vh \<Rightarrow> vertex) \<Rightarrow> (vh \<Rightarrow> vertex)" where
  "reset_loop [] vd = vd"
| "reset_loop (v # vs) vd = reset_loop vs (vd(v := (vd v)\<lparr>v_param := False\<rparr>))"

definition reset_parameterized :: "mesh \<Rightarrow> mesh" where
  "reset_parameterized m = m\<lparr>vdata := reset_loop (vertices m) (vdata m)\<rparr>"

subsection \<open>Pinning the constrained vertices (\<open>setScalarForVc\<close>)\<close>

fun setScalarForVc :: "mesh \<Rightarrow> constrained_vertex list \<Rightarrow> mesh" where
  "setScalarForVc m [] = m"
| "setScalarForVc m (vc # vcs) =
     setScalarForVc
       (m\<lparr>vdata := (vdata m)(m_vh vc := (vdata m (m_vh vc))\<lparr>v_param := True, v_s := m_scalar vc\<rparr>)\<rparr>)
       vcs"

text \<open>The value the last constraint naming a vertex gives it.\<close>

definition last_constraint :: "constrained_vertex list \<Rightarrow> vh \<Rightarrow> real option" where
  "last_constraint vcs v = map_of (rev (map (\<lambda>vc. (m_vh vc, m_scalar vc)) vcs)) v"

subsection \<open>Write-back (\<open>set_mesh_scalar_from_system\<close>)\<close>

fun writeback_loop :: "vh list \<Rightarrow> vec \<Rightarrow> (vh \<Rightarrow> vertex) \<Rightarrow> (vh \<Rightarrow> vertex)" where
  "writeback_loop [] Xu vd = vd"
| "writeback_loop (v # vs) Xu vd =
     writeback_loop vs Xu (vd(v := (vd v)\<lparr>v_s := Xu ! v_index (vd v), v_param := True\<rparr>))"

definition set_mesh_scalar_from_system :: "mesh \<Rightarrow> vec \<Rightarrow> mesh" where
  "set_mesh_scalar_from_system m Xu = m\<lparr>vdata := writeback_loop (vertices m) Xu (vdata m)\<rparr>"

subsection \<open>Classification as \<open>compute\<close> sequences it\<close>

text \<open>
  Lines 345--357 of \<open>compute\<close>: index the vertices, clear every pinned flag,
  then pin the constrained vertices. The vertex count is returned with the mesh.
\<close>

definition classify :: "mesh \<Rightarrow> constrained_vertex list \<Rightarrow> nat \<times> mesh" where
  "classify m vcs =
     (case index_mesh_vertices m of
        (n, m1) \<Rightarrow> (n, setScalarForVc (reset_parameterized m1) vcs))"

subsection \<open>The triangle of the specification's scenario\<close>

text \<open>
  Three vertices, each the neighbour of the other two, with fresh vertex fields:
  the single-triangle scenario of the specification (section 8).
\<close>

definition triangle_mesh :: mesh where
  "triangle_mesh =
     \<lparr>vertices = [0, 1, 2],
      ring = (\<lambda>v. if v = 0 then [1, 2] else if v = 1 then [2, 0] else [0, 1]),
      vdata = (\<lambda>v. \<lparr>v_index = 0, v_s = 0, v_param = False\<rparr>)\<rparr>"

definition triangle_constraints :: "constrained_vertex list" where
  "triangle_constraints = [\<lparr>m_vh = 0, m_scalar = 0\<rparr>, \<lparr>m_vh = 1, m_scalar = 1\<rparr>]"

text \<open>
  A path 0 -- 1 -- 2 with 0 and 1 pinned: the free end 2 has a single neighbour,
  the degenerate local topology \<open>setup_inner_vertex_relations\<close> rejects.
\<close>

definition path_mesh :: mesh where
  "path_mesh =
     \<lparr>vertices = [0, 1, 2],
      ring = (\<lambda>v. if v = 0 then [1] else if v = 1 then [0, 2] else [1]),
      vdata = (\<lambda>v. \<lparr>v_index = 0, v_s = 0, v_param = False\<rparr>)\<rparr>"

definition path_constraints :: "constrained_vertex list" where
  "path_constraints = [\<lparr>m_vh = 0, m_scalar = 5\<rparr>, \<lparr>m_vh = 1, m_scalar = 0\<rparr>]"

subsection \<open>Frame rules: topology is never written\<close>

lemma index_mesh_vertices_topology [simp, mesh_simps]:
  "vertices (snd (index_mesh_vertices m)) = vertices m"
  "ring (snd (index_mesh_vertices m)) = ring m"
  by (simp_all add: index_mesh_vertices_def split_def)

lemma reset_parameterized_topology [simp, mesh_simps]:
  "vertices (reset_parameterized m) = vertices m"
  "ring (reset_parameterized m) = ring m"
  by (simp_all add: reset_parameterized_def)

lemma setScalarForVc_topology [simp, mesh_simps]:
  "vertices (setScalarForVc m vcs) = vertices m"
  "ring (setScalarForVc m vcs) = ring m"
  by (induction m vcs rule: setScalarForVc.induct) simp_all

lemma set_mesh_scalar_from_system_topology [simp, mesh_simps]:
  "vertices (set_mesh_scalar_from_system m Xu) = vertices m"
  "ring (set_mesh_scalar_from_system m Xu) = ring m"
  by (simp_all add: set_mesh_scalar_from_system_def)

lemma classify_topology [simp, mesh_simps]:
  "vertices (snd (classify m vcs)) = vertices m"
  "ring (snd (classify m vcs)) = ring m"
  by (simp_all add: classify_def split_def)

subsection \<open>What each loop writes\<close>

lemma index_loop_count: "fst (index_loop vs i vd) = i + length vs"
  by (induction vs arbitrary: i vd) simp_all

lemma index_loop_other: "v \<notin> set vs \<Longrightarrow> snd (index_loop vs i vd) v = vd v"
  by (induction vs arbitrary: i vd) simp_all

lemma index_loop_nth:
  "distinct vs \<Longrightarrow> k < length vs \<Longrightarrow>
     snd (index_loop vs i vd) (vs ! k) =
       (vd (vs ! k))\<lparr>v_param := False, v_s := -1, v_index := i + k\<rparr>"
proof (induction vs arbitrary: i vd k)
  case Nil
  then show ?case by simp
next
  case (Cons v vs)
  show ?case
  proof (cases k)
    case 0
    with Cons.prems show ?thesis by (simp add: index_loop_other)
  next
    case (Suc k')
    with Cons.prems have "vs ! k' \<noteq> v" and "distinct vs" and "k' < length vs"
      by (auto simp: nth_mem)
    with Cons.IH Suc show ?thesis by simp
  qed
qed

lemma reset_loop_apply:
  "reset_loop vs vd v = (if v \<in> set vs then (vd v)\<lparr>v_param := False\<rparr> else vd v)"
  by (induction vs arbitrary: vd) auto

lemma last_constraint_Nil [simp]: "last_constraint [] v = None"
  by (simp add: last_constraint_def)

lemma last_constraint_Cons:
  "last_constraint (vc # vcs) v =
     (case last_constraint vcs v of
        None \<Rightarrow> (if m_vh vc = v then Some (m_scalar vc) else None)
      | Some x \<Rightarrow> Some x)"
  by (simp add: last_constraint_def map_of_append map_add_def split: option.splits)

lemma last_constraint_None_iff:
  "last_constraint vcs v = None \<longleftrightarrow> v \<notin> m_vh ` set vcs"
  by (induction vcs) (auto simp: last_constraint_Cons split: option.splits)

lemma vdata_setScalarForVc:
  "vdata (setScalarForVc m vcs) v =
     (case last_constraint vcs v of
        None \<Rightarrow> vdata m v
      | Some x \<Rightarrow> (vdata m v)\<lparr>v_param := True, v_s := x\<rparr>)"
  by (induction m vcs rule: setScalarForVc.induct)
     (auto simp: last_constraint_Cons split: option.splits)

lemma writeback_loop_apply:
  "writeback_loop vs Xu vd v =
     (if v \<in> set vs then (vd v)\<lparr>v_s := Xu ! v_index (vd v), v_param := True\<rparr> else vd v)"
  by (induction vs arbitrary: vd) auto

lemmas vertex_loop_simps [mesh_simps] =
  reset_loop_apply vdata_setScalarForVc writeback_loop_apply

lemma mesh_wf_ring:
  assumes "mesh_wf m" and "v \<in> set (vertices m)"
  shows "distinct (ring m v)" and "v \<notin> set (ring m v)" and "set (ring m v) \<subseteq> set (vertices m)"
  using assms by (auto simp: mesh_wf_def list_all_iff)

lemma last_constraint_find:
  "last_constraint vcs v = map_option m_scalar (find (\<lambda>vc. m_vh vc = v) (rev vcs))"
  by (induction vcs) (auto simp: last_constraint_Cons find_append_eq split: option.splits)

lemma classify_count: "fst (classify m vcs) = length (vertices m)"
  by (simp add: classify_def index_mesh_vertices_def split_def index_loop_count)

lemma classify_nth:
  assumes "distinct (vertices m)" and "k < length (vertices m)"
  shows "vdata (snd (classify m vcs)) (vertices m ! k) =
           (case last_constraint vcs (vertices m ! k) of
              None \<Rightarrow> (vdata m (vertices m ! k))\<lparr>v_param := False, v_s := -1, v_index := k\<rparr>
            | Some x \<Rightarrow> (vdata m (vertices m ! k))\<lparr>v_param := True, v_s := x, v_index := k\<rparr>)"
  using assms
  by (simp add: classify_def index_mesh_vertices_def reset_parameterized_def split_def
      vdata_setScalarForVc reset_loop_apply index_loop_nth nth_mem split: option.splits)

lemma classify_vdata:
  assumes "distinct (vertices m)" and "v \<in> set (vertices m)"
  shows "v_param (vdata (snd (classify m vcs)) v) \<longleftrightarrow> v \<in> m_vh ` set vcs"
    and "v_index (vdata (snd (classify m vcs)) v) < length (vertices m)"
proof -
  from assms(2) obtain k where k: "k < length (vertices m)" "v = vertices m ! k"
    by (auto simp: in_set_conv_nth)
  show "v_param (vdata (snd (classify m vcs)) v) \<longleftrightarrow> v \<in> m_vh ` set vcs"
    using classify_nth[OF assms(1) k(1), of vcs] k last_constraint_None_iff[of vcs v]
    by (auto split: option.splits)
  show "v_index (vdata (snd (classify m vcs)) v) < length (vertices m)"
    using classify_nth[OF assms(1) k(1), of vcs] k by (simp split: option.splits)
qed

lemma classify_index_inj:
  assumes "distinct (vertices m)"
  shows "inj_on (\<lambda>v. v_index (vdata (snd (classify m vcs)) v)) (set (vertices m))"
proof (rule inj_onI)
  fix u v
  assume u: "u \<in> set (vertices m)" and v: "v \<in> set (vertices m)"
    and eq: "v_index (vdata (snd (classify m vcs)) u) = v_index (vdata (snd (classify m vcs)) v)"
  from u obtain k where k: "k < length (vertices m)" "u = vertices m ! k"
    by (auto simp: in_set_conv_nth)
  from v obtain l where l: "l < length (vertices m)" "v = vertices m ! l"
    by (auto simp: in_set_conv_nth)
  have "v_index (vdata (snd (classify m vcs)) u) = k"
    using classify_nth[OF assms k(1), of vcs] k by (simp split: option.splits)
  moreover have "v_index (vdata (snd (classify m vcs)) v) = l"
    using classify_nth[OF assms l(1), of vcs] l by (simp split: option.splits)
  ultimately show "u = v" using eq k l by simp
qed

text \<open>
  (C5) Classification: in a mesh whose vertex iteration visits each vertex once,
  \<open>compute\<close>'s first three steps return the vertex count, give the k-th visited
  vertex the index k, pin exactly the vertices some constraint names, and give a
  pinned vertex the value of the last constraint naming it (last write wins) and a
  free one the sentinel -1.
\<close>

theorem classify_vertex:
  assumes "distinct (vertices m)" and "k < length (vertices m)"
  shows "fst (classify m vcs) = length (vertices m) \<and>
         v_index (vdata (snd (classify m vcs)) (vertices m ! k)) = k \<and>
         (v_param (vdata (snd (classify m vcs)) (vertices m ! k)) \<longleftrightarrow> vertices m ! k \<in> m_vh ` set vcs) \<and>
         v_s (vdata (snd (classify m vcs)) (vertices m ! k)) =
           (case last_constraint vcs (vertices m ! k) of None \<Rightarrow> -1 | Some x \<Rightarrow> x)"
  using classify_nth[OF assms, of vcs] classify_count[of m vcs]
    last_constraint_None_iff[of vcs "vertices m ! k"]
  by (auto split: option.splits)

theorem classify_vertex_witness:
  "distinct (vertices triangle_mesh) \<and> 1 < length (vertices triangle_mesh) \<and>
   fst (classify triangle_mesh [\<lparr>m_vh = 1, m_scalar = 5\<rparr>, \<lparr>m_vh = 1, m_scalar = 7\<rparr>]) = 3 \<and>
   v_index (vdata (snd (classify triangle_mesh [\<lparr>m_vh = 1, m_scalar = 5\<rparr>, \<lparr>m_vh = 1, m_scalar = 7\<rparr>])) 1) = 1 \<and>
   v_s (vdata (snd (classify triangle_mesh [\<lparr>m_vh = 1, m_scalar = 5\<rparr>, \<lparr>m_vh = 1, m_scalar = 7\<rparr>])) 1) = 7"
  using classify_vertex[of triangle_mesh 1 "[\<lparr>m_vh = 1, m_scalar = 5\<rparr>, \<lparr>m_vh = 1, m_scalar = 7\<rparr>]"]
  by (simp add: triangle_mesh_def last_constraint_def)

end
