(* ===== verification/Weights.thy ===== *)
theory Weights
  imports Mesh
begin

text \<open>
  The weighting strategy of \<open>Calculator\<close>. The constructor
  \<open>Calculator(int weightOption)\<close> chooses one of five option objects by an integer
  code; every later coefficient comes from the chosen object's \<open>operator()\<close>.
  The four geometric options (mean value, discrete conformal, two springs) live in
  headers outside \<open>src/\<close>; they are an interface here: a record of weight
  functions that every lemma about assembly is stated over. The uniform (Tutte)
  option is the constant 1, as the specification gives it.
\<close>

datatype weight_option = MvcOption | DcpOption | SpringOption1 | SpringOption2 | TutteOption

record calculator =
  m_weightOption :: weight_option

type_synonym weight_fn = "mesh \<Rightarrow> vh \<Rightarrow> vh \<Rightarrow> real"
  \<comment> \<open>\<open>operator()(mesh, vh, v_j)\<close>: the weight of the edge from \<open>vh\<close> to neighbour \<open>v_j\<close>\<close>

record weight_impl =
  mvc_weight :: weight_fn
  dcp_weight :: weight_fn
  spring1_weight :: weight_fn
  spring2_weight :: weight_fn

definition Calculator :: "int \<Rightarrow> calculator" where
  "Calculator weightOption =
     \<lparr>m_weightOption =
        (if weightOption = 0 then MvcOption
         else if weightOption = 1 then DcpOption
         else if weightOption = 3 then SpringOption1
         else if weightOption = 4 then SpringOption2
         else TutteOption)\<rparr>"

definition tutte_weight :: weight_fn where
  "tutte_weight m vi vj = 1"

fun option_weight :: "weight_impl \<Rightarrow> weight_option \<Rightarrow> weight_fn" where
  "option_weight wi MvcOption = mvc_weight wi"
| "option_weight wi DcpOption = dcp_weight wi"
| "option_weight wi SpringOption1 = spring1_weight wi"
| "option_weight wi SpringOption2 = spring2_weight wi"
| "option_weight wi TutteOption = tutte_weight"

definition calc_weight :: "weight_impl \<Rightarrow> calculator \<Rightarrow> weight_fn" where
  "calc_weight wi c = option_weight wi (m_weightOption c)"

text \<open>A weight implementation with every option uniform, for concrete runs.\<close>

definition uniform_impl :: weight_impl where
  "uniform_impl = \<lparr>mvc_weight = tutte_weight, dcp_weight = tutte_weight,
                    spring1_weight = tutte_weight, spring2_weight = tutte_weight\<rparr>"

definition weight_symmetric :: "weight_fn \<Rightarrow> mesh \<Rightarrow> bool" where
  "weight_symmetric w m \<longleftrightarrow>
     (\<forall>v\<in>set (vertices m). \<forall>u\<in>set (ring m v). w m v u = w m u v)"

lemma tutte_weight_apply [simp]: "tutte_weight m vi vj = 1"
  by (simp add: tutte_weight_def)

end
