(* ===== verification/Assembly.thy ===== *)
theory Assembly
  imports Weights
begin

text \<open>
  System assembly of \<open>Calculator.cpp\<close>: the constrained rows
  (\<open>initialize_system_from_mesh_vc\<close>), the row of a free vertex
  (\<open>setup_inner_vertex_relations\<close>, one overload per matrix type), and the two
  drivers \<open>setupSystem\<close> and \<open>setupSymmetricSystem\<close>. A matrix is its
  dimension and its written coefficients; \<open>set_coef\<close> overwrites, and a
  coefficient never written reads 0. The abstract specification is
  \<open>system_coef\<close>/\<open>system_rhs\<close>, the coefficient and right-hand side the
  specification assigns to each vertex's row; the refinement lemmas show the
  drivers build exactly that row for every vertex.
\<close>

subsection \<open>Sparse matrices (\<open>Matrix\<close>, \<open>SymmetricMatrix\<close>)\<close>

record matrix =
  m_rows :: nat
  m_coefs :: coefs

record sym_matrix =
  sm_rows :: nat
  sm_coefs :: coefs

definition new_matrix :: "nat \<Rightarrow> matrix" where
  "new_matrix n = \<lparr>m_rows = n, m_coefs = []\<rparr>"

definition set_coef :: "matrix \<Rightarrow> nat \<Rightarrow> nat \<Rightarrow> real \<Rightarrow> matrix" where
  "set_coef A i j v = A\<lparr>m_coefs := AList.update (i, j) v (m_coefs A)\<rparr>"

definition get_coef :: "matrix \<Rightarrow> nat \<Rightarrow> nat \<Rightarrow> real" where
  "get_coef A i j = coef_of (m_coefs A) i j"

definition new_sym_matrix :: "nat \<Rightarrow> sym_matrix" where
  "new_sym_matrix n = \<lparr>sm_rows = n, sm_coefs = []\<rparr>"

definition set_coef_sym :: "sym_matrix \<Rightarrow> nat \<Rightarrow> nat \<Rightarrow> real \<Rightarrow> sym_matrix" where
  "set_coef_sym A i j v = A\<lparr>sm_coefs := AList.update (i, j) v (sm_coefs A)\<rparr>"

definition get_coef_sym :: "sym_matrix \<Rightarrow> nat \<Rightarrow> nat \<Rightarrow> real" where
  "get_coef_sym A i j = coef_of (sm_coefs A) i j"

definition row_sum :: "matrix \<Rightarrow> nat \<Rightarrow> real" where
  "row_sum A i = row_sum_of (m_coefs A) i"

definition matrix_wf :: "matrix \<Rightarrow> bool" where
  "matrix_wf A \<longleftrightarrow> distinct (map fst (m_coefs A)) \<and>
     list_all (\<lambda>e. fst (fst e) < m_rows A \<and> snd (fst e) < m_rows A) (m_coefs A)"

subsection \<open>Constrained rows (\<open>initialize_system_from_mesh_vc\<close>)\<close>

fun initialize_system_from_mesh_vc ::
  "matrix \<Rightarrow> vec \<Rightarrow> mesh \<Rightarrow> constrained_vertex list \<Rightarrow> matrix \<times> vec" where
  "initialize_system_from_mesh_vc A Bu m [] = (A, Bu)"
| "initialize_system_from_mesh_vc A Bu m (vc # vcs) =
     (let index = v_index (vdata m (m_vh vc)); scalar = m_scalar vc
      in initialize_system_from_mesh_vc (set_coef A index index 1) (Bu[index := scalar]) m vcs)"

subsection \<open>The row of a free vertex (\<open>setup_inner_vertex_relations\<close>)\<close>

text \<open>The circulation \<open>CGAL_For_all(v_j, end)\<close> over the one-ring.\<close>

fun ring_loop ::
  "weight_fn \<Rightarrow> mesh \<Rightarrow> vh \<Rightarrow> nat \<Rightarrow> vh list \<Rightarrow> real \<Rightarrow> nat \<Rightarrow> matrix \<Rightarrow> real \<times> nat \<times> matrix" where
  "ring_loop w m vh i [] w_ii vertexIndex A = (w_ii, vertexIndex, A)"
| "ring_loop w m vh i (v_j # vjs) w_ii vertexIndex A =
     (let w_ij = -1 * w m vh v_j; j = v_index (vdata m v_j)
      in ring_loop w m vh i vjs (w_ii - w_ij) (Suc vertexIndex) (set_coef A i j w_ij))"

definition setup_inner_vertex_relations ::
  "weight_fn \<Rightarrow> matrix \<Rightarrow> vec \<Rightarrow> mesh \<Rightarrow> vh \<Rightarrow> vec \<Rightarrow> int \<times> matrix \<times> vec" where
  "setup_inner_vertex_relations w A Bu m vh cValues =
     (let i = v_index (vdata m vh)
      in case ring_loop w m vh i (ring m vh) 0 0 A of
           (w_ii, vertexIndex, A1) \<Rightarrow>
             if vertexIndex < 2 then (-1, A1, Bu)
             else (let A2 = set_coef A1 i i w_ii;
                       Bu2 = (if cValues \<noteq> [] then Bu[i := \<bar>cValues ! i\<bar>] else Bu)
                   in (int i, A2, Bu2)))"

fun ring_loop_sym ::
  "weight_fn \<Rightarrow> mesh \<Rightarrow> vh \<Rightarrow> nat \<Rightarrow> vh list \<Rightarrow> real \<Rightarrow> nat \<Rightarrow> sym_matrix \<Rightarrow> real \<times> nat \<times> sym_matrix" where
  "ring_loop_sym w m vh i [] w_ii vertexIndex A = (w_ii, vertexIndex, A)"
| "ring_loop_sym w m vh i (v_j # vjs) w_ii vertexIndex A =
     (let w_ij = -1 * w m vh v_j; j = v_index (vdata m v_j)
      in ring_loop_sym w m vh i vjs (w_ii - w_ij) (Suc vertexIndex) (set_coef_sym A i j w_ij))"

definition setup_inner_vertex_relations_sym ::
  "weight_fn \<Rightarrow> sym_matrix \<Rightarrow> vec \<Rightarrow> mesh \<Rightarrow> vh \<Rightarrow> vec \<Rightarrow> int \<times> sym_matrix \<times> vec" where
  "setup_inner_vertex_relations_sym w A Bu m vh cValues =
     (let i = v_index (vdata m vh)
      in case ring_loop_sym w m vh i (ring m vh) 0 0 A of
           (w_ii, vertexIndex, A1) \<Rightarrow>
             if vertexIndex < 2 then (-1, A1, Bu)
             else (let A2 = set_coef_sym A1 i i w_ii;
                       Bu2 = (if cValues \<noteq> [] then Bu[i := \<bar>cValues ! i\<bar>] else Bu)
                   in (int i, A2, Bu2)))"

subsection \<open>The drivers (\<open>setupSystem\<close>, \<open>setupSymmetricSystem\<close>)\<close>

fun setup_loop :: "weight_fn \<Rightarrow> mesh \<Rightarrow> vec \<Rightarrow> vh list \<Rightarrow> matrix \<Rightarrow> vec \<Rightarrow> matrix \<times> vec" where
  "setup_loop w m cValues [] A Bu = (A, Bu)"
| "setup_loop w m cValues (v # vs) A Bu =
     (if v_param (vdata m v) then setup_loop w m cValues vs A Bu
      else (case setup_inner_vertex_relations w A Bu m v cValues of
              (status, A', Bu') \<Rightarrow> setup_loop w m cValues vs A' Bu'))"

definition setupSystem ::
  "weight_fn \<Rightarrow> mesh \<Rightarrow> matrix \<Rightarrow> vec \<Rightarrow> constrained_vertex list \<Rightarrow> vec \<Rightarrow> matrix \<times> vec" where
  "setupSystem w m A Bu vcMap cValues =
     (case initialize_system_from_mesh_vc A Bu m vcMap of
        (A1, Bu1) \<Rightarrow> setup_loop w m cValues (vertices m) A1 Bu1)"

fun setup_sym_loop :: "weight_fn \<Rightarrow> mesh \<Rightarrow> vec \<Rightarrow> vh list \<Rightarrow> sym_matrix \<Rightarrow> vec \<Rightarrow> sym_matrix \<times> vec" where
  "setup_sym_loop w m cValues [] A Bu = (A, Bu)"
| "setup_sym_loop w m cValues (v # vs) A Bu =
     (case setup_inner_vertex_relations_sym w A Bu m v cValues of
        (status, A', Bu') \<Rightarrow> setup_sym_loop w m cValues vs A' Bu')"

definition setupSymmetricSystem ::
  "weight_fn \<Rightarrow> mesh \<Rightarrow> sym_matrix \<Rightarrow> vec \<Rightarrow> constrained_vertex list \<Rightarrow> vec \<Rightarrow> sym_matrix \<times> vec" where
  "setupSymmetricSystem w m A Bu vcMap cValues = setup_sym_loop w m cValues (vertices m) A Bu"

subsection \<open>The abstract system\<close>

text \<open>
  What the specification asks of row \<open>i\<close> of the general system, for the vertex
  \<open>v\<close> of index \<open>i\<close>: an identity row with the constraint value for a pinned
  vertex; for a free one, minus the edge weight at each neighbour's column and the
  sum of the weights on the diagonal (the diagonal only when the one-ring has at
  least two vertices), and the Poisson term on the right when one is given.
\<close>

definition laplacian_coef :: "weight_fn \<Rightarrow> mesh \<Rightarrow> vh \<Rightarrow> nat \<Rightarrow> real" where
  "laplacian_coef w m v c =
     (if c = v_index (vdata m v)
      then (if 2 \<le> length (ring m v) then sum_list (map (w m v) (ring m v)) else 0)
      else (case find (\<lambda>u. v_index (vdata m u) = c) (ring m v) of
              None \<Rightarrow> 0
            | Some u \<Rightarrow> - w m v u))"

definition system_coef :: "weight_fn \<Rightarrow> mesh \<Rightarrow> vh \<Rightarrow> nat \<Rightarrow> real" where
  "system_coef w m v c =
     (if v_param (vdata m v) then (if c = v_index (vdata m v) then 1 else 0)
      else laplacian_coef w m v c)"

definition system_rhs :: "mesh \<Rightarrow> constrained_vertex list \<Rightarrow> vec \<Rightarrow> vh \<Rightarrow> real" where
  "system_rhs m vcs cValues v =
     (if v_param (vdata m v) then (case last_constraint vcs v of None \<Rightarrow> 0 | Some x \<Rightarrow> x)
      else if 2 \<le> length (ring m v) \<and> cValues \<noteq> [] then \<bar>cValues ! v_index (vdata m v)\<bar>
      else 0)"

text \<open>
  The state \<open>compute\<close> assembles in: a well-formed mesh whose indices are
  distinct and below the dimension, pinned exactly where a constraint points.
\<close>

definition assembly_wf :: "mesh \<Rightarrow> constrained_vertex list \<Rightarrow> nat \<Rightarrow> bool" where
  "assembly_wf m vcs n \<longleftrightarrow> mesh_wf m \<and>
     distinct (map (\<lambda>v. v_index (vdata m v)) (vertices m)) \<and>
     list_all (\<lambda>v. v_index (vdata m v) < n \<and> (v_param (vdata m v) \<longleftrightarrow> v \<in> m_vh ` set vcs))
       (vertices m) \<and>
     list_all (\<lambda>vc. m_vh vc \<in> set (vertices m)) vcs"

text \<open>The row a free vertex's setup leaves over the old coefficient \<open>old\<close> at column \<open>c\<close>.\<close>

definition inner_row :: "weight_fn \<Rightarrow> mesh \<Rightarrow> vh \<Rightarrow> real \<Rightarrow> nat \<Rightarrow> real" where
  "inner_row w m v old c =
     (if c = v_index (vdata m v) \<and> 2 \<le> length (ring m v)
      then sum_list (map (w m v) (ring m v))
      else (case find (\<lambda>u. v_index (vdata m u) = c) (rev (ring m v)) of
              None \<Rightarrow> old
            | Some u \<Rightarrow> - w m v u))"

text \<open>The storage of a \<open>SymmetricMatrix\<close> read as a \<open>Matrix\<close>.\<close>

definition sym_to_matrix :: "sym_matrix \<Rightarrow> matrix" where
  "sym_to_matrix SA = \<lparr>m_rows = sm_rows SA, m_coefs = sm_coefs SA\<rparr>"

text \<open>The product of a matrix with a dense vector, over the written coefficients.\<close>

definition mat_vec :: "matrix \<Rightarrow> vec \<Rightarrow> vec" where
  "mat_vec A x =
     map (\<lambda>r. sum_list (map (\<lambda>e. snd e * x ! snd (fst e)) (filter (\<lambda>e. fst (fst e) = r) (m_coefs A))))
       [0..<m_rows A]"

subsection \<open>Reading and writing coefficients\<close>

lemma get_coef_new_matrix [simp, coef_simps]: "get_coef (new_matrix n) i j = 0"
  by (simp add: get_coef_def new_matrix_def)

lemma get_coef_set_coef [simp, coef_simps]:
  "get_coef (set_coef A i j v) r c = (if r = i \<and> c = j then v else get_coef A r c)"
  by (simp add: get_coef_def set_coef_def)

lemma m_rows_set_coef [simp]: "m_rows (set_coef A i j v) = m_rows A"
  by (simp add: set_coef_def)

lemma matrix_wf_new_matrix [simp]: "matrix_wf (new_matrix n)"
  by (simp add: matrix_wf_def new_matrix_def)

lemma matrix_wf_set_coef:
  assumes "matrix_wf A" and "i < m_rows A" and "j < m_rows A"
  shows "matrix_wf (set_coef A i j v)"
proof -
  let ?P = "\<lambda>k. fst k < m_rows A \<and> snd k < m_rows A"
  from assms(1) have "\<forall>k\<in>fst ` set (m_coefs A). ?P k"
    by (simp add: matrix_wf_def list_all_iff)
  with assms(2,3) have "\<forall>k\<in>fst ` set (AList.update (i, j) v (m_coefs A)). ?P k"
    by (simp add: dom_update)
  then have "list_all (\<lambda>e. ?P (fst e)) (AList.update (i, j) v (m_coefs A))"
    by (simp add: list_all_iff)
  with assms(1) show ?thesis
    by (simp add: matrix_wf_def set_coef_def)
qed
lemma row_dot_cols:
  assumes "matrix_wf A"
  shows "row_dot_of (m_coefs A) r x = (\<Sum>c<m_rows A. get_coef A r c * x c)"
proof -
  have d: "distinct (map fst (m_coefs A))" using assms by (simp add: matrix_wf_def)
  have keys: "\<forall>k\<in>fst ` set (m_coefs A). snd k < m_rows A"
    using assms by (simp add: matrix_wf_def list_all_iff)
  have sub: "row_cols_of (m_coefs A) r \<subseteq> {..<m_rows A}"
  proof
    fix c
    assume "c \<in> row_cols_of (m_coefs A) r"
    then have "(r, c) \<in> fst ` set (m_coefs A)" by (simp add: row_cols_of_def)
    with keys show "c \<in> {..<m_rows A}" by fastforce
  qed
  have "row_dot_of (m_coefs A) r x = (\<Sum>c\<in>row_cols_of (m_coefs A) r. coef_of (m_coefs A) r c * x c)"
    by (rule row_dot_of_eq_sum[OF d])
  also have "\<dots> = (\<Sum>c<m_rows A. coef_of (m_coefs A) r c * x c)"
  proof (rule sum.mono_neutral_left)
    show "finite {..<m_rows A}" by simp
    show "row_cols_of (m_coefs A) r \<subseteq> {..<m_rows A}" by (rule sub)
    show "\<forall>c\<in>{..<m_rows A} - row_cols_of (m_coefs A) r. coef_of (m_coefs A) r c * x c = 0"
      by (simp add: coef_of_notin)
  qed
  finally show ?thesis by (simp add: get_coef_def)
qed

lemma row_sum_eq_sum_cols:
  assumes "matrix_wf A"
  shows "row_sum A r = (\<Sum>c<m_rows A. get_coef A r c)"
proof -
  have "row_sum A r = row_dot_of (m_coefs A) r (\<lambda>_. 1)"
    by (simp add: row_sum_def row_sum_of_def row_dot_of_def comp_def)
  then show ?thesis by (simp add: row_dot_cols[OF assms])
qed

lemma mat_vec_nth:
  assumes "matrix_wf A" and "r < m_rows A"
  shows "mat_vec A x ! r = (\<Sum>c<m_rows A. get_coef A r c * x ! c)"
proof -
  have "mat_vec A x ! r = row_dot_of (m_coefs A) r (\<lambda>c. x ! c)"
    using assms(2) by (simp add: mat_vec_def row_dot_of_def)
  then show ?thesis by (simp add: row_dot_cols[OF assms(1)])
qed

subsection \<open>The circulation\<close>

lemma ring_loop_sum:
  "fst (ring_loop w m vh i vjs w_ii cnt A) = w_ii + sum_list (map (w m vh) vjs)"
  by (induction vjs arbitrary: w_ii cnt A) (simp_all add: algebra_simps)

lemma ring_loop_count: "fst (snd (ring_loop w m vh i vjs w_ii cnt A)) = cnt + length vjs"
  by (induction vjs arbitrary: w_ii cnt A) simp_all

lemma ring_loop_rows: "m_rows (snd (snd (ring_loop w m vh i vjs w_ii cnt A))) = m_rows A"
  by (induction vjs arbitrary: w_ii cnt A) simp_all

lemma ring_loop_coef:
  "get_coef (snd (snd (ring_loop w m vh i vjs w_ii cnt A))) r c =
     (if r = i then (case find (\<lambda>u. v_index (vdata m u) = c) (rev vjs) of
                       None \<Rightarrow> get_coef A r c
                     | Some u \<Rightarrow> - w m vh u)
      else get_coef A r c)"
  by (induction vjs arbitrary: w_ii cnt A) (auto simp: find_append_eq split: option.splits)

lemma ring_loop_wf:
  assumes "matrix_wf A" and "i < m_rows A" and "\<forall>u\<in>set vjs. v_index (vdata m u) < m_rows A"
  shows "matrix_wf (snd (snd (ring_loop w m vh i vjs w_ii cnt A)))"
  using assms
  by (induction vjs arbitrary: w_ii cnt A) (simp_all add: matrix_wf_set_coef)

subsection \<open>One free row\<close>

lemma setup_inner_status:
  "fst (setup_inner_vertex_relations w A Bu m v cv) =
     (if length (ring m v) < 2 then -1 else int (v_index (vdata m v)))"
  by (simp add: setup_inner_vertex_relations_def Let_def split_def ring_loop_count)

lemma setup_inner_coef:
  "get_coef (fst (snd (setup_inner_vertex_relations w A Bu m v cv))) r c =
     (if r = v_index (vdata m v) then inner_row w m v (get_coef A r c) c else get_coef A r c)"
  by (simp add: setup_inner_vertex_relations_def Let_def split_def ring_loop_count
      ring_loop_sum ring_loop_coef inner_row_def)

lemma setup_inner_rhs:
  "snd (snd (setup_inner_vertex_relations w A Bu m v cv)) =
     (if 2 \<le> length (ring m v) \<and> cv \<noteq> []
      then Bu[v_index (vdata m v) := \<bar>cv ! v_index (vdata m v)\<bar>] else Bu)"
  by (simp add: setup_inner_vertex_relations_def Let_def split_def ring_loop_count)

lemma setup_inner_rows:
  "m_rows (fst (snd (setup_inner_vertex_relations w A Bu m v cv))) = m_rows A"
  by (simp add: setup_inner_vertex_relations_def Let_def split_def ring_loop_rows)

lemma setup_inner_wf:
  assumes "matrix_wf A" and "v_index (vdata m v) < m_rows A"
    and "\<forall>u\<in>set (ring m v). v_index (vdata m u) < m_rows A"
  shows "matrix_wf (fst (snd (setup_inner_vertex_relations w A Bu m v cv)))"
  using assms
  by (simp add: setup_inner_vertex_relations_def Let_def split_def ring_loop_wf ring_loop_rows
      matrix_wf_set_coef)

subsection \<open>Constrained rows\<close>

lemma init_coef:
  "get_coef (fst (initialize_system_from_mesh_vc A Bu m vcs)) r c =
     (if c = r \<and> r \<in> (\<lambda>vc. v_index (vdata m (m_vh vc))) ` set vcs then 1 else get_coef A r c)"
  by (induction A Bu m vcs rule: initialize_system_from_mesh_vc.induct) (auto simp: Let_def)

lemma init_rhs:
  assumes "\<forall>vc\<in>set vcs. v_index (vdata m (m_vh vc)) < length Bu"
  shows "snd (initialize_system_from_mesh_vc A Bu m vcs) ! r =
     (case find (\<lambda>vc. v_index (vdata m (m_vh vc)) = r) (rev vcs) of
        None \<Rightarrow> Bu ! r
      | Some vc \<Rightarrow> m_scalar vc)"
  using assms
  by (induction A Bu m vcs rule: initialize_system_from_mesh_vc.induct)
     (auto simp: Let_def find_append_eq nth_list_update split: option.splits)

lemma init_length: "length (snd (initialize_system_from_mesh_vc A Bu m vcs)) = length Bu"
  by (induction A Bu m vcs rule: initialize_system_from_mesh_vc.induct) (simp_all add: Let_def)

lemma init_rows: "m_rows (fst (initialize_system_from_mesh_vc A Bu m vcs)) = m_rows A"
  by (induction A Bu m vcs rule: initialize_system_from_mesh_vc.induct) (simp_all add: Let_def)

lemma init_wf:
  assumes "matrix_wf A" and "\<forall>vc\<in>set vcs. v_index (vdata m (m_vh vc)) < m_rows A"
  shows "matrix_wf (fst (initialize_system_from_mesh_vc A Bu m vcs))"
  using assms
  by (induction A Bu m vcs rule: initialize_system_from_mesh_vc.induct)
     (simp_all add: Let_def matrix_wf_set_coef)

subsection \<open>The general driver\<close>

lemma setup_loop_step:
  "\<not> v_param (vdata m v) \<Longrightarrow>
   setup_loop w m cv (v # vs) A Bu =
     setup_loop w m cv vs (fst (snd (setup_inner_vertex_relations w A Bu m v cv)))
       (snd (snd (setup_inner_vertex_relations w A Bu m v cv)))"
  by (simp add: split_def)

lemma setup_loop_coef:
  assumes "distinct (map (\<lambda>v. v_index (vdata m v)) vs)"
  shows "get_coef (fst (setup_loop w m cv vs A Bu)) r c =
     (case find (\<lambda>v. \<not> v_param (vdata m v) \<and> v_index (vdata m v) = r) vs of
        None \<Rightarrow> get_coef A r c
      | Some v \<Rightarrow> inner_row w m v (get_coef A r c) c)"
  using assms
proof (induction vs arbitrary: A Bu)
  case Nil
  then show ?case by simp
next
  case (Cons v vs)
  show ?case
  proof (cases "v_param (vdata m v)")
    case True
    with Cons show ?thesis by simp
  next
    case False
    let ?A = "fst (snd (setup_inner_vertex_relations w A Bu m v cv))"
    let ?B = "snd (snd (setup_inner_vertex_relations w A Bu m v cv))"
    let ?P = "\<lambda>u. \<not> v_param (vdata m u) \<and> v_index (vdata m u) = r"
    from Cons have IH: "get_coef (fst (setup_loop w m cv vs ?A ?B)) r c =
        (case find ?P vs of None \<Rightarrow> get_coef ?A r c | Some u \<Rightarrow> inner_row w m u (get_coef ?A r c) c)"
      by simp
    show ?thesis
    proof (cases "v_index (vdata m v) = r")
      case True
      with Cons.prems have "\<forall>u\<in>set vs. v_index (vdata m u) \<noteq> r" by (auto simp: image_iff)
      then have "find ?P vs = None" by (auto simp: find_None_iff)
      with IH True False show ?thesis
        by (simp add: split_def setup_inner_coef)
    next
      case other: False
      then have "get_coef ?A r c = get_coef A r c" by (simp add: setup_inner_coef)
      with IH have "get_coef (fst (setup_loop w m cv vs ?A ?B)) r c =
          (case find ?P vs of None \<Rightarrow> get_coef A r c | Some u \<Rightarrow> inner_row w m u (get_coef A r c) c)"
        by (simp split: option.split)
      with other False show ?thesis by (simp add: split_def)
    qed
  qed
qed

lemma setup_loop_length: "length (snd (setup_loop w m cv vs A Bu)) = length Bu"
  by (induction vs arbitrary: A Bu) (simp_all add: split_def setup_inner_rhs)

lemma setup_loop_rows: "m_rows (fst (setup_loop w m cv vs A Bu)) = m_rows A"
  by (induction vs arbitrary: A Bu) (simp_all add: split_def setup_inner_rows)

lemma setup_loop_rhs:
  assumes "distinct (map (\<lambda>v. v_index (vdata m v)) vs)"
    and "\<forall>v\<in>set vs. v_index (vdata m v) < length Bu" and "r < length Bu"
  shows "snd (setup_loop w m cv vs A Bu) ! r =
     (case find (\<lambda>v. \<not> v_param (vdata m v) \<and> v_index (vdata m v) = r) vs of
        None \<Rightarrow> Bu ! r
      | Some v \<Rightarrow> (if 2 \<le> length (ring m v) \<and> cv \<noteq> [] then \<bar>cv ! r\<bar> else Bu ! r))"
  using assms
proof (induction vs arbitrary: A Bu)
  case Nil
  then show ?case by simp
next
  case (Cons v vs)
  show ?case
  proof (cases "v_param (vdata m v)")
    case True
    with Cons show ?thesis by simp
  next
    case False
    let ?A = "fst (snd (setup_inner_vertex_relations w A Bu m v cv))"
    let ?B = "snd (snd (setup_inner_vertex_relations w A Bu m v cv))"
    let ?P = "\<lambda>u. \<not> v_param (vdata m u) \<and> v_index (vdata m u) = r"
    have len: "length ?B = length Bu" by (simp add: setup_inner_rhs)
    from Cons len have IH: "snd (setup_loop w m cv vs ?A ?B) ! r =
        (case find ?P vs of None \<Rightarrow> ?B ! r
         | Some u \<Rightarrow> (if 2 \<le> length (ring m u) \<and> cv \<noteq> [] then \<bar>cv ! r\<bar> else ?B ! r))"
      by simp
    show ?thesis
    proof (cases "v_index (vdata m v) = r")
      case True
      with Cons.prems have "\<forall>u\<in>set vs. v_index (vdata m u) \<noteq> r" by (auto simp: image_iff)
      then have "find ?P vs = None" by (auto simp: find_None_iff)
      with IH True False Cons.prems show ?thesis
        by (simp add: split_def setup_inner_rhs)
    next
      case other: False
      then have "?B ! r = Bu ! r" by (simp add: setup_inner_rhs)
      with IH have "snd (setup_loop w m cv vs ?A ?B) ! r =
          (case find ?P vs of None \<Rightarrow> Bu ! r
           | Some u \<Rightarrow> (if 2 \<le> length (ring m u) \<and> cv \<noteq> [] then \<bar>cv ! r\<bar> else Bu ! r))"
        by (simp split: option.split)
      with other False show ?thesis by (simp add: split_def)
    qed
  qed
qed

lemma setup_loop_wf:
  assumes "matrix_wf A"
    and "\<forall>v\<in>set vs. v_index (vdata m v) < m_rows A \<and>
           (\<forall>u\<in>set (ring m v). v_index (vdata m u) < m_rows A)"
  shows "matrix_wf (fst (setup_loop w m cv vs A Bu))"
  using assms
proof (induction vs arbitrary: A Bu)
  case Nil
  then show ?case by simp
next
  case (Cons v vs)
  then show ?case
    by (simp add: split_def setup_inner_wf setup_inner_rows)
qed

subsection \<open>Refinement of the abstract system\<close>

lemma assembly_wf_facts:
  assumes "assembly_wf m vcs n"
  shows "mesh_wf m"
    and "inj_on (\<lambda>v. v_index (vdata m v)) (set (vertices m))"
    and "distinct (map (\<lambda>v. v_index (vdata m v)) (vertices m))"
    and "\<And>v. v \<in> set (vertices m) \<Longrightarrow> v_index (vdata m v) < n"
    and "\<And>v. v \<in> set (vertices m) \<Longrightarrow> v_param (vdata m v) \<longleftrightarrow> v \<in> m_vh ` set vcs"
    and "\<And>vc. vc \<in> set vcs \<Longrightarrow> m_vh vc \<in> set (vertices m)"
  using assms by (auto simp: assembly_wf_def list_all_iff distinct_map)

lemma inner_row_laplacian:
  assumes "mesh_wf m" and "inj_on (\<lambda>v. v_index (vdata m v)) (set (vertices m))"
    and "v \<in> set (vertices m)"
  shows "inner_row w m v 0 c = laplacian_coef w m v c"
proof -
  let ?f = "\<lambda>v. v_index (vdata m v)"
  have sub: "set (ring m v) \<subseteq> set (vertices m)" and notin: "v \<notin> set (ring m v)"
    using mesh_wf_ring[OF assms(1,3)] by auto
  have inj: "inj_on ?f (set (ring m v))" using assms(2) sub by (rule inj_on_subset)
  have rev: "find (\<lambda>u. ?f u = c) (rev (ring m v)) = find (\<lambda>u. ?f u = c) (ring m v)"
    by (rule find_key_rev[OF inj])
  have self: "find (\<lambda>u. ?f u = ?f v) (ring m v) = None"
  proof -
    have "?f v \<notin> ?f ` set (ring m v)"
      using assms(2,3) sub notin by (auto dest: inj_onD)
    then show ?thesis by (simp add: find_key_None)
  qed
  show ?thesis
    using rev self by (auto simp: inner_row_def laplacian_coef_def split: option.splits)
qed

lemma setupSystem_coef:
  assumes wf: "assembly_wf m vcs n" and v: "v \<in> set (vertices m)"
  shows "get_coef (fst (setupSystem w m (new_matrix n) (zero_vec n) vcs cv)) (v_index (vdata m v)) c =
         system_coef w m v c"
proof -
  let ?f = "\<lambda>v. v_index (vdata m v)"
  let ?I = "initialize_system_from_mesh_vc (new_matrix n) (zero_vec n) m vcs"
  note facts = assembly_wf_facts[OF wf]
  have inj': "inj_on ?f (insert v (set (vertices m)))" using facts(2) v by (simp add: insert_absorb)
  have loop: "get_coef (fst (setupSystem w m (new_matrix n) (zero_vec n) vcs cv)) (?f v) c =
      (case find (\<lambda>u. \<not> v_param (vdata m u) \<and> ?f u = ?f v) (vertices m) of
         None \<Rightarrow> get_coef (fst ?I) (?f v) c
       | Some u \<Rightarrow> inner_row w m u (get_coef (fst ?I) (?f v) c) c)"
    using setup_loop_coef[OF facts(3)] by (simp add: setupSystem_def split_def)
  have find: "find (\<lambda>u. \<not> v_param (vdata m u) \<and> ?f u = ?f v) (vertices m) =
      (if \<not> v_param (vdata m v) then Some v else None)"
    using find_key_pred[OF inj', of "\<lambda>u. \<not> v_param (vdata m u)"] v by simp
  have init: "get_coef (fst ?I) (?f v) c =
      (if c = ?f v \<and> ?f v \<in> (\<lambda>vc. ?f (m_vh vc)) ` set vcs then 1 else 0)"
    by (simp add: init_coef)
  have pinned: "?f v \<in> (\<lambda>vc. ?f (m_vh vc)) ` set vcs \<longleftrightarrow> v_param (vdata m v)"
  proof
    assume "?f v \<in> (\<lambda>vc. ?f (m_vh vc)) ` set vcs"
    then obtain vc where vc: "vc \<in> set vcs" "?f v = ?f (m_vh vc)" by auto
    then have "m_vh vc = v" using facts(2,6) v by (auto dest: inj_onD)
    with vc facts(5)[OF v] show "v_param (vdata m v)" by auto
  next
    assume "v_param (vdata m v)"
    with facts(5)[OF v] show "?f v \<in> (\<lambda>vc. ?f (m_vh vc)) ` set vcs" by auto
  qed
  show ?thesis
  proof (cases "v_param (vdata m v)")
    case True
    with loop find init pinned show ?thesis by (simp add: system_coef_def)
  next
    case False
    with loop find init pinned show ?thesis
      by (simp add: system_coef_def inner_row_laplacian[OF facts(1,2) v])
  qed
qed

lemma setupSystem_rhs:
  assumes wf: "assembly_wf m vcs n" and v: "v \<in> set (vertices m)"
  shows "snd (setupSystem w m (new_matrix n) (zero_vec n) vcs cv) ! v_index (vdata m v) =
         system_rhs m vcs cv v"
proof -
  let ?f = "\<lambda>v. v_index (vdata m v)"
  let ?I = "initialize_system_from_mesh_vc (new_matrix n) (zero_vec n) m vcs"
  note facts = assembly_wf_facts[OF wf]
  have inj': "inj_on ?f (insert v (set (vertices m)))" using facts(2) v by (simp add: insert_absorb)
  have lenI: "length (snd ?I) = n" by (simp add: init_length)
  have loop: "snd (setupSystem w m (new_matrix n) (zero_vec n) vcs cv) ! ?f v =
      (case find (\<lambda>u. \<not> v_param (vdata m u) \<and> ?f u = ?f v) (vertices m) of
         None \<Rightarrow> snd ?I ! ?f v
       | Some u \<Rightarrow> (if 2 \<le> length (ring m u) \<and> cv \<noteq> [] then \<bar>cv ! ?f v\<bar> else snd ?I ! ?f v))"
    using setup_loop_rhs[OF facts(3), of "snd ?I" "?f v" w cv "fst ?I"] facts(4) v lenI
    by (simp add: setupSystem_def split_def)
  have find: "find (\<lambda>u. \<not> v_param (vdata m u) \<and> ?f u = ?f v) (vertices m) =
      (if \<not> v_param (vdata m v) then Some v else None)"
    using find_key_pred[OF inj', of "\<lambda>u. \<not> v_param (vdata m u)"] v by simp
  have same: "find (\<lambda>vc. ?f (m_vh vc) = ?f v) (rev vcs) = find (\<lambda>vc. m_vh vc = v) (rev vcs)"
    using facts(2,6) v by (intro find_cong) (auto dest: inj_onD)
  have init: "snd ?I ! ?f v = (case last_constraint vcs v of None \<Rightarrow> 0 | Some x \<Rightarrow> x)"
    using init_rhs[of vcs m "zero_vec n" "new_matrix n" "?f v"] facts(4,6) v same
    by (simp add: last_constraint_find split: option.splits)
  show ?thesis
  proof (cases "v_param (vdata m v)")
    case True
    with loop find init show ?thesis by (simp add: system_rhs_def)
  next
    case False
    then have "last_constraint vcs v = None"
      using facts(5)[OF v] by (simp add: last_constraint_None_iff)
    with False loop find init show ?thesis by (simp add: system_rhs_def)
  qed
qed

lemma laplacian_row_dot:
  assumes "mesh_wf m" and "inj_on (\<lambda>v. v_index (vdata m v)) (set (vertices m))"
    and "v \<in> set (vertices m)" and "\<forall>u\<in>set (vertices m). v_index (vdata m u) < n"
  shows "(\<Sum>c<n. laplacian_coef w m v c * x c) =
         (if 2 \<le> length (ring m v) then sum_list (map (w m v) (ring m v)) * x (v_index (vdata m v)) else 0) -
         sum_list (map (\<lambda>u. w m v u * x (v_index (vdata m u))) (ring m v))"
proof -
  let ?f = "\<lambda>v. v_index (vdata m v)"
  let ?R = "set (ring m v)"
  let ?g = "\<lambda>c. laplacian_coef w m v c * x c"
  have sub: "?R \<subseteq> set (vertices m)" and notin: "v \<notin> ?R" and dist: "distinct (ring m v)"
    using mesh_wf_ring[OF assms(1,3)] by auto
  have injR: "inj_on ?f ?R" using assms(2) sub by (rule inj_on_subset)
  have vout: "?f v \<notin> ?f ` ?R" using assms(2,3) sub notin by (auto dest: inj_onD)
  let ?S = "insert (?f v) (?f ` ?R)"
  have S_sub: "?S \<subseteq> {..<n}" using assms(3,4) sub by auto
  have zero: "\<forall>c\<in>{..<n} - ?S. ?g c = 0"
  proof
    fix c
    assume "c \<in> {..<n} - ?S"
    then have "c \<noteq> ?f v" and "find (\<lambda>u. ?f u = c) (ring m v) = None"
      by (auto simp: find_key_None)
    then show "?g c = 0" by (simp add: laplacian_coef_def)
  qed
  have nb: "?g (?f u) = - (w m v u * x (?f u))" if "u \<in> ?R" for u
  proof -
    have "?f u \<noteq> ?f v" using vout that by (metis image_eqI)
    with find_key_unique[OF injR that] show ?thesis by (simp add: laplacian_coef_def)
  qed
  have "(\<Sum>c<n. ?g c) = (\<Sum>c\<in>?S. ?g c)"
    using S_sub zero by (intro sum.mono_neutral_right) auto
  also have "\<dots> = ?g (?f v) + (\<Sum>c\<in>?f ` ?R. ?g c)"
    using vout by simp
  also have "(\<Sum>c\<in>?f ` ?R. ?g c) = (\<Sum>u\<in>?R. ?g (?f u))"
    by (rule sum.reindex[OF injR, unfolded comp_def])
  also have "\<dots> = (\<Sum>u\<in>?R. - (w m v u * x (?f u)))"
    using nb by (rule sum.cong[OF refl])
  also have "\<dots> = - sum_list (map (\<lambda>u. w m v u * x (?f u)) (ring m v))"
    using dist by (simp add: sum_list_distinct_conv_sum_set sum_negf)
  finally show ?thesis
    by (simp add: laplacian_coef_def)
qed

lemma laplacian_row_sum:
  assumes "mesh_wf m" and "inj_on (\<lambda>v. v_index (vdata m v)) (set (vertices m))"
    and "v \<in> set (vertices m)" and "\<forall>u\<in>set (vertices m). v_index (vdata m u) < n"
    and "2 \<le> length (ring m v)"
  shows "(\<Sum>c<n. laplacian_coef w m v c) = 0"
  using laplacian_row_dot[OF assms(1-4), of w "\<lambda>_. 1"] assms(5) by simp

lemma system_coef_row_dot:
  assumes "assembly_wf m vcs n" and "v \<in> set (vertices m)"
  shows "(\<Sum>c<n. system_coef w m v c * x c) =
         (if v_param (vdata m v) then x (v_index (vdata m v))
          else (if 2 \<le> length (ring m v) then sum_list (map (w m v) (ring m v)) * x (v_index (vdata m v)) else 0) -
               sum_list (map (\<lambda>u. w m v u * x (v_index (vdata m u))) (ring m v)))"
proof (cases "v_param (vdata m v)")
  case True
  note facts = assembly_wf_facts[OF assms(1)]
  have "(\<Sum>c<n. system_coef w m v c * x c) = (\<Sum>c<n. if c = v_index (vdata m v) then x c else 0)"
    using True by (intro sum.cong) (auto simp: system_coef_def)
  then show ?thesis using True facts(4)[OF assms(2)] by simp
next
  case False
  note facts = assembly_wf_facts[OF assms(1)]
  show ?thesis
    using False laplacian_row_dot[OF facts(1,2) assms(2), of n w x] facts(4)
    by (simp add: system_coef_def)
qed

lemma setupSystem_matrix_wf:
  assumes wf: "assembly_wf m vcs n"
  shows "matrix_wf (fst (setupSystem w m (new_matrix n) (zero_vec n) vcs cv)) \<and>
         m_rows (fst (setupSystem w m (new_matrix n) (zero_vec n) vcs cv)) = n \<and>
         length (snd (setupSystem w m (new_matrix n) (zero_vec n) vcs cv)) = n"
proof -
  note facts = assembly_wf_facts[OF wf]
  let ?I = "initialize_system_from_mesh_vc (new_matrix n) (zero_vec n) m vcs"
  have rowsI: "m_rows (fst ?I) = n" by (simp add: init_rows new_matrix_def)
  have wfI: "matrix_wf (fst ?I)"
    using facts(4,6) by (intro init_wf matrix_wf_new_matrix) (auto simp: new_matrix_def)
  have ring_in: "\<forall>v\<in>set (vertices m). v_index (vdata m v) < n \<and>
      (\<forall>u\<in>set (ring m v). v_index (vdata m u) < n)"
    using facts(4) mesh_wf_ring(3)[OF facts(1)] by blast
  have "matrix_wf (fst (setup_loop w m cv (vertices m) (fst ?I) (snd ?I)))"
    using ring_in rowsI by (intro setup_loop_wf[OF wfI]) simp
  then show ?thesis
    by (simp add: setupSystem_def split_def setup_loop_rows rowsI setup_loop_length init_length)
qed

lemma classify_assembly_wf:
  assumes "mesh_wf m" and "\<forall>vc\<in>set vcs. m_vh vc \<in> set (vertices m)"
  shows "assembly_wf (snd (classify m vcs)) vcs (fst (classify m vcs))"
proof -
  let ?m = "snd (classify m vcs)"
  have d: "distinct (vertices m)" using assms(1) by (simp add: mesh_wf_def)
  have wf: "mesh_wf ?m" using assms(1) by (simp add: mesh_wf_def)
  have "distinct (map (\<lambda>v. v_index (vdata ?m v)) (vertices ?m))"
    using d classify_index_inj[OF d, of vcs] by (simp add: distinct_map)
  moreover have "\<forall>v\<in>set (vertices ?m). v_index (vdata ?m v) < fst (classify m vcs) \<and>
      (v_param (vdata ?m v) \<longleftrightarrow> v \<in> m_vh ` set vcs)"
    using classify_vdata[OF d] by (simp add: classify_count)
  ultimately show ?thesis
    using wf assms(2) by (simp add: assembly_wf_def list_all_iff)
qed

lemma triangle_assembly_wf:
  "assembly_wf (snd (classify triangle_mesh triangle_constraints)) triangle_constraints 3"
proof -
  have mw: "mesh_wf triangle_mesh" by (simp add: mesh_wf_def triangle_mesh_def)
  have cv: "\<forall>vc\<in>set triangle_constraints. m_vh vc \<in> set (vertices triangle_mesh)"
    by (simp add: triangle_constraints_def triangle_mesh_def)
  have n: "fst (classify triangle_mesh triangle_constraints) = 3"
    by (simp add: classify_count triangle_mesh_def)
  show ?thesis using classify_assembly_wf[OF mw cv] n by simp
qed

lemma triangle_vdata:
  "vdata (snd (classify triangle_mesh triangle_constraints)) 0 = \<lparr>v_index = 0, v_s = 0, v_param = True\<rparr>"
  "vdata (snd (classify triangle_mesh triangle_constraints)) 1 = \<lparr>v_index = 1, v_s = 1, v_param = True\<rparr>"
  "vdata (snd (classify triangle_mesh triangle_constraints)) 2 = \<lparr>v_index = 2, v_s = -1, v_param = False\<rparr>"
  using classify_nth[of triangle_mesh 0 triangle_constraints]
    classify_nth[of triangle_mesh 1 triangle_constraints]
    classify_nth[of triangle_mesh 2 triangle_constraints]
  by (simp_all add: triangle_mesh_def triangle_constraints_def last_constraint_def)

lemma triangle_last_constraint:
  "last_constraint triangle_constraints 0 = Some 0"
  "last_constraint triangle_constraints 1 = Some 1"
  "last_constraint triangle_constraints 2 = None"
  by (simp_all add: triangle_constraints_def last_constraint_def)

lemma triangle_topology:
  "vertices triangle_mesh = [0, 1, 2]"
  "ring triangle_mesh 0 = [1, 2]"
  "ring triangle_mesh 1 = [2, 0]"
  "ring triangle_mesh 2 = [0, 1]"
  by (simp_all add: triangle_mesh_def)

text \<open>
  (C2) Refinement of the assembly: in the state \<open>compute\<close> assembles in, the
  general system \<open>setupSystem\<close> builds has, in the row of every vertex, exactly
  the coefficients and right-hand side of the abstract system: an identity row with
  the last constraint value for a pinned vertex, and for a free one the negated edge
  weights at the neighbours, their sum on the diagonal and the Poisson term.
\<close>

theorem setupSystem_refines:
  assumes "assembly_wf m vcs n" and "v \<in> set (vertices m)"
  shows "get_coef (fst (setupSystem w m (new_matrix n) (zero_vec n) vcs cv)) (v_index (vdata m v)) c =
           system_coef w m v c \<and>
         snd (setupSystem w m (new_matrix n) (zero_vec n) vcs cv) ! v_index (vdata m v) =
           system_rhs m vcs cv v"
  using setupSystem_coef[OF assms] setupSystem_rhs[OF assms] by simp

theorem setupSystem_refines_witness:
  "assembly_wf (snd (classify triangle_mesh triangle_constraints)) triangle_constraints 3 \<and>
   (2::nat) \<in> set (vertices (snd (classify triangle_mesh triangle_constraints))) \<and>
   get_coef (fst (setupSystem tutte_weight (snd (classify triangle_mesh triangle_constraints))
       (new_matrix 3) (zero_vec 3) triangle_constraints [])) 2 2 = 2 \<and>
   snd (setupSystem tutte_weight (snd (classify triangle_mesh triangle_constraints))
       (new_matrix 3) (zero_vec 3) triangle_constraints []) ! 2 = 0"
  using setupSystem_refines[OF triangle_assembly_wf, where v = 2 and w = tutte_weight and c = 2 and cv = "[]"]
  by (simp add: triangle_assembly_wf triangle_vdata triangle_topology system_coef_def laplacian_coef_def system_rhs_def)

text \<open>
  (C3) Row sums: in the general system, the row of every free vertex whose one-ring
  has at least two vertices sums to zero, whatever the weighting scheme.
\<close>

theorem setupSystem_row_sum_zero:
  assumes "assembly_wf m vcs n" and "v \<in> set (vertices m)"
    and "\<not> v_param (vdata m v)" and "2 \<le> length (ring m v)"
  shows "row_sum (fst (setupSystem w m (new_matrix n) (zero_vec n) vcs cv)) (v_index (vdata m v)) = 0"
proof -
  let ?A = "fst (setupSystem w m (new_matrix n) (zero_vec n) vcs cv)"
  note facts = assembly_wf_facts[OF assms(1)]
  have wf: "matrix_wf ?A" and rows: "m_rows ?A = n"
    using setupSystem_matrix_wf[OF assms(1)] by simp_all
  have "row_sum ?A (v_index (vdata m v)) = (\<Sum>c<n. get_coef ?A (v_index (vdata m v)) c)"
    using row_sum_eq_sum_cols[OF wf] rows by simp
  also have "\<dots> = (\<Sum>c<n. laplacian_coef w m v c)"
    using setupSystem_coef[OF assms(1,2)] assms(3) by (simp add: system_coef_def)
  also have "\<dots> = 0"
    using laplacian_row_sum[OF facts(1,2) assms(2) _ assms(4)] facts(4) by blast
  finally show ?thesis .
qed

theorem setupSystem_row_sum_zero_witness:
  "assembly_wf (snd (classify triangle_mesh triangle_constraints)) triangle_constraints 3 \<and>
   (2::nat) \<in> set (vertices (snd (classify triangle_mesh triangle_constraints))) \<and>
   \<not> v_param (vdata (snd (classify triangle_mesh triangle_constraints)) 2) \<and>
   2 \<le> length (ring (snd (classify triangle_mesh triangle_constraints)) 2) \<and>
   row_sum (fst (setupSystem tutte_weight (snd (classify triangle_mesh triangle_constraints))
       (new_matrix 3) (zero_vec 3) triangle_constraints [])) 2 = 0"
  using setupSystem_row_sum_zero[OF triangle_assembly_wf, where v = 2 and w = tutte_weight and cv = "[]"]
  by (simp add: triangle_assembly_wf triangle_vdata triangle_topology)

text \<open>
  (C4) Constrained rows: the row of a vertex some constraint names is the identity
  row (a 1 on the diagonal and nothing else, so it sums to 1), and its right-hand
  side is the value of the last constraint that names it.
\<close>

theorem setupSystem_pinned_row:
  assumes "assembly_wf m vcs n" and "v \<in> set (vertices m)" and "last_constraint vcs v = Some x"
  shows "(\<forall>c. get_coef (fst (setupSystem w m (new_matrix n) (zero_vec n) vcs cv)) (v_index (vdata m v)) c =
              (if c = v_index (vdata m v) then 1 else 0)) \<and>
         row_sum (fst (setupSystem w m (new_matrix n) (zero_vec n) vcs cv)) (v_index (vdata m v)) = 1 \<and>
         snd (setupSystem w m (new_matrix n) (zero_vec n) vcs cv) ! v_index (vdata m v) = x"
proof -
  let ?A = "fst (setupSystem w m (new_matrix n) (zero_vec n) vcs cv)"
  note facts = assembly_wf_facts[OF assms(1)]
  have par: "v_param (vdata m v)"
    using facts(5)[OF assms(2)] assms(3) last_constraint_None_iff[of vcs v] by auto
  have coef: "\<forall>c. get_coef ?A (v_index (vdata m v)) c = (if c = v_index (vdata m v) then 1 else 0)"
    using setupSystem_coef[OF assms(1,2)] par by (simp add: system_coef_def)
  have wf: "matrix_wf ?A" and rows: "m_rows ?A = n"
    using setupSystem_matrix_wf[OF assms(1)] by simp_all
  have "row_sum ?A (v_index (vdata m v)) = (\<Sum>c<n. if c = v_index (vdata m v) then 1 else 0)"
    using row_sum_eq_sum_cols[OF wf] rows coef by simp
  also have "\<dots> = 1" using facts(4)[OF assms(2)] by simp
  finally show ?thesis
    using coef setupSystem_rhs[OF assms(1,2)] par assms(3) by (simp add: system_rhs_def)
qed

theorem setupSystem_pinned_row_witness:
  "assembly_wf (snd (classify triangle_mesh triangle_constraints)) triangle_constraints 3 \<and>
   (0::nat) \<in> set (vertices (snd (classify triangle_mesh triangle_constraints))) \<and>
   last_constraint triangle_constraints 0 = Some 0 \<and>
   row_sum (fst (setupSystem tutte_weight (snd (classify triangle_mesh triangle_constraints))
       (new_matrix 3) (zero_vec 3) triangle_constraints [])) 0 = 1 \<and>
   snd (setupSystem tutte_weight (snd (classify triangle_mesh triangle_constraints))
       (new_matrix 3) (zero_vec 3) triangle_constraints []) ! 0 = 0"
  using setupSystem_pinned_row[OF triangle_assembly_wf, where v = 0 and x = 0 and w = tutte_weight and cv = "[]"]
  by (simp add: triangle_assembly_wf triangle_vdata triangle_topology triangle_last_constraint)

text \<open>
  (C29) Sparsity: in the general system, the row of a vertex has non-zero
  coefficients only on its diagonal and at the columns of its one-ring neighbours,
  and the row of a constrained vertex only on its diagonal.
\<close>

theorem setupSystem_row_support:
  assumes "assembly_wf m vcs n" and "v \<in> set (vertices m)"
    and "get_coef (fst (setupSystem w m (new_matrix n) (zero_vec n) vcs cv)) (v_index (vdata m v)) c \<noteq> 0"
  shows "c = v_index (vdata m v) \<or>
         (\<not> v_param (vdata m v) \<and> c \<in> (\<lambda>u. v_index (vdata m u)) ` set (ring m v))"
proof -
  have ne: "system_coef w m v c \<noteq> 0" using assms(3) setupSystem_coef[OF assms(1,2)] by simp
  show ?thesis
  proof (cases "c = v_index (vdata m v)")
    case False
    with ne have free: "\<not> v_param (vdata m v)"
      and lc: "laplacian_coef w m v c \<noteq> 0"
      by (auto simp: system_coef_def split: if_splits)
    from lc False obtain u where "find (\<lambda>u. v_index (vdata m u) = c) (ring m v) = Some u"
      by (auto simp: laplacian_coef_def split: option.splits)
    with free show ?thesis by (auto dest: find_key_Some)
  qed simp
qed

theorem setupSystem_row_support_witness:
  "assembly_wf (snd (classify triangle_mesh triangle_constraints)) triangle_constraints 3 \<and>
   (2::nat) \<in> set (vertices (snd (classify triangle_mesh triangle_constraints))) \<and>
   get_coef (fst (setupSystem tutte_weight (snd (classify triangle_mesh triangle_constraints))
       (new_matrix 3) (zero_vec 3) triangle_constraints [])) 2 0 \<noteq> 0 \<and>
   (0::nat) \<in> (\<lambda>u. v_index (vdata (snd (classify triangle_mesh triangle_constraints)) u)) `
      set (ring (snd (classify triangle_mesh triangle_constraints)) 2)"
proof -
  have c: "get_coef (fst (setupSystem tutte_weight (snd (classify triangle_mesh triangle_constraints))
       (new_matrix 3) (zero_vec 3) triangle_constraints [])) 2 0 = -1"
    using setupSystem_coef[OF triangle_assembly_wf, of 2 tutte_weight "[]" 0]
    by (simp add: triangle_vdata triangle_topology system_coef_def laplacian_coef_def)
  show ?thesis
    using setupSystem_row_support[OF triangle_assembly_wf, of 2 tutte_weight "[]" 0] c
    by (simp add: triangle_assembly_wf triangle_vdata triangle_topology)
qed

subsection \<open>The symmetric overload and driver\<close>

lemma get_coef_sym_eq: "get_coef_sym SA r c = get_coef (sym_to_matrix SA) r c"
  by (simp add: get_coef_sym_def get_coef_def sym_to_matrix_def)

lemma sym_to_matrix_set_coef_sym [simp]:
  "sym_to_matrix (set_coef_sym SA i j v) = set_coef (sym_to_matrix SA) i j v"
  by (simp add: sym_to_matrix_def set_coef_sym_def set_coef_def)

lemma ring_loop_sym_eq:
  "fst (ring_loop_sym w m vh i vjs a cnt SA) = fst (ring_loop w m vh i vjs a cnt (sym_to_matrix SA)) \<and>
   fst (snd (ring_loop_sym w m vh i vjs a cnt SA)) = fst (snd (ring_loop w m vh i vjs a cnt (sym_to_matrix SA))) \<and>
   sym_to_matrix (snd (snd (ring_loop_sym w m vh i vjs a cnt SA))) =
     snd (snd (ring_loop w m vh i vjs a cnt (sym_to_matrix SA)))"
  by (induction vjs arbitrary: a cnt SA) (simp_all add: Let_def)

lemma setup_inner_sym_eq:
  "fst (setup_inner_vertex_relations_sym w SA Bu m v cv) =
     fst (setup_inner_vertex_relations w (sym_to_matrix SA) Bu m v cv) \<and>
   sym_to_matrix (fst (snd (setup_inner_vertex_relations_sym w SA Bu m v cv))) =
     fst (snd (setup_inner_vertex_relations w (sym_to_matrix SA) Bu m v cv)) \<and>
   snd (snd (setup_inner_vertex_relations_sym w SA Bu m v cv)) =
     snd (snd (setup_inner_vertex_relations w (sym_to_matrix SA) Bu m v cv))"
  using ring_loop_sym_eq[of w m v "v_index (vdata m v)" "ring m v" 0 0 SA]
  by (simp add: setup_inner_vertex_relations_sym_def setup_inner_vertex_relations_def Let_def split_def)

lemma setup_sym_loop_coef:
  assumes "distinct (map (\<lambda>v. v_index (vdata m v)) vs)"
  shows "get_coef_sym (fst (setup_sym_loop w m cv vs SA Bu)) r c =
     (case find (\<lambda>v. v_index (vdata m v) = r) vs of
        None \<Rightarrow> get_coef_sym SA r c
      | Some v \<Rightarrow> inner_row w m v (get_coef_sym SA r c) c)"
  using assms
proof (induction vs arbitrary: SA Bu)
  case Nil
  then show ?case by simp
next
  case (Cons v vs)
  let ?S = "setup_inner_vertex_relations_sym w SA Bu m v cv"
  let ?P = "\<lambda>u. v_index (vdata m u) = r"
  have row: "get_coef_sym (fst (snd ?S)) r c =
      (if r = v_index (vdata m v) then inner_row w m v (get_coef_sym SA r c) c else get_coef_sym SA r c)"
    using setup_inner_sym_eq[of w SA Bu m v cv] by (simp add: get_coef_sym_eq setup_inner_coef)
  from Cons have IH: "get_coef_sym (fst (setup_sym_loop w m cv vs (fst (snd ?S)) (snd (snd ?S)))) r c =
      (case find ?P vs of None \<Rightarrow> get_coef_sym (fst (snd ?S)) r c
       | Some u \<Rightarrow> inner_row w m u (get_coef_sym (fst (snd ?S)) r c) c)"
    by simp
  show ?case
  proof (cases "v_index (vdata m v) = r")
    case True
    with Cons.prems have "\<forall>u\<in>set vs. v_index (vdata m u) \<noteq> r" by (auto simp: image_iff)
    then have "find ?P vs = None" by (auto simp: find_None_iff)
    with IH True row show ?thesis by (simp add: split_def)
  next
    case False
    then have "get_coef_sym (fst (snd ?S)) r c = get_coef_sym SA r c" using row by simp
    with IH have "get_coef_sym (fst (setup_sym_loop w m cv vs (fst (snd ?S)) (snd (snd ?S)))) r c =
        (case find ?P vs of None \<Rightarrow> get_coef_sym SA r c | Some u \<Rightarrow> inner_row w m u (get_coef_sym SA r c) c)"
      by (simp split: option.split)
    with False show ?thesis by (simp add: split_def)
  qed
qed

lemma setup_sym_loop_rhs:
  assumes "distinct (map (\<lambda>v. v_index (vdata m v)) vs)"
    and "\<forall>v\<in>set vs. v_index (vdata m v) < length Bu" and "r < length Bu"
  shows "snd (setup_sym_loop w m cv vs SA Bu) ! r =
     (case find (\<lambda>v. v_index (vdata m v) = r) vs of
        None \<Rightarrow> Bu ! r
      | Some v \<Rightarrow> (if 2 \<le> length (ring m v) \<and> cv \<noteq> [] then \<bar>cv ! r\<bar> else Bu ! r))"
  using assms
proof (induction vs arbitrary: SA Bu)
  case Nil
  then show ?case by simp
next
  case (Cons v vs)
  let ?S = "setup_inner_vertex_relations_sym w SA Bu m v cv"
  let ?P = "\<lambda>u. v_index (vdata m u) = r"
  have B: "snd (snd ?S) =
      (if 2 \<le> length (ring m v) \<and> cv \<noteq> [] then Bu[v_index (vdata m v) := \<bar>cv ! v_index (vdata m v)\<bar>] else Bu)"
    using setup_inner_sym_eq[of w SA Bu m v cv] by (simp add: setup_inner_rhs)
  have len: "length (snd (snd ?S)) = length Bu" using B by simp
  from Cons len have IH: "snd (setup_sym_loop w m cv vs (fst (snd ?S)) (snd (snd ?S))) ! r =
      (case find ?P vs of None \<Rightarrow> snd (snd ?S) ! r
       | Some u \<Rightarrow> (if 2 \<le> length (ring m u) \<and> cv \<noteq> [] then \<bar>cv ! r\<bar> else snd (snd ?S) ! r))"
    by simp
  show ?case
  proof (cases "v_index (vdata m v) = r")
    case True
    with Cons.prems have "\<forall>u\<in>set vs. v_index (vdata m u) \<noteq> r" by (auto simp: image_iff)
    then have "find ?P vs = None" by (auto simp: find_None_iff)
    with IH True B Cons.prems show ?thesis by (simp add: split_def)
  next
    case False
    then have "snd (snd ?S) ! r = Bu ! r" using B by simp
    with IH have "snd (setup_sym_loop w m cv vs (fst (snd ?S)) (snd (snd ?S))) ! r =
        (case find ?P vs of None \<Rightarrow> Bu ! r
         | Some u \<Rightarrow> (if 2 \<le> length (ring m u) \<and> cv \<noteq> [] then \<bar>cv ! r\<bar> else Bu ! r))"
      by (simp split: option.split)
    with False show ?thesis by (simp add: split_def)
  qed
qed

lemma setup_sym_loop_length: "length (snd (setup_sym_loop w m cv vs SA Bu)) = length Bu"
proof (induction vs arbitrary: SA Bu)
  case Nil
  then show ?case by simp
next
  case (Cons v vs)
  then show ?case
    using setup_inner_sym_eq[of w SA Bu m v cv] by (simp add: split_def setup_inner_rhs)
qed

lemma setupSymmetricSystem_coef:
  assumes wf: "assembly_wf m vcs n" and v: "v \<in> set (vertices m)"
  shows "get_coef_sym (fst (setupSymmetricSystem w m (new_sym_matrix n) (zero_vec n) vcs cv)) (v_index (vdata m v)) c =
         laplacian_coef w m v c"
proof -
  note facts = assembly_wf_facts[OF wf]
  have "find (\<lambda>u. v_index (vdata m u) = v_index (vdata m v)) (vertices m) = Some v"
    by (rule find_key_unique[OF facts(2) v])
  then show ?thesis
    using setup_sym_loop_coef[OF facts(3), of w cv "new_sym_matrix n" "zero_vec n" "v_index (vdata m v)" c]
      inner_row_laplacian[OF facts(1,2) v]
    by (simp add: setupSymmetricSystem_def get_coef_sym_def new_sym_matrix_def)
qed

lemma setupSymmetricSystem_rhs:
  assumes wf: "assembly_wf m vcs n" and v: "v \<in> set (vertices m)"
  shows "snd (setupSymmetricSystem w m (new_sym_matrix n) (zero_vec n) vcs cv) ! v_index (vdata m v) =
         (if 2 \<le> length (ring m v) \<and> cv \<noteq> [] then \<bar>cv ! v_index (vdata m v)\<bar> else 0)"
proof -
  note facts = assembly_wf_facts[OF wf]
  have "find (\<lambda>u. v_index (vdata m u) = v_index (vdata m v)) (vertices m) = Some v"
    by (rule find_key_unique[OF facts(2) v])
  then show ?thesis
    using setup_sym_loop_rhs[OF facts(3), of "zero_vec n" "v_index (vdata m v)" w cv "new_sym_matrix n"]
      facts(4) v
    by (simp add: setupSymmetricSystem_def)
qed

lemma laplacian_offdiag:
  assumes "mesh_wf m" and "inj_on (\<lambda>v. v_index (vdata m v)) (set (vertices m))"
    and "u \<in> set (vertices m)" and "v \<in> set (vertices m)" and "u \<noteq> v"
  shows "laplacian_coef w m u (v_index (vdata m v)) = (if v \<in> set (ring m u) then - w m u v else 0)"
proof -
  have sub: "set (ring m u) \<subseteq> set (vertices m)" using mesh_wf_ring[OF assms(1,3)] by simp
  have ne: "v_index (vdata m v) \<noteq> v_index (vdata m u)"
    using assms(2-5) by (auto dest: inj_onD)
  have "insert v (set (ring m u)) \<subseteq> set (vertices m)" using assms(4) sub by simp
  with assms(2) have "inj_on (\<lambda>v. v_index (vdata m v)) (insert v (set (ring m u)))"
    by (rule inj_on_subset)
  from find_key_pred[OF this, of "\<lambda>x. True"] ne show ?thesis
    by (simp add: laplacian_coef_def)
qed

text \<open>
  (C17) The symmetric system ignores the constraints: \<open>setupSymmetricSystem\<close>
  visits every vertex, pinned ones included, and never writes identity rows or
  constraint values, so every row of \<open>SA\<close> is a Laplacian row and every entry of
  \<open>Bv\<close> is 0 or a Poisson term.
\<close>

theorem setupSymmetricSystem_rows:
  assumes "assembly_wf m vcs n" and "v \<in> set (vertices m)"
  shows "get_coef_sym (fst (setupSymmetricSystem w m (new_sym_matrix n) (zero_vec n) vcs cv))
            (v_index (vdata m v)) c = laplacian_coef w m v c \<and>
         snd (setupSymmetricSystem w m (new_sym_matrix n) (zero_vec n) vcs cv) ! v_index (vdata m v) =
            (if 2 \<le> length (ring m v) \<and> cv \<noteq> [] then \<bar>cv ! v_index (vdata m v)\<bar> else 0)"
  using setupSymmetricSystem_coef[OF assms] setupSymmetricSystem_rhs[OF assms] by simp

theorem setupSymmetricSystem_rows_witness:
  "assembly_wf (snd (classify triangle_mesh triangle_constraints)) triangle_constraints 3 \<and>
   (0::nat) \<in> set (vertices (snd (classify triangle_mesh triangle_constraints))) \<and>
   v_param (vdata (snd (classify triangle_mesh triangle_constraints)) 0) \<and>
   get_coef_sym (fst (setupSymmetricSystem tutte_weight (snd (classify triangle_mesh triangle_constraints))
       (new_sym_matrix 3) (zero_vec 3) triangle_constraints [])) 0 0 = 2"
  using setupSymmetricSystem_rows[OF triangle_assembly_wf, where v = 0 and w = tutte_weight and c = 0 and cv = "[]"]
  by (simp add: triangle_assembly_wf triangle_vdata triangle_topology laplacian_coef_def)

text \<open>
  (C18) The symmetric system is symmetric when the weighting scheme is: if the
  one-rings are mutual and the weight of every edge is the same in both directions,
  the coefficient at (i, j) of \<open>SA\<close> equals the one at (j, i) for all vertex indices.
\<close>

theorem setupSymmetricSystem_symmetric:
  assumes "assembly_wf m vcs n" and "ring_symmetric m" and "weight_symmetric w m"
    and "u \<in> set (vertices m)" and "v \<in> set (vertices m)"
  shows "get_coef_sym (fst (setupSymmetricSystem w m (new_sym_matrix n) (zero_vec n) vcs cv))
            (v_index (vdata m u)) (v_index (vdata m v)) =
         get_coef_sym (fst (setupSymmetricSystem w m (new_sym_matrix n) (zero_vec n) vcs cv))
            (v_index (vdata m v)) (v_index (vdata m u))"
proof (cases "u = v")
  case True
  then show ?thesis by simp
next
  case False
  note facts = assembly_wf_facts[OF assms(1)]
  have mut: "v \<in> set (ring m u) \<longleftrightarrow> u \<in> set (ring m v)"
    using assms(2,4,5) by (auto simp: ring_symmetric_def list_all_iff)
  have sym: "v \<in> set (ring m u) \<Longrightarrow> w m u v = w m v u"
    using assms(3,4) by (auto simp: weight_symmetric_def)
  show ?thesis
    using setupSymmetricSystem_coef[OF assms(1,4)] setupSymmetricSystem_coef[OF assms(1,5)]
      laplacian_offdiag[OF facts(1,2) assms(4,5) False] laplacian_offdiag[OF facts(1,2) assms(5,4)] False mut sym
    by auto
qed

theorem setupSymmetricSystem_symmetric_witness:
  "assembly_wf (snd (classify triangle_mesh triangle_constraints)) triangle_constraints 3 \<and>
   ring_symmetric (snd (classify triangle_mesh triangle_constraints)) \<and>
   weight_symmetric tutte_weight (snd (classify triangle_mesh triangle_constraints)) \<and>
   (0::nat) \<in> set (vertices (snd (classify triangle_mesh triangle_constraints))) \<and>
   (2::nat) \<in> set (vertices (snd (classify triangle_mesh triangle_constraints))) \<and>
   get_coef_sym (fst (setupSymmetricSystem tutte_weight (snd (classify triangle_mesh triangle_constraints))
       (new_sym_matrix 3) (zero_vec 3) triangle_constraints [])) 0 2 =
   get_coef_sym (fst (setupSymmetricSystem tutte_weight (snd (classify triangle_mesh triangle_constraints))
       (new_sym_matrix 3) (zero_vec 3) triangle_constraints [])) 2 0"
proof -
  have rs: "ring_symmetric (snd (classify triangle_mesh triangle_constraints))"
    by (simp add: ring_symmetric_def triangle_mesh_def)
  have ws: "weight_symmetric tutte_weight (snd (classify triangle_mesh triangle_constraints))"
    by (simp add: weight_symmetric_def)
  show ?thesis
    using setupSymmetricSystem_symmetric[OF triangle_assembly_wf rs ws, where u = 0 and v = 2 and cv = "[]"]
      triangle_assembly_wf rs ws
    by (simp add: triangle_vdata triangle_topology)
qed

subsection \<open>Uniform weights\<close>

lemma sum_list_tutte: "sum_list (map (tutte_weight m v) xs) = real (length xs)"
  by (induction xs) simp_all

lemma calc_weight_Calculator_tutte:
  "k \<notin> {0, 1, 3, 4} \<Longrightarrow> calc_weight wi (Calculator k) = tutte_weight"
  by (simp add: calc_weight_def Calculator_def)

text \<open>
  (C19) Uniform parameterization: for every code outside 0, 1, 3, 4 (the value 2
  among them) the constructor selects the Tutte option, whatever the other options
  compute; then the row of a free vertex with at least two neighbours has its degree
  on the diagonal and -1 at every neighbour.
\<close>

theorem setupSystem_tutte_rows:
  assumes "k \<notin> {0, 1, 3, 4}" and "assembly_wf m vcs n" and "v \<in> set (vertices m)"
    and "\<not> v_param (vdata m v)" and "2 \<le> length (ring m v)" and "u \<in> set (ring m v)"
  shows "get_coef (fst (setupSystem (calc_weight wi (Calculator k)) m (new_matrix n) (zero_vec n) vcs cv))
            (v_index (vdata m v)) (v_index (vdata m v)) = real (length (ring m v)) \<and>
         get_coef (fst (setupSystem (calc_weight wi (Calculator k)) m (new_matrix n) (zero_vec n) vcs cv))
            (v_index (vdata m v)) (v_index (vdata m u)) = -1"
proof -
  note facts = assembly_wf_facts[OF assms(2)]
  have sub: "set (ring m v) \<subseteq> set (vertices m)" and notin: "v \<notin> set (ring m v)"
    using mesh_wf_ring[OF facts(1) assms(3)] by auto
  have uv: "u \<in> set (vertices m)" "u \<noteq> v" using assms(6) sub notin by auto
  have off: "laplacian_coef tutte_weight m v (v_index (vdata m u)) = -1"
    using laplacian_offdiag[OF facts(1,2) assms(3) uv(1) uv(2)[symmetric]] assms(6) by simp
  show ?thesis
    using setupSystem_coef[OF assms(2,3)] calc_weight_Calculator_tutte[OF assms(1)] assms(4,5) off
    by (simp add: system_coef_def laplacian_coef_def sum_list_tutte)
qed

theorem setupSystem_tutte_rows_witness:
  "(2::int) \<notin> {0, 1, 3, 4} \<and>
   assembly_wf (snd (classify triangle_mesh triangle_constraints)) triangle_constraints 3 \<and>
   (2::nat) \<in> set (vertices (snd (classify triangle_mesh triangle_constraints))) \<and>
   \<not> v_param (vdata (snd (classify triangle_mesh triangle_constraints)) 2) \<and>
   2 \<le> length (ring (snd (classify triangle_mesh triangle_constraints)) 2) \<and>
   (0::nat) \<in> set (ring (snd (classify triangle_mesh triangle_constraints)) 2) \<and>
   get_coef (fst (setupSystem (calc_weight uniform_impl (Calculator 2)) (snd (classify triangle_mesh triangle_constraints))
       (new_matrix 3) (zero_vec 3) triangle_constraints [])) 2 0 = -1"
  using setupSystem_tutte_rows[OF _ triangle_assembly_wf, where k = 2 and v = 2 and u = 0
      and wi = uniform_impl and cv = "[]"]
  by (simp add: triangle_assembly_wf triangle_vdata triangle_topology)

end
