(* ===== verification/Solver.thy ===== *)
theory Solver
  imports Assembly
begin

text \<open>
  The four solve routines of \<open>Calculator.cpp\<close>: \<open>lu_symbolic_factor_solve\<close>
  (ordering, symbolic and numeric LU, multifrontal solve; not called by
  \<open>compute\<close>), \<open>lu_symbolic_factor_solve1\<close> (one \<open>taucs_linsolve\<close> call),
  \<open>ooc_lu_factor_solve\<close> (the \<open>Solver::linear_solver\<close> wrapper) and
  \<open>ll_symbolic_factor_solve\<close> (symbolic and numeric Cholesky, supernodal solve).
  The TAUCS library is outside the repository: its numerical results are an
  interface (\<open>taucs\<close>, a record of functions every lemma is stated over), and the
  model keeps the library's effects the routines are responsible for in an explicit
  solver context: the factor and permutation handles they obtain and still hold, and
  the sequence of library calls they make. The build flag \<open>USE_OPENNL\<close> is the
  boolean \<open>use_opennl\<close>; what the routines write to the logger and to standard
  output is modelled in \<open>Logging\<close>.
\<close>

datatype handle_kind =
  Permutation | LuSymbolic | LuNumeric | LinsolveFactor | LltSymbolic | LltNumeric

record solver_ctx =
  next_handle :: nat
  live :: "(nat \<times> handle_kind) list"
  calls :: "string list"

record taucs =
  linsolve :: "matrix \<Rightarrow> vec \<Rightarrow> int \<times> vec"
  lu_numeric_ok :: "matrix \<Rightarrow> bool"
  multilu_solve :: "matrix \<Rightarrow> vec \<Rightarrow> int \<times> vec"
  ooc_solve :: "matrix \<Rightarrow> vec \<Rightarrow> bool \<times> vec \<times> real"
  llt_numeric :: "sym_matrix \<Rightarrow> int"
  llt_solve :: "sym_matrix \<Rightarrow> vec \<Rightarrow> int \<times> vec"

definition TAUCS_SUCCESS :: int where "TAUCS_SUCCESS = 0"
definition TAUCS_ERROR :: int where "TAUCS_ERROR = -1"
definition TAUCS_ERROR_NOMEM :: int where "TAUCS_ERROR_NOMEM = -2"
definition TAUCS_ERROR_BADARGS :: int where "TAUCS_ERROR_BADARGS = -3"
definition TAUCS_ERROR_INDEFINITE :: int where "TAUCS_ERROR_INDEFINITE = -4"
definition TAUCS_ERROR_MAXDEPTH :: int where "TAUCS_ERROR_MAXDEPTH = -5"

text \<open>
  The contract of a direct solve the engine relies on: a reported success returns a
  solution of the system. \<open>checking_taucs X0\<close> is a library that meets every
  contract by construction: it answers every request with the candidate \<open>X0\<close>
  when that solves the system and fails otherwise; it is the instance the witnesses
  run the routines on.
\<close>

definition linsolve_sound :: "taucs \<Rightarrow> bool" where
  "linsolve_sound t \<longleftrightarrow>
     (\<forall>A B. fst (linsolve t A B) = 0 \<longrightarrow> mat_vec A (snd (linsolve t A B)) = B)"

definition checking_taucs :: "vec \<Rightarrow> taucs" where
  "checking_taucs X0 =
     \<lparr>linsolve = (\<lambda>A B. if mat_vec A X0 = B then (0, X0) else (-1, B)),
      lu_numeric_ok = (\<lambda>A. True),
      multilu_solve = (\<lambda>A B. if mat_vec A X0 = B then (0, X0) else (-1, B)),
      ooc_solve = (\<lambda>A B. (mat_vec A X0 = B, X0, 1)),
      llt_numeric = (\<lambda>SA. 0),
      llt_solve = (\<lambda>SA B. (0, X0))\<rparr>"

definition empty_ctx :: solver_ctx where
  "empty_ctx = \<lparr>next_handle = 0, live = [], calls = []\<rparr>"

subsection \<open>The solver context\<close>

definition ext_call :: "string \<Rightarrow> solver_ctx \<Rightarrow> solver_ctx" where
  "ext_call f ctx = ctx\<lparr>calls := calls ctx @ [f]\<rparr>"

definition alloc :: "handle_kind \<Rightarrow> solver_ctx \<Rightarrow> nat \<times> solver_ctx" where
  "alloc k ctx = (next_handle ctx,
     ctx\<lparr>next_handle := Suc (next_handle ctx), live := live ctx @ [(next_handle ctx, k)]\<rparr>)"

definition release :: "nat \<Rightarrow> solver_ctx \<Rightarrow> solver_ctx" where
  "release h ctx = ctx\<lparr>live := filter (\<lambda>e. fst e \<noteq> h) (live ctx)\<rparr>"

definition holds :: "solver_ctx \<Rightarrow> nat \<Rightarrow> bool" where
  "holds ctx h \<longleftrightarrow> h \<in> fst ` set (live ctx)"

definition ctx_wf :: "solver_ctx \<Rightarrow> bool" where
  "ctx_wf ctx \<longleftrightarrow> list_all (\<lambda>e. fst e < next_handle ctx) (live ctx)"

subsection \<open>\<open>lu_symbolic_factor_solve\<close>\<close>

definition lu_symbolic_factor_solve ::
  "bool \<Rightarrow> taucs \<Rightarrow> matrix \<Rightarrow> matrix \<Rightarrow> vec \<Rightarrow> vec \<Rightarrow> solver_ctx \<Rightarrow> int \<times> vec \<times> solver_ctx" where
  "lu_symbolic_factor_solve use_opennl t A MA B X ctx =
     (if use_opennl then (0, X, ctx)
      else
        (let (rowperm, ctx1) = alloc Permutation (ext_call ''taucs_ccs_order'' ctx);
             (colperm, ctx2) = alloc Permutation ctx1;
             (LS, ctx3) = alloc LuSymbolic (ext_call ''taucs_ccs_factor_lu_symbolic'' ctx2);
             ctx4 = ext_call ''taucs_ccs_factor_lu_numeric'' ctx3
         in if \<not> lu_numeric_ok t MA then (-1, X, ctx4)
            else
              (let (LV, ctx5) = alloc LuNumeric ctx4;
                   (status, X') = multilu_solve t MA B;
                   ctx6 = ext_call ''taucs_multilu_solve'' ctx5;
                   ctx7 = release LS (ext_call ''taucs_multilu_symbolic_free'' ctx6);
                   ctx8 = release LV (ext_call ''taucs_multilu_factor_free'' ctx7)
               in (status, X', ctx8))))"

subsection \<open>\<open>lu_symbolic_factor_solve1\<close>\<close>

definition lu_symbolic_factor_solve1 ::
  "bool \<Rightarrow> taucs \<Rightarrow> matrix \<Rightarrow> matrix \<Rightarrow> vec \<Rightarrow> vec \<Rightarrow> solver_ctx \<Rightarrow> int \<times> vec \<times> solver_ctx" where
  "lu_symbolic_factor_solve1 use_opennl t A MA B X ctx =
     (if use_opennl then (0, X, ctx)
      else
        (let (i, X') = linsolve t A B;
             ctx1 = ext_call ''taucs_linsolve'' ctx;
             ctx2 = (if i = TAUCS_SUCCESS then snd (alloc LinsolveFactor ctx1) else ctx1);
             status = (if i \<noteq> TAUCS_SUCCESS then -1 else 0)
         in (status, X', ctx2)))"

subsection \<open>\<open>ooc_lu_factor_solve\<close>\<close>

definition ooc_lu_factor_solve ::
  "taucs \<Rightarrow> matrix \<Rightarrow> vec \<Rightarrow> vec \<Rightarrow> solver_ctx \<Rightarrow> int \<times> vec \<times> solver_ctx" where
  "ooc_lu_factor_solve t A B X ctx =
     (case ooc_solve t A B of
        (ok, X', D) \<Rightarrow> (if \<not> ok then -1 else 0, X', ext_call ''Solver::linear_solver'' ctx))"

subsection \<open>\<open>ll_symbolic_factor_solve\<close>\<close>

definition ll_symbolic_factor_solve ::
  "bool \<Rightarrow> taucs \<Rightarrow> sym_matrix \<Rightarrow> sym_matrix \<Rightarrow> vec \<Rightarrow> vec \<Rightarrow> solver_ctx \<Rightarrow> int \<times> vec \<times> solver_ctx" where
  "ll_symbolic_factor_solve use_opennl t SA SMA B X ctx =
     (if use_opennl then (0, X, ctx)
      else
        (let (L, ctx1) = alloc LltSymbolic (ext_call ''taucs_ccs_factor_llt_symbolic'' ctx);
             i = llt_numeric t SMA;
             ctx2 = ext_call ''taucs_ccs_factor_llt_numeric'' ctx1
         in if i \<noteq> 0
            then (-1, X, ext_call ''taucs_supernodal_factor_free_numeric'' ctx2)
            else
              (let (LN, ctx3) = alloc LltNumeric ctx2;
                   (status, X') = llt_solve t SMA B;
                   ctx4 = ext_call ''taucs_supernodal_solve_llt'' ctx3;
                   ctx5 = release LN (ext_call ''taucs_supernodal_factor_free_numeric'' ctx4)
               in (status, X', ctx5))))"

subsection \<open>Facts about the context\<close>

lemma ctx_wf_filter:
  assumes "ctx_wf ctx" and "\<And>h. h < next_handle ctx \<Longrightarrow> P h"
  shows "filter (\<lambda>e. P (fst e)) (live ctx) = live ctx"
  using assms by (auto simp: ctx_wf_def list_all_iff intro!: filter_True)

lemmas ctx_ops = ext_call_def alloc_def release_def

lemma ctx_wf_empty [simp]: "ctx_wf empty_ctx"
  by (simp add: ctx_wf_def empty_ctx_def)

lemma live_ext_call [simp]: "live (ext_call f ctx) = live ctx"
  by (simp add: ext_call_def)

lemma checking_taucs_linsolve_sound: "linsolve_sound (checking_taucs X0)"
  by (simp add: linsolve_sound_def checking_taucs_def)

subsection \<open>Status and results\<close>

lemma lu_symbolic_factor_solve_status:
  "fst (lu_symbolic_factor_solve False t A MA B X ctx) =
     (if lu_numeric_ok t MA then fst (multilu_solve t MA B) else -1)"
  by (simp add: lu_symbolic_factor_solve_def Let_def split_def)

lemma lu_symbolic_factor_solve1_result:
  "lu_symbolic_factor_solve1 False t A MA B X ctx =
     (if fst (linsolve t A B) = TAUCS_SUCCESS then 0 else -1, snd (linsolve t A B),
      if fst (linsolve t A B) = TAUCS_SUCCESS
      then snd (alloc LinsolveFactor (ext_call ''taucs_linsolve'' ctx))
      else ext_call ''taucs_linsolve'' ctx)"
  by (simp add: lu_symbolic_factor_solve1_def Let_def split_def)

lemma ll_symbolic_factor_solve_status:
  "fst (ll_symbolic_factor_solve False t SA SMA B X ctx) =
     (if llt_numeric t SMA \<noteq> 0 then -1 else fst (llt_solve t SMA B))"
  by (simp add: ll_symbolic_factor_solve_def Let_def split_def)

lemma ooc_lu_factor_solve_result:
  "ooc_lu_factor_solve t A B X ctx =
     (if fst (ooc_solve t A B) then 0 else -1, fst (snd (ooc_solve t A B)),
      ext_call ''Solver::linear_solver'' ctx)"
  by (simp add: ooc_lu_factor_solve_def split_def)

lemma opennl_routines:
  "lu_symbolic_factor_solve True t A MA B X ctx = (0, X, ctx)"
  "lu_symbolic_factor_solve1 True t A MA B X ctx = (0, X, ctx)"
  "ll_symbolic_factor_solve True t SA SMA B X ctx = (0, X, ctx)"
  by (simp_all add: lu_symbolic_factor_solve_def lu_symbolic_factor_solve1_def
      ll_symbolic_factor_solve_def)

subsection \<open>Handles the routines leave behind\<close>

text \<open>
  (C6) Resources of \<open>lu_symbolic_factor_solve\<close>: the two permutation arrays of
  \<open>taucs_ccs_order\<close> are never freed, the symbolic and numeric LU factors are freed
  when the numeric factorization succeeds, and when it fails (\<open>LV\<close> is NULL) the
  symbolic factor \<open>LS\<close> is still held on return.
\<close>

theorem lu_symbolic_factor_solve_live:
  assumes "ctx_wf ctx"
  shows "live (snd (snd (lu_symbolic_factor_solve False t A MA B X ctx))) =
           live ctx @ [(next_handle ctx, Permutation), (Suc (next_handle ctx), Permutation)] @
           (if lu_numeric_ok t MA then [] else [(Suc (Suc (next_handle ctx)), LuSymbolic)])"
proof -
  have "filter (\<lambda>e. fst e \<noteq> Suc (Suc (next_handle ctx)) \<and> fst e \<noteq> Suc (Suc (Suc (next_handle ctx))))
          (live ctx) = live ctx"
    by (rule ctx_wf_filter[OF assms,
          where P = "\<lambda>h. h \<noteq> Suc (Suc (next_handle ctx)) \<and> h \<noteq> Suc (Suc (Suc (next_handle ctx)))"]) simp
  then show ?thesis
    by (simp add: lu_symbolic_factor_solve_def Let_def split_def ctx_ops)
qed

theorem lu_symbolic_factor_solve_live_witness:
  "ctx_wf empty_ctx \<and>
   live (snd (snd (lu_symbolic_factor_solve False ((checking_taucs []) \<lparr>lu_numeric_ok := (\<lambda>A. False)\<rparr>)
      (new_matrix 0) (new_matrix 0) [] [] empty_ctx))) =
   [(0, Permutation), (1, Permutation), (2, LuSymbolic)]"
  using lu_symbolic_factor_solve_live[OF ctx_wf_empty,
      where t = "(checking_taucs []) \<lparr>lu_numeric_ok := (\<lambda>A. False)\<rparr>"
        and A = "new_matrix 0" and MA = "new_matrix 0" and B = "[]" and X = "[]"]
  by (simp add: empty_ctx_def checking_taucs_def ctx_wf_def)

text \<open>
  (C7) \<open>lu_symbolic_factor_solve1\<close> reports 0 exactly when \<open>taucs_linsolve\<close>
  returns \<open>TAUCS_SUCCESS\<close> and -1 for every error code, so the kinds of failure
  (generic, out of memory, bad arguments, maximal depth, not positive definite) are
  not told apart in the result; on success the factor stored in \<open>F\<close> is still held.
\<close>

theorem lu_symbolic_factor_solve1_status:
  "fst (lu_symbolic_factor_solve1 False t A MA B X ctx) =
     (if fst (linsolve t A B) = TAUCS_SUCCESS then 0 else -1) \<and>
   live (snd (snd (lu_symbolic_factor_solve1 False t A MA B X ctx))) =
     live ctx @ (if fst (linsolve t A B) = TAUCS_SUCCESS then [(next_handle ctx, LinsolveFactor)] else [])"
  by (simp add: lu_symbolic_factor_solve1_result ctx_ops)

text \<open>
  (C8) Resources of \<open>ll_symbolic_factor_solve\<close>: on both paths the numeric part of
  the Cholesky factor is released by \<open>taucs_supernodal_factor_free_numeric\<close>, and
  the symbolic factor from \<open>taucs_ccs_factor_llt_symbolic\<close> is still held on return;
  a failed numeric factorization reports -1.
\<close>

theorem ll_symbolic_factor_solve_live:
  assumes "ctx_wf ctx"
  shows "fst (ll_symbolic_factor_solve False t SA SMA B X ctx) =
           (if llt_numeric t SMA \<noteq> 0 then -1 else fst (llt_solve t SMA B)) \<and>
         live (snd (snd (ll_symbolic_factor_solve False t SA SMA B X ctx))) =
           live ctx @ [(next_handle ctx, LltSymbolic)]"
proof -
  have "filter (\<lambda>e. fst e \<noteq> Suc (next_handle ctx)) (live ctx) = live ctx"
    by (rule ctx_wf_filter[OF assms, where P = "\<lambda>h. h \<noteq> Suc (next_handle ctx)"]) simp
  then show ?thesis
    by (simp add: ll_symbolic_factor_solve_def Let_def split_def ctx_ops)
qed

theorem ll_symbolic_factor_solve_live_witness:
  "ctx_wf empty_ctx \<and>
   fst (ll_symbolic_factor_solve False (checking_taucs []) (new_sym_matrix 0) (new_sym_matrix 0) [] [] empty_ctx) = 0 \<and>
   live (snd (snd (ll_symbolic_factor_solve False (checking_taucs []) (new_sym_matrix 0) (new_sym_matrix 0)
      [] [] empty_ctx))) = [(0, LltSymbolic)]"
  using ll_symbolic_factor_solve_live[OF ctx_wf_empty, where t = "checking_taucs []"
      and SA = "new_sym_matrix 0" and SMA = "new_sym_matrix 0" and B = "[]" and X = "[]"]
  by (simp add: empty_ctx_def checking_taucs_def ctx_wf_def)

end
