(* ===== verification/Engine.thy ===== *)
theory Engine
  imports Solver
begin

text \<open>
  \<open>Calculator::compute\<close>, the orchestration: classification, assembly of the
  general and of the symmetric system (both always, lines 363--376), the choice of a
  solve routine by the strategy string (lines 384--402), and the write-back of the
  general solution vector \<open>Xu\<close> when the status is not negative. The result is
  the status, the mesh after the call and the solver context.
\<close>

definition general_system ::
  "weight_fn \<Rightarrow> mesh \<Rightarrow> nat \<Rightarrow> constrained_vertex list \<Rightarrow> vec \<Rightarrow> matrix \<times> vec" where
  "general_system w m1 nbVertices vcMap cValues =
     setupSystem w m1 (new_matrix nbVertices) (zero_vec nbVertices) vcMap cValues"

definition symmetric_system ::
  "weight_fn \<Rightarrow> mesh \<Rightarrow> nat \<Rightarrow> constrained_vertex list \<Rightarrow> vec \<Rightarrow> sym_matrix \<times> vec" where
  "symmetric_system w m1 nbVertices vcMap cValues =
     setupSymmetricSystem w m1 (new_sym_matrix nbVertices) (zero_vec nbVertices) vcMap cValues"

definition dispatch ::
  "bool \<Rightarrow> taucs \<Rightarrow> string \<Rightarrow> matrix \<Rightarrow> vec \<Rightarrow> vec \<Rightarrow> sym_matrix \<Rightarrow> vec \<Rightarrow> vec \<Rightarrow> solver_ctx \<Rightarrow>
   int \<times> vec \<times> vec \<times> solver_ctx" where
  "dispatch use_opennl t st A Bu Xu SA Bv Xv ctx =
     (if st = ''Taucs::lu_symbolic'' then
        (case lu_symbolic_factor_solve1 use_opennl t A A Bu Xu ctx of
           (status, Xu', ctx') \<Rightarrow> (status, Xu', Xv, ctx'))
      else if st = ''Taucs::ooc_lu'' \<or> st = ''OpenNL::BICGSTAB'' then
        (case ooc_lu_factor_solve t A Bu Xu ctx of
           (status, Xu', ctx') \<Rightarrow> (status, Xu', Xv, ctx'))
      else if st = ''Taucs::ll_symbolic'' then
        (case ll_symbolic_factor_solve use_opennl t SA SA Bv Xv ctx of
           (status, Xv', ctx') \<Rightarrow> (status, Xu, Xv', ctx'))
      else (-1, Xu, Xv, ctx))"

definition compute ::
  "bool \<Rightarrow> taucs \<Rightarrow> weight_impl \<Rightarrow> calculator \<Rightarrow> mesh \<Rightarrow> constrained_vertex list \<Rightarrow> vec \<Rightarrow>
   string \<Rightarrow> solver_ctx \<Rightarrow> int \<times> mesh \<times> solver_ctx" where
  "compute use_opennl t wi calc m vcMap cValues solverType ctx =
     (case classify m vcMap of
        (nbVertices, m1) \<Rightarrow>
          (let w = calc_weight wi calc;
               (A, Bu) = general_system w m1 nbVertices vcMap cValues;
               Xu = zero_vec nbVertices;
               (SA, Bv) = symmetric_system w m1 nbVertices vcMap cValues;
               Xv = zero_vec nbVertices
           in case dispatch use_opennl t solverType A Bu Xu SA Bv Xv ctx of
                (status, Xu', Xv', ctx') \<Rightarrow>
                  if status < 0 then (status, m1, ctx')
                  else (status, set_mesh_scalar_from_system m1 Xu', ctx')))"

text \<open>The general system of the triangle scenario, as the specification states it.\<close>

definition triangle_system_matrix :: matrix where
  "triangle_system_matrix = \<lparr>m_rows = 3, m_coefs = [((0, 0), 1), ((1, 1), 1), ((2, 0), -1), ((2, 1), -1), ((2, 2), 2)]\<rparr>"

subsection \<open>Unfolding \<open>compute\<close>\<close>

lemma compute_unfold:
  "compute u t wi calc m vcs cv st ctx =
     (let n = fst (classify m vcs); m1 = snd (classify m vcs); w = calc_weight wi calc;
          S = general_system w m1 n vcs cv; Y = symmetric_system w m1 n vcs cv;
          D = dispatch u t st (fst S) (snd S) (zero_vec n) (fst Y) (snd Y) (zero_vec n) ctx
      in if fst D < 0 then (fst D, m1, snd (snd (snd D)))
         else (fst D, set_mesh_scalar_from_system m1 (fst (snd D)), snd (snd (snd D))))"
  by (simp add: compute_def split_def Let_def)

lemma dispatch_lu_symbolic:
  "dispatch u t ''Taucs::lu_symbolic'' A Bu Xu SA Bv Xv ctx =
     (fst (lu_symbolic_factor_solve1 u t A A Bu Xu ctx), fst (snd (lu_symbolic_factor_solve1 u t A A Bu Xu ctx)),
      Xv, snd (snd (lu_symbolic_factor_solve1 u t A A Bu Xu ctx)))"
  by (simp add: dispatch_def split_def)

lemma dispatch_ooc:
  "st = ''Taucs::ooc_lu'' \<or> st = ''OpenNL::BICGSTAB'' \<Longrightarrow>
   dispatch u t st A Bu Xu SA Bv Xv ctx =
     (fst (ooc_lu_factor_solve t A Bu Xu ctx), fst (snd (ooc_lu_factor_solve t A Bu Xu ctx)),
      Xv, snd (snd (ooc_lu_factor_solve t A Bu Xu ctx)))"
  by (auto simp: dispatch_def split_def)

lemma dispatch_ll_symbolic:
  "dispatch u t ''Taucs::ll_symbolic'' A Bu Xu SA Bv Xv ctx =
     (fst (ll_symbolic_factor_solve u t SA SA Bv Xv ctx), Xu,
      fst (snd (ll_symbolic_factor_solve u t SA SA Bv Xv ctx)), snd (snd (ll_symbolic_factor_solve u t SA SA Bv Xv ctx)))"
  by (simp add: dispatch_def split_def)

lemma dispatch_other:
  "st \<notin> {''Taucs::lu_symbolic'', ''Taucs::ooc_lu'', ''OpenNL::BICGSTAB'', ''Taucs::ll_symbolic''} \<Longrightarrow>
   dispatch u t st A Bu Xu SA Bv Xv ctx = (-1, Xu, Xv, ctx)"
  by (simp add: dispatch_def)

lemma vdata_set_mesh_scalar:
  "v \<in> set (vertices m) \<Longrightarrow>
   vdata (set_mesh_scalar_from_system m X) v = (vdata m v)\<lparr>v_s := X ! v_index (vdata m v), v_param := True\<rparr>"
  by (simp add: set_mesh_scalar_from_system_def writeback_loop_apply)

lemma calc_weight_tutte: "calc_weight wi (Calculator 2) = tutte_weight"
  by (simp add: calc_weight_def Calculator_def)

lemma writeback_zero:
  assumes "distinct (vertices m)" and "v \<in> set (vertices m)"
  shows "v_s (vdata (set_mesh_scalar_from_system (snd (classify m vcs)) (zero_vec (fst (classify m vcs)))) v) = 0"
  using assms classify_vdata(2)[OF assms, of vcs]
  by (simp add: vdata_set_mesh_scalar classify_count)

subsection \<open>The scenario meshes, evaluated\<close>

lemma triangle_general_system:
  "general_system tutte_weight (snd (classify triangle_mesh triangle_constraints)) 3 triangle_constraints [] =
     (triangle_system_matrix, [0, 1, 0])"
proof -
  define m1 where "m1 = snd (classify triangle_mesh triangle_constraints)"
  have d: "vdata m1 0 = \<lparr>v_index = 0, v_s = 0, v_param = True\<rparr>"
    "vdata m1 (Suc 0) = \<lparr>v_index = 1, v_s = 1, v_param = True\<rparr>"
    "vdata m1 2 = \<lparr>v_index = 2, v_s = -1, v_param = False\<rparr>"
    using triangle_vdata by (simp_all add: m1_def)
  have t: "vertices m1 = [0, Suc 0, 2]" "ring m1 2 = [0, Suc 0]"
    using triangle_topology by (simp_all add: m1_def)
  show ?thesis
    unfolding m1_def[symmetric]
    by (simp add: general_system_def setupSystem_def triangle_constraints_def d t
        setup_inner_vertex_relations_def Let_def set_coef_def new_matrix_def zero_vec_def numeral_3_eq_3
        triangle_system_matrix_def)
qed

lemma triangle_mat_vec:
  "mat_vec triangle_system_matrix X =
     [X ! 0, X ! 1, - X ! 0 - X ! 1 + 2 * X ! 2]"
  by (simp add: mat_vec_def upt_conv_Cons triangle_system_matrix_def)

lemma triangle_count: "fst (classify triangle_mesh triangle_constraints) = 3"
  by (simp add: classify_count triangle_topology)

lemma path_classified:
  "fst (classify path_mesh path_constraints) = 3"
  "vertices (snd (classify path_mesh path_constraints)) = [0, 1, 2]"
  "vdata (snd (classify path_mesh path_constraints)) 0 = \<lparr>v_index = 0, v_s = 5, v_param = True\<rparr>"
  "vdata (snd (classify path_mesh path_constraints)) 1 = \<lparr>v_index = 1, v_s = 0, v_param = True\<rparr>"
  "vdata (snd (classify path_mesh path_constraints)) 2 = \<lparr>v_index = 2, v_s = -1, v_param = False\<rparr>"
  "ring (snd (classify path_mesh path_constraints)) 2 = [1]"
  "ring path_mesh 2 = [1]"
  using classify_nth[of path_mesh 0 path_constraints] classify_nth[of path_mesh 1 path_constraints]
    classify_nth[of path_mesh 2 path_constraints]
  by (simp_all add: classify_count path_mesh_def path_constraints_def last_constraint_def)

lemma path_general_system:
  "general_system tutte_weight (snd (classify path_mesh path_constraints)) 3 path_constraints [] =
     (\<lparr>m_rows = 3, m_coefs = [((0, 0), 1), ((1, 1), 1), ((2, 1), -1)]\<rparr>, [5, 0, 0])"
proof -
  define m1 where "m1 = snd (classify path_mesh path_constraints)"
  have d: "vdata m1 0 = \<lparr>v_index = 0, v_s = 5, v_param = True\<rparr>"
    "vdata m1 (Suc 0) = \<lparr>v_index = 1, v_s = 0, v_param = True\<rparr>"
    "vdata m1 2 = \<lparr>v_index = 2, v_s = -1, v_param = False\<rparr>"
    using path_classified by (simp_all add: m1_def)
  have t: "vertices m1 = [0, Suc 0, 2]" "ring m1 2 = [Suc 0]"
    using path_classified by (simp_all add: m1_def)
  show ?thesis
    unfolding m1_def[symmetric]
    by (simp add: general_system_def setupSystem_def path_constraints_def d t
        setup_inner_vertex_relations_def Let_def set_coef_def new_matrix_def zero_vec_def numeral_3_eq_3)
qed

subsection \<open>A degenerate row\<close>

text \<open>
  (C20) A free vertex with fewer than two neighbours: \<open>setup_inner_vertex_relations\<close>
  returns -1 and writes neither the diagonal nor the right-hand side, but the
  off-diagonal coefficients of the neighbours it visited are already in the matrix.
\<close>

theorem setup_inner_degenerate:
  assumes "length (ring m v) < 2"
    and "v_index (vdata m v) \<notin> (\<lambda>u. v_index (vdata m u)) ` set (ring m v)"
  shows "fst (setup_inner_vertex_relations w A Bu m v cv) = -1 \<and>
         snd (snd (setup_inner_vertex_relations w A Bu m v cv)) = Bu \<and>
         get_coef (fst (snd (setup_inner_vertex_relations w A Bu m v cv))) (v_index (vdata m v)) (v_index (vdata m v)) =
           get_coef A (v_index (vdata m v)) (v_index (vdata m v)) \<and>
         (\<forall>u\<in>set (ring m v).
            get_coef (fst (snd (setup_inner_vertex_relations w A Bu m v cv))) (v_index (vdata m v)) (v_index (vdata m u)) =
              - w m v u)"
proof -
  have diag: "find (\<lambda>u. v_index (vdata m u) = v_index (vdata m v)) (rev (ring m v)) = None"
    using assms(2) by (simp add: find_key_None)
  have off: "\<forall>u\<in>set (ring m v).
      find (\<lambda>x. v_index (vdata m x) = v_index (vdata m u)) (rev (ring m v)) = Some u \<and>
      v_index (vdata m u) \<noteq> v_index (vdata m v)"
  proof
    fix u
    assume u: "u \<in> set (ring m v)"
    with assms(1) have "ring m v = [u]" by (cases "ring m v") auto
    with u assms(2) show "find (\<lambda>x. v_index (vdata m x) = v_index (vdata m u)) (rev (ring m v)) = Some u \<and>
        v_index (vdata m u) \<noteq> v_index (vdata m v)" by auto
  qed
  show ?thesis
    using assms(1) diag off
    by (auto simp: setup_inner_status setup_inner_rhs setup_inner_coef inner_row_def)
qed

theorem setup_inner_degenerate_witness:
  "length (ring (snd (classify path_mesh path_constraints)) 2) < 2 \<and>
   v_index (vdata (snd (classify path_mesh path_constraints)) 2)
     \<notin> (\<lambda>u. v_index (vdata (snd (classify path_mesh path_constraints)) u)) `
          set (ring (snd (classify path_mesh path_constraints)) 2) \<and>
   fst (setup_inner_vertex_relations tutte_weight (new_matrix 3) (zero_vec 3)
          (snd (classify path_mesh path_constraints)) 2 []) = -1"
proof -
  have d: "vdata (snd (classify path_mesh path_constraints)) (Suc 0) = \<lparr>v_index = Suc 0, v_s = 0, v_param = True\<rparr>"
    using path_classified(4) by simp
  show ?thesis
    using setup_inner_degenerate[where m = "snd (classify path_mesh path_constraints)" and v = 2
        and w = tutte_weight and A = "new_matrix 3" and Bu = "zero_vec 3" and cv = "[]"]
    by (simp add: path_classified d)
qed

subsection \<open>Strategy selection\<close>

text \<open>
  (C9) Unsupported strategy: a strategy string other than the four literals the
  code compares against (for instance the specification's \<open>general-direct\<close>)
  makes \<open>compute\<close> return -1 without any call into the solver library and
  without writing back a solution; the mesh it leaves is the classified one.
\<close>

theorem compute_unsupported_strategy:
  assumes "st \<notin> {''Taucs::lu_symbolic'', ''Taucs::ooc_lu'', ''OpenNL::BICGSTAB'', ''Taucs::ll_symbolic''}"
  shows "compute u t wi calc m vcs cv st ctx = (-1, snd (classify m vcs), ctx)"
  using dispatch_other[OF assms] by (simp add: compute_unfold Let_def)

theorem compute_unsupported_strategy_witness:
  "''general-direct'' \<notin> {''Taucs::lu_symbolic'', ''Taucs::ooc_lu'', ''OpenNL::BICGSTAB'', ''Taucs::ll_symbolic''} \<and>
   compute False (checking_taucs []) uniform_impl (Calculator 2) triangle_mesh triangle_constraints []
     ''general-direct'' empty_ctx = (-1, snd (classify triangle_mesh triangle_constraints), empty_ctx)"
  using compute_unsupported_strategy[where st = "''general-direct''" and u = False
      and t = "checking_taucs []" and wi = uniform_impl and calc = "Calculator 2"
      and m = triangle_mesh and vcs = triangle_constraints and cv = "[]" and ctx = empty_ctx]
  by simp

text \<open>
  (C10) The LU strategy: with \<open>Taucs::lu_symbolic\<close>, \<open>compute\<close> returns 0 exactly
  when \<open>taucs_linsolve\<close> succeeds on the general system, and then every vertex is
  marked parameterized and carries the entry of the returned vector at its index.
\<close>

theorem compute_lu_symbolic:
  assumes "general_system (calc_weight wi calc) (snd (classify m vcs)) (fst (classify m vcs)) vcs cv = (A, Bu)"
    and "v \<in> set (vertices m)"
  shows "fst (compute False t wi calc m vcs cv ''Taucs::lu_symbolic'' ctx) =
           (if fst (linsolve t A Bu) = TAUCS_SUCCESS then 0 else -1) \<and>
         (fst (linsolve t A Bu) = TAUCS_SUCCESS \<longrightarrow>
            v_param (vdata (fst (snd (compute False t wi calc m vcs cv ''Taucs::lu_symbolic'' ctx))) v) \<and>
            v_s (vdata (fst (snd (compute False t wi calc m vcs cv ''Taucs::lu_symbolic'' ctx))) v) =
              snd (linsolve t A Bu) ! v_index (vdata (snd (classify m vcs)) v))"
  using assms
  by (simp add: compute_unfold Let_def dispatch_lu_symbolic lu_symbolic_factor_solve1_result
      vdata_set_mesh_scalar TAUCS_SUCCESS_def)

theorem compute_lu_symbolic_witness:
  "general_system (calc_weight uniform_impl (Calculator 2)) (snd (classify triangle_mesh triangle_constraints))
     (fst (classify triangle_mesh triangle_constraints)) triangle_constraints [] =
     (triangle_system_matrix, [0, 1, 0]) \<and>
   (2::nat) \<in> set (vertices triangle_mesh) \<and>
   fst (compute False (checking_taucs [0, 1, 1/2]) uniform_impl (Calculator 2) triangle_mesh triangle_constraints []
     ''Taucs::lu_symbolic'' empty_ctx) = 0"
proof -
  have S: "general_system (calc_weight uniform_impl (Calculator 2)) (snd (classify triangle_mesh triangle_constraints))
     (fst (classify triangle_mesh triangle_constraints)) triangle_constraints [] =
     (triangle_system_matrix, [0, 1, 0])"
    by (simp add: calc_weight_tutte triangle_count triangle_general_system)
  have v: "(2::nat) \<in> set (vertices triangle_mesh)" by (simp add: triangle_topology)
  show ?thesis
    using compute_lu_symbolic[OF S v, where t = "checking_taucs [0, 1, 1/2]" and ctx = empty_ctx] S v
    by (simp add: checking_taucs_def triangle_mat_vec TAUCS_SUCCESS_def)
qed

text \<open>
  (C11) The scenario of the specification: on the single triangle with vertices 0
  and 1 pinned to 0 and 1, the uniform scheme, and any LU solver whose successes are
  solutions, a successful \<open>compute\<close> leaves the pinned values in place and gives the
  free vertex the average of its neighbours, 1/2.
\<close>

theorem compute_triangle:
  assumes "linsolve_sound t"
    and "compute False t wi (Calculator 2) triangle_mesh triangle_constraints [] ''Taucs::lu_symbolic'' ctx =
           (0, m', ctx')"
  shows "v_s (vdata m' 0) = 0 \<and> v_s (vdata m' 1) = 1 \<and> v_s (vdata m' 2) = 1 / 2"
proof -
  let ?A = "triangle_system_matrix"
  let ?Bu = "[0, 1, 0] :: vec"
  let ?m1 = "snd (classify triangle_mesh triangle_constraints)"
  have S: "general_system tutte_weight ?m1 3 triangle_constraints [] = (?A, ?Bu)"
    by (rule triangle_general_system)
  have run: "compute False t wi (Calculator 2) triangle_mesh triangle_constraints [] ''Taucs::lu_symbolic'' ctx =
      (if fst (linsolve t ?A ?Bu) = 0
       then (0, set_mesh_scalar_from_system ?m1 (snd (linsolve t ?A ?Bu)),
             snd (alloc LinsolveFactor (ext_call ''taucs_linsolve'' ctx)))
       else (-1, ?m1, ext_call ''taucs_linsolve'' ctx))"
    by (simp add: compute_unfold Let_def calc_weight_tutte triangle_count S dispatch_lu_symbolic
        lu_symbolic_factor_solve1_result TAUCS_SUCCESS_def)
  with assms(2) have ok: "fst (linsolve t ?A ?Bu) = 0"
    and m': "m' = set_mesh_scalar_from_system ?m1 (snd (linsolve t ?A ?Bu))"
    by (auto split: if_splits)
  let ?X = "snd (linsolve t ?A ?Bu)"
  from assms(1) ok have "mat_vec ?A ?X = ?Bu" by (simp add: linsolve_sound_def)
  then have x0: "?X ! 0 = 0" and x1: "?X ! 1 = 1" and x2: "?X ! 2 = 1 / 2"
    by (simp_all add: triangle_mat_vec)
  have v1: "vdata ?m1 (Suc 0) = \<lparr>v_index = Suc 0, v_s = 1, v_param = True\<rparr>"
    using triangle_vdata(2) by simp
  show ?thesis
    using x0 x1 x2 m' v1 by (simp add: vdata_set_mesh_scalar triangle_vdata triangle_topology)
qed

theorem compute_triangle_witness:
  "linsolve_sound (checking_taucs [0, 1, 1/2]) \<and>
   v_s (vdata (fst (snd (compute False (checking_taucs [0, 1, 1/2]) uniform_impl (Calculator 2) triangle_mesh
      triangle_constraints [] ''Taucs::lu_symbolic'' empty_ctx))) 2) = 1 / 2"
proof -
  let ?r = "compute False (checking_taucs [0, 1, 1/2]) uniform_impl (Calculator 2) triangle_mesh
      triangle_constraints [] ''Taucs::lu_symbolic'' empty_ctx"
  have st: "fst ?r = 0"
    by (simp add: compute_unfold Let_def calc_weight_tutte triangle_count triangle_general_system
        dispatch_lu_symbolic lu_symbolic_factor_solve1_result checking_taucs_def triangle_mat_vec
        TAUCS_SUCCESS_def)
  then have "?r = (0, fst (snd ?r), snd (snd ?r))" by (metis prod.collapse)
  from compute_triangle[OF checking_taucs_linsolve_sound this] show ?thesis
    by (simp add: checking_taucs_linsolve_sound)
qed

subsection \<open>What the other strategies write back\<close>

text \<open>
  (C12) The Cholesky strategy solves the symmetric system into \<open>Xv\<close> but writes
  back \<open>Xu\<close>, which no routine has filled: whenever \<open>Taucs::ll_symbolic\<close>
  reports success, every vertex ends with the value 0, whatever the solve returned.
\<close>

theorem compute_ll_symbolic_writes_Xu:
  assumes "distinct (vertices m)" and "v \<in> set (vertices m)"
    and "compute False t wi calc m vcs cv ''Taucs::ll_symbolic'' ctx = (status, m', ctx')"
    and "0 \<le> status"
  shows "v_param (vdata m' v) \<and> v_s (vdata m' v) = 0"
proof -
  from assms(3,4) have "m' = set_mesh_scalar_from_system (snd (classify m vcs)) (zero_vec (fst (classify m vcs)))"
    by (auto simp: compute_unfold Let_def dispatch_ll_symbolic split: if_splits)
  then show ?thesis
    using writeback_zero[OF assms(1,2), of vcs] assms(2) by (simp add: vdata_set_mesh_scalar)
qed

theorem compute_ll_symbolic_writes_Xu_witness:
  "distinct (vertices triangle_mesh) \<and> (2::nat) \<in> set (vertices triangle_mesh) \<and>
   fst (compute False (checking_taucs [0, 1, 1/2]) uniform_impl (Calculator 2) triangle_mesh
      triangle_constraints [] ''Taucs::ll_symbolic'' empty_ctx) = 0 \<and>
   v_s (vdata (fst (snd (compute False (checking_taucs [0, 1, 1/2]) uniform_impl (Calculator 2) triangle_mesh
      triangle_constraints [] ''Taucs::ll_symbolic'' empty_ctx))) 2) = 0"
proof -
  let ?r = "compute False (checking_taucs [0, 1, 1/2]) uniform_impl (Calculator 2) triangle_mesh
      triangle_constraints [] ''Taucs::ll_symbolic'' empty_ctx"
  have st: "fst ?r = 0"
    by (simp add: compute_unfold Let_def dispatch_ll_symbolic ll_symbolic_factor_solve_status checking_taucs_def)
  then have r: "?r = (0, fst (snd ?r), snd (snd ?r))" by (metis prod.collapse)
  have d: "distinct (vertices triangle_mesh)" and v: "(2::nat) \<in> set (vertices triangle_mesh)"
    by (simp_all add: triangle_topology)
  show ?thesis
    using compute_ll_symbolic_writes_Xu[OF d v r] st d v by simp
qed

text \<open>
  (C13) Built with \<open>USE_OPENNL\<close>, the LU and Cholesky strategies call no solver at
  all and still report success, so \<open>compute\<close> returns 0 and writes the zero
  vector back to every vertex.
\<close>

theorem compute_opennl_no_solve:
  assumes "distinct (vertices m)" and "v \<in> set (vertices m)"
    and "st = ''Taucs::lu_symbolic'' \<or> st = ''Taucs::ll_symbolic''"
  shows "fst (compute True t wi calc m vcs cv st ctx) = 0 \<and>
         snd (snd (compute True t wi calc m vcs cv st ctx)) = ctx \<and>
         v_s (vdata (fst (snd (compute True t wi calc m vcs cv st ctx))) v) = 0"
  using assms(3) writeback_zero[OF assms(1,2), of vcs]
  by (auto simp: compute_unfold Let_def dispatch_lu_symbolic dispatch_ll_symbolic opennl_routines)

theorem compute_opennl_no_solve_witness:
  "distinct (vertices triangle_mesh) \<and> (2::nat) \<in> set (vertices triangle_mesh) \<and>
   (''Taucs::lu_symbolic'' = ''Taucs::lu_symbolic'' \<or> ''Taucs::lu_symbolic'' = ''Taucs::ll_symbolic'') \<and>
   fst (compute True (checking_taucs [0, 1, 1/2]) uniform_impl (Calculator 2) triangle_mesh
      triangle_constraints [] ''Taucs::lu_symbolic'' empty_ctx) = 0 \<and>
   v_s (vdata (fst (snd (compute True (checking_taucs [0, 1, 1/2]) uniform_impl (Calculator 2) triangle_mesh
      triangle_constraints [] ''Taucs::lu_symbolic'' empty_ctx))) 2) = 0"
proof -
  have d: "distinct (vertices triangle_mesh)" and v: "(2::nat) \<in> set (vertices triangle_mesh)"
    by (simp_all add: triangle_topology)
  show ?thesis
    using compute_opennl_no_solve[OF d v, where st = "''Taucs::lu_symbolic''"
        and t = "checking_taucs [0, 1, 1/2]" and wi = uniform_impl and calc = "Calculator 2"
        and vcs = triangle_constraints and cv = "[]" and ctx = empty_ctx] d v
    by simp
qed

text \<open>
  (C14) The out-of-core strategy: \<open>Solver::linear_solver\<close> returns the vector
  \<open>X\<close> and a divisor \<open>D\<close> ("on success, solution is (1/D) * X"), but
  \<open>compute\<close> writes \<open>X\<close> back as it is, for every \<open>D\<close>.
\<close>

theorem compute_ooc_ignores_divisor:
  assumes "st = ''Taucs::ooc_lu'' \<or> st = ''OpenNL::BICGSTAB''"
    and "general_system (calc_weight wi calc) (snd (classify m vcs)) (fst (classify m vcs)) vcs cv = (A, Bu)"
    and "ooc_solve t A Bu = (True, X, D)"
  shows "compute u t wi calc m vcs cv st ctx =
           (0, set_mesh_scalar_from_system (snd (classify m vcs)) X, ext_call ''Solver::linear_solver'' ctx)"
  using assms
  by (simp add: compute_unfold Let_def dispatch_ooc ooc_lu_factor_solve_result)

theorem compute_ooc_ignores_divisor_witness:
  "(''Taucs::ooc_lu'' = ''Taucs::ooc_lu'' \<or> ''Taucs::ooc_lu'' = ''OpenNL::BICGSTAB'') \<and>
   general_system (calc_weight uniform_impl (Calculator 2)) (snd (classify triangle_mesh triangle_constraints))
     (fst (classify triangle_mesh triangle_constraints)) triangle_constraints [] = (triangle_system_matrix, [0, 1, 0]) \<and>
   ooc_solve ((checking_taucs []) \<lparr>ooc_solve := (\<lambda>A B. (True, [0, 2, 1], 2))\<rparr>) triangle_system_matrix [0, 1, 0] =
     (True, [0, 2, 1], 2) \<and>
   fst (compute False ((checking_taucs []) \<lparr>ooc_solve := (\<lambda>A B. (True, [0, 2, 1], 2))\<rparr>) uniform_impl
     (Calculator 2) triangle_mesh triangle_constraints [] ''Taucs::ooc_lu'' empty_ctx) = 0"
proof -
  have S: "general_system (calc_weight uniform_impl (Calculator 2)) (snd (classify triangle_mesh triangle_constraints))
     (fst (classify triangle_mesh triangle_constraints)) triangle_constraints [] = (triangle_system_matrix, [0, 1, 0])"
    by (simp add: calc_weight_tutte triangle_count triangle_general_system)
  show ?thesis
    using compute_ooc_ignores_divisor[where st = "''Taucs::ooc_lu''", OF _ S,
        where t = "(checking_taucs []) \<lparr>ooc_solve := (\<lambda>A B. (True, [0, 2, 1], 2))\<rparr>"
        and X = "[0, 2, 1]" and D = 2 and u = False and ctx = empty_ctx] S
    by simp
qed


text \<open>
  (C16) A failed run is not side-effect free: whenever \<open>compute\<close> returns a
  negative status, the mesh it leaves is the classified one (indices reassigned,
  pinned flags and values rewritten, free vertices set to -1), not the caller's.
\<close>

theorem compute_failure_mesh:
  assumes "compute u t wi calc m vcs cv st ctx = (status, m', ctx')" and "status < 0"
  shows "m' = snd (classify m vcs)"
  using assms by (auto simp: compute_unfold Let_def split: if_splits)

theorem compute_failure_mesh_witness:
  "compute False (checking_taucs []) uniform_impl (Calculator 2) triangle_mesh triangle_constraints []
     ''general-direct'' empty_ctx = (-1, snd (classify triangle_mesh triangle_constraints), empty_ctx) \<and>
   (-1::int) < 0 \<and>
   v_s (vdata (snd (classify triangle_mesh triangle_constraints)) 2) = -1 \<and>
   v_s (vdata triangle_mesh 2) = 0"
proof -
  have r: "compute False (checking_taucs []) uniform_impl (Calculator 2) triangle_mesh triangle_constraints []
     ''general-direct'' empty_ctx = (-1, snd (classify triangle_mesh triangle_constraints), empty_ctx)"
    by (simp add: compute_unfold Let_def dispatch_other)
  have o: "v_s (vdata triangle_mesh 2) = 0" by (simp add: triangle_mesh_def)
  show ?thesis
    using compute_failure_mesh[OF r] r o by (simp add: triangle_vdata)
qed

end
