(* ===== verification/Logging.thy ===== *)
theory Logging
  imports Engine
begin

text \<open>
  The diagnostics of \<open>Calculator.cpp\<close>: the lines the solve routines and \<open>compute\<close>
  write to the \<open>std::ofstream\<close> logger, and the \<open>printf\<close> output of
  \<open>lu_symbolic_factor_solve1\<close> (lines 149-303 and 335-419). Output never feeds back
  into control flow, so the output of each routine is a function of the routine's
  inputs, defined beside it with the same branches: \<open>lu_symbolic_factor_solve_log\<close>,
  \<open>lu_symbolic_factor_solve1_log\<close> and \<open>lu_symbolic_factor_solve1_stdout\<close>,
  \<open>ooc_lu_factor_solve_log\<close>, \<open>ll_symbolic_factor_solve_log\<close>, the dispatch
  \<open>dispatch_log\<close>, and \<open>compute_log\<close>, which adds the trace lines of a
  \<open>DEBUG_TRACE\<close> build (the boolean \<open>debug_trace\<close>). A logged line is a \<open>Line\<close> of text
  or a \<open>Timed\<close> line: its label followed by an elapsed time from \<open>taucs_ctime\<close> and
  \<open>" seconds."\<close>; the time is the wall clock and is not modelled. A
  \<open>std::endl\<close> that follows another one writes the empty line \<open>Line []\<close>.
\<close>

datatype log_item = Line string | Timed string

fun string_of_nat :: "nat \<Rightarrow> string" where
  "string_of_nat n =
     (if n < 10 then [char_of (48 + n)]
      else string_of_nat (n div 10) @ [char_of (48 + n mod 10)])"

definition begin_block :: "string \<Rightarrow> log_item list" where
  "begin_block name = [Line [], Line (''#### Begin '' @ name)]"

definition lu_symbolic_factor_solve_log :: "bool \<Rightarrow> taucs \<Rightarrow> matrix \<Rightarrow> vec \<Rightarrow> log_item list" where
  "lu_symbolic_factor_solve_log use_opennl t MA B =
     begin_block ''Calculator::lu_symbolic_factor_solve'' @
     (if use_opennl then [Line ''Please not define USE_OPENNL'']
      else [Timed ''  taucs_ccs_order and taucs_ccs_factor_lu_symbolic: '',
            Timed ''  taucs_ccs_factor_lu_numeric: ''] @
           (if \<not> lu_numeric_ok t MA then [Line ''Failed to numerical factorization!'']
            else if fst (multilu_solve t MA B) = 0 then [Timed ''  solving a linear systems: '']
            else [Line ''  Error in solving a linear systems!''])) @
     [Line ''End lu_symbolic_factor_solve'']"

definition lu_symbolic_factor_solve1_log :: "bool \<Rightarrow> log_item list" where
  "lu_symbolic_factor_solve1_log use_opennl =
     begin_block ''Calculator::lu_symbolic_factor_solve'' @
     (if use_opennl then [Line ''Please not define USE_OPENNL'']
      else [Timed ''  solving a linear systems: '']) @
     [Line ''End lu_symbolic_factor_solve'']"

definition lu_symbolic_factor_solve1_stdout :: "bool \<Rightarrow> taucs \<Rightarrow> matrix \<Rightarrow> vec \<Rightarrow> string" where
  "lu_symbolic_factor_solve1_stdout use_opennl t A B =
     (if use_opennl then []
      else
        (let i = fst (linsolve t A B)
         in if i \<noteq> TAUCS_SUCCESS then
              ''Solution error.'' @ [CHR 0x0A] @
              (if i = TAUCS_ERROR then ''Generic error.'' else []) @
              (if i = TAUCS_ERROR_NOMEM then ''NOMEM error.'' else []) @
              (if i = TAUCS_ERROR_BADARGS then ''BADARGS error.'' else []) @
              (if i = TAUCS_ERROR_MAXDEPTH then ''MAXDEPTH error.'' else []) @
              (if i = TAUCS_ERROR_INDEFINITE then ''NOT POSITIVE DEFINITE error.'' else [])
            else []))"

definition ooc_lu_factor_solve_log :: "bool \<Rightarrow> taucs \<Rightarrow> matrix \<Rightarrow> vec \<Rightarrow> log_item list" where
  "ooc_lu_factor_solve_log use_opennl t A B =
     (let funcName = (if use_opennl then ''Calculator::OpenNL::BICGSTAB''
                      else ''Calculator::Taucs::ooc_lu_factor_solveTaucs'')
      in begin_block funcName @
         (if \<not> fst (ooc_solve t A B) then [Line ''  Error in solving a linear systems!'']
          else [Timed ''  solving a linear systems: '']) @
         [Line (''End '' @ funcName)])"

definition ll_symbolic_factor_solve_log :: "bool \<Rightarrow> taucs \<Rightarrow> sym_matrix \<Rightarrow> log_item list" where
  "ll_symbolic_factor_solve_log use_opennl t SMA =
     begin_block ''Calculator::ll_symbolic_factor_solve'' @
     (if use_opennl then [Line ''Please not define USE_OPENNL'']
      else [Timed ''....taucs_ccs_factor_llt_symbolic: ''] @
           (if llt_numeric t SMA \<noteq> 0 then [Line ''Failed to numerical factorization!'']
            else [Timed ''....taucs_ccs_factor_llt_numeric: '']) @
           [Timed ''....taucs_supernodal_solve_llt: '']) @
     [Line ''End ll_symbolic_factor_solve!'', Line []]"

definition dispatch_log ::
  "bool \<Rightarrow> taucs \<Rightarrow> string \<Rightarrow> matrix \<Rightarrow> vec \<Rightarrow> sym_matrix \<Rightarrow> log_item list" where
  "dispatch_log use_opennl t st A Bu SA =
     (if st = ''Taucs::lu_symbolic'' then lu_symbolic_factor_solve1_log use_opennl
      else if st = ''Taucs::ooc_lu'' \<or> st = ''OpenNL::BICGSTAB'' then ooc_lu_factor_solve_log use_opennl t A Bu
      else if st = ''Taucs::ll_symbolic'' then ll_symbolic_factor_solve_log use_opennl t SA
      else [Line ''!! not support!''])"

definition compute_trace_head :: "bool \<Rightarrow> nat \<Rightarrow> log_item list" where
  "compute_trace_head debug_trace nbVertices =
     (let size = string_of_nat nbVertices @ '' x '' @ string_of_nat nbVertices
      in if debug_trace
         then [Line ''  Calculator::compute() begin!'',
               Timed ''....set scalar for constrained vertices: '',
               Timed (''....matrix filling ('' @ size @ ''): ''),
               Timed (''....symmetric matrix filling ('' @ size @ ''): '')]
         else [])"

definition compute_trace_tail :: "bool \<Rightarrow> int \<Rightarrow> log_item list" where
  "compute_trace_tail debug_trace status =
     (if status < 0 then []
      else if debug_trace then [Timed ''....copy computed UVs to mesh :''] else [])"

definition compute_log ::
  "bool \<Rightarrow> bool \<Rightarrow> taucs \<Rightarrow> weight_impl \<Rightarrow> calculator \<Rightarrow> mesh \<Rightarrow> constrained_vertex list \<Rightarrow> vec \<Rightarrow>
   string \<Rightarrow> solver_ctx \<Rightarrow> log_item list" where
  "compute_log debug_trace use_opennl t wi calc m vcMap cValues solverType ctx =
     (case classify m vcMap of
        (nbVertices, m1) \<Rightarrow>
          (let w = calc_weight wi calc;
               (A, Bu) = general_system w m1 nbVertices vcMap cValues;
               (SA, Bv) = symmetric_system w m1 nbVertices vcMap cValues;
               status = fst (dispatch use_opennl t solverType A Bu (zero_vec nbVertices) SA Bv
                               (zero_vec nbVertices) ctx)
           in compute_trace_head debug_trace nbVertices @
              dispatch_log use_opennl t solverType A Bu SA @
              compute_trace_tail debug_trace status))"

definition compute_stdout ::
  "bool \<Rightarrow> taucs \<Rightarrow> weight_impl \<Rightarrow> calculator \<Rightarrow> mesh \<Rightarrow> constrained_vertex list \<Rightarrow> vec \<Rightarrow>
   string \<Rightarrow> string" where
  "compute_stdout use_opennl t wi calc m vcMap cValues solverType =
     (case classify m vcMap of
        (nbVertices, m1) \<Rightarrow>
          (let (A, Bu) = general_system (calc_weight wi calc) m1 nbVertices vcMap cValues
           in if solverType = ''Taucs::lu_symbolic'' then lu_symbolic_factor_solve1_stdout use_opennl t A Bu
              else []))"

definition diagnostic_lines :: "string list" where
  "diagnostic_lines =
     [''Failed to numerical factorization!'', ''  Error in solving a linear systems!'', ''!! not support!'']"

fun is_diagnostic :: "log_item \<Rightarrow> bool" where
  "is_diagnostic (Line s) = (s \<in> set diagnostic_lines)"
| "is_diagnostic (Timed s) = False"

definition reports_failure :: "log_item list \<Rightarrow> bool" where
  "reports_failure xs = list_ex is_diagnostic xs"

text \<open>
  A TAUCS library for the examples whose every call fails: \<open>taucs_linsolve\<close> runs
  out of memory, the out-of-core solver does not converge, and the supernodal solve
  reports an error after a successful numeric factorization.
\<close>

definition failing_taucs :: taucs where
  "failing_taucs =
     \<lparr>linsolve = (\<lambda>A B. (TAUCS_ERROR_NOMEM, B)),
      lu_numeric_ok = (\<lambda>A. True),
      multilu_solve = (\<lambda>A B. (-1, B)),
      ooc_solve = (\<lambda>A B. (False, B, 1)),
      llt_numeric = (\<lambda>SA. 0),
      llt_solve = (\<lambda>SA B. (-1, B))\<rparr>"

subsection \<open>Reading the log\<close>

lemma reports_failure_simps [simp]:
  "reports_failure [] = False"
  "reports_failure (x # xs) = (is_diagnostic x \<or> reports_failure xs)"
  "reports_failure (xs @ ys) = (reports_failure xs \<or> reports_failure ys)"
  by (simp_all add: reports_failure_def)

lemma begin_block_quiet [simp]: "reports_failure (begin_block name) = False"
  by (simp add: begin_block_def diagnostic_lines_def)

lemma compute_trace_quiet [simp]:
  "reports_failure (compute_trace_head dt n) = False"
  "reports_failure (compute_trace_tail dt status) = False"
  by (simp_all add: compute_trace_head_def compute_trace_tail_def Let_def diagnostic_lines_def)

lemmas log_defs = lu_symbolic_factor_solve_log_def lu_symbolic_factor_solve1_log_def
  ooc_lu_factor_solve_log_def ll_symbolic_factor_solve_log_def diagnostic_lines_def

lemma compute_log_unfold:
  "compute_log dt u t wi calc m vcs cv st ctx =
     (let n = fst (classify m vcs); m1 = snd (classify m vcs); w = calc_weight wi calc;
          S = general_system w m1 n vcs cv; Y = symmetric_system w m1 n vcs cv;
          D = dispatch u t st (fst S) (snd S) (zero_vec n) (fst Y) (snd Y) (zero_vec n) ctx
      in compute_trace_head dt n @ dispatch_log u t st (fst S) (snd S) (fst Y) @
         compute_trace_tail dt (fst D))"
  by (simp add: compute_log_def split_def Let_def)

lemma compute_log_lu_symbolic:
  "compute_log dt u t wi calc m vcs cv ''Taucs::lu_symbolic'' ctx =
     compute_trace_head dt (fst (classify m vcs)) @ lu_symbolic_factor_solve1_log u @
     compute_trace_tail dt (fst (compute u t wi calc m vcs cv ''Taucs::lu_symbolic'' ctx))"
  by (simp add: compute_log_unfold compute_unfold dispatch_log_def Let_def)

lemma compute_stdout_lu_symbolic:
  "compute_stdout u t wi calc m vcs cv ''Taucs::lu_symbolic'' =
     lu_symbolic_factor_solve1_stdout u t
       (fst (general_system (calc_weight wi calc) (snd (classify m vcs)) (fst (classify m vcs)) vcs cv))
       (snd (general_system (calc_weight wi calc) (snd (classify m vcs)) (fst (classify m vcs)) vcs cv))"
  by (simp add: compute_stdout_def split_def Let_def)

lemma lu_symbolic_factor_solve1_stdout_nonempty:
  "lu_symbolic_factor_solve1_stdout False t A B \<noteq> [] \<longleftrightarrow> fst (linsolve t A B) \<noteq> TAUCS_SUCCESS"
  by (simp add: lu_symbolic_factor_solve1_stdout_def Let_def)

text \<open>
  (C34) Which failures the solve routines report in the log. The out-of-core routine
  and \<open>lu_symbolic_factor_solve\<close> write a diagnostic line exactly when they fail. The
  Cholesky routine writes one only when the numeric factorization fails: a failing
  supernodal solve gives status \<open>-1\<close> with no diagnostic. \<open>lu_symbolic_factor_solve1\<close>
  never writes a diagnostic to the log: its failures go to standard output only,
  which is non-empty exactly when it fails.
\<close>

theorem routine_diagnostics:
  "(reports_failure (ooc_lu_factor_solve_log u t A B) \<longleftrightarrow> fst (ooc_lu_factor_solve t A B X ctx) = -1) \<and>
   (reports_failure (lu_symbolic_factor_solve_log False t MA B) \<longleftrightarrow>
      fst (lu_symbolic_factor_solve False t A MA B X ctx) \<noteq> 0) \<and>
   (reports_failure (ll_symbolic_factor_solve_log False t SMA) \<longleftrightarrow> llt_numeric t SMA \<noteq> 0) \<and>
   (fst (ll_symbolic_factor_solve False t SA SMA B X ctx) = 0 \<longleftrightarrow>
      llt_numeric t SMA = 0 \<and> fst (llt_solve t SMA B) = 0) \<and>
   \<not> reports_failure (lu_symbolic_factor_solve1_log u) \<and>
   (lu_symbolic_factor_solve1_stdout False t A B \<noteq> [] \<longleftrightarrow>
      fst (lu_symbolic_factor_solve1 False t A MA B X ctx) = -1)"
  by (simp add: log_defs ooc_lu_factor_solve_result lu_symbolic_factor_solve_status
      ll_symbolic_factor_solve_status lu_symbolic_factor_solve1_result
      lu_symbolic_factor_solve1_stdout_nonempty Let_def)

theorem routine_diagnostics_witness:
  "fst (ll_symbolic_factor_solve False failing_taucs (new_sym_matrix 2) (new_sym_matrix 2) [1, 1] [0, 0] empty_ctx) = -1 \<and>
   \<not> reports_failure (ll_symbolic_factor_solve_log False failing_taucs (new_sym_matrix 2)) \<and>
   fst (lu_symbolic_factor_solve1 False failing_taucs (new_matrix 2) (new_matrix 2) [1, 1] [0, 0] empty_ctx) = -1 \<and>
   \<not> reports_failure (lu_symbolic_factor_solve1_log False) \<and>
   reports_failure (ooc_lu_factor_solve_log False failing_taucs (new_matrix 2) [1, 1])"
  using routine_diagnostics[of False failing_taucs "new_matrix 2" "[1, 1]" "[0, 0]" empty_ctx
      "new_matrix 2" "new_sym_matrix 2" "new_sym_matrix 2"]
  by (simp add: failing_taucs_def ll_symbolic_factor_solve_status lu_symbolic_factor_solve1_result
      ooc_lu_factor_solve_result TAUCS_SUCCESS_def TAUCS_ERROR_NOMEM_def)

text \<open>
  (C28) A failing \<open>Taucs::lu_symbolic\<close> run of \<open>compute\<close> leaves no diagnostic in the
  log, whatever the build: without \<open>DEBUG_TRACE\<close> the log is the same for every
  TAUCS library and every outcome, and \<open>compute\<close> returns a negative status exactly
  when the run wrote to standard output (\<open>"Solution error."\<close>).
\<close>

theorem compute_lu_failure_unlogged:
  "\<not> reports_failure (compute_log dt False t wi calc m vcs cv ''Taucs::lu_symbolic'' ctx) \<and>
   compute_log False False t wi calc m vcs cv ''Taucs::lu_symbolic'' ctx =
     compute_log False False t' wi calc m vcs cv ''Taucs::lu_symbolic'' ctx' \<and>
   (fst (compute False t wi calc m vcs cv ''Taucs::lu_symbolic'' ctx) < 0 \<longleftrightarrow>
      compute_stdout False t wi calc m vcs cv ''Taucs::lu_symbolic'' \<noteq> [])"
proof -
  have q: "\<not> reports_failure (lu_symbolic_factor_solve1_log False)"
    by (simp add: log_defs)
  have tl: "compute_trace_tail False s = []" for s by (simp add: compute_trace_tail_def)
  have st: "fst (compute False t wi calc m vcs cv ''Taucs::lu_symbolic'' ctx) < 0 \<longleftrightarrow>
      fst (linsolve t (fst (general_system (calc_weight wi calc) (snd (classify m vcs)) (fst (classify m vcs)) vcs cv))
                       (snd (general_system (calc_weight wi calc) (snd (classify m vcs)) (fst (classify m vcs)) vcs cv)))
        \<noteq> TAUCS_SUCCESS"
    by (simp add: compute_unfold dispatch_lu_symbolic lu_symbolic_factor_solve1_result Let_def)
  show ?thesis
    using q by (simp add: compute_log_lu_symbolic tl st compute_stdout_lu_symbolic
        lu_symbolic_factor_solve1_stdout_nonempty)
qed


theorem compute_lu_failure_unlogged_witness:
  "fst (compute False failing_taucs uniform_impl (Calculator 2) triangle_mesh triangle_constraints []
          ''Taucs::lu_symbolic'' empty_ctx) < 0 \<and>
   compute_stdout False failing_taucs uniform_impl (Calculator 2) triangle_mesh triangle_constraints []
     ''Taucs::lu_symbolic'' = ''Solution error.'' @ [CHR 0x0A] @ ''NOMEM error.'' \<and>
   \<not> reports_failure (compute_log True False failing_taucs uniform_impl (Calculator 2) triangle_mesh
        triangle_constraints [] ''Taucs::lu_symbolic'' empty_ctx)"
proof -
  have s: "compute_stdout False failing_taucs uniform_impl (Calculator 2) triangle_mesh triangle_constraints []
     ''Taucs::lu_symbolic'' = ''Solution error.'' @ [CHR 0x0A] @ ''NOMEM error.''"
    by (simp add: compute_stdout_lu_symbolic lu_symbolic_factor_solve1_stdout_def failing_taucs_def
        TAUCS_SUCCESS_def TAUCS_ERROR_def TAUCS_ERROR_NOMEM_def TAUCS_ERROR_BADARGS_def
        TAUCS_ERROR_MAXDEPTH_def TAUCS_ERROR_INDEFINITE_def)
  show ?thesis
    using compute_lu_failure_unlogged[of True failing_taucs uniform_impl "Calculator 2" triangle_mesh
        triangle_constraints "[]" empty_ctx] s by simp
qed
end
