(* ===== verification/Point.thy ===== *)
theory Point
  imports Prelude
begin

text \<open>
  \<open>Go::Point\<close> of \<open>gotools_core/Point.h\<close>: a run-time sized vector of doubles
  with value semantics. Its observable value is the sequence
  \<open>pstart_[0 .. n_)\<close>, modelled as a list of reals whose length is \<open>n_\<close>; the
  \<open>owns_\<close> flag decides only who frees the buffer and appears where an operation
  reads it (\<open>setToCrossProd\<close>). The release build is modelled: \<open>DEBUG_ERROR_IF\<close>
  compiles to nothing, so the dimension checks it carries are hypotheses of the
  lemmas, and a loop over \<open>i < n_\<close> reads the other operand at the same indices.
  Memory freshly allocated by \<open>new double[d]\<close> is indeterminate: \<open>indet d\<close>.
\<close>

type_synonym point = "real list"

subsection \<open>Construction and assignment\<close>

definition indet :: "nat \<Rightarrow> point" where
  "indet d = replicate d undefined"

definition point2 :: "real \<Rightarrow> real \<Rightarrow> point" where
  "point2 x y = [x, y]"

definition point3 :: "real \<Rightarrow> real \<Rightarrow> real \<Rightarrow> point" where
  "point3 x y z = [x, y, z]"

definition resize :: "nat \<Rightarrow> point \<Rightarrow> point" where
  "resize d p = (if length p < d then indet d else take d p)"

definition setValue2 :: "real \<Rightarrow> real \<Rightarrow> point \<Rightarrow> point" where
  "setValue2 x y p = (resize 2 p)[0 := x, 1 := y]"

definition setValue3 :: "real \<Rightarrow> real \<Rightarrow> real \<Rightarrow> point \<Rightarrow> point" where
  "setValue3 x y z p = (resize 3 p)[0 := x, 1 := y, 2 := z]"

definition setValue_array :: "(nat \<Rightarrow> real) \<Rightarrow> point \<Rightarrow> point" where
  "setValue_array arr p = map arr [0..<length p]"

definition setValue_const :: "real \<Rightarrow> point \<Rightarrow> point" where
  "setValue_const val p = map (\<lambda>_. val) p"

definition resetValue :: "nat \<Rightarrow> real \<Rightarrow> point \<Rightarrow> point" where
  "resetValue idx val p = p[idx := val]"

subsection \<open>Norms and distances\<close>

definition length2 :: "point \<Rightarrow> real" where
  "length2 p = foldl (\<lambda>l2 x. l2 + x * x) 0 p"

definition point_length :: "point \<Rightarrow> real" where
  "point_length p = sqrt (length2 p)"

definition lengthInf :: "point \<Rightarrow> real" where
  "lengthInf p = foldl (\<lambda>linf x. max linf \<bar>x\<bar>) 0 p"

definition dist2 :: "point \<Rightarrow> point \<Rightarrow> real" where
  "dist2 p v = foldl (\<lambda>l2 i. let d = p ! i - v ! i in l2 + d * d) 0 [0..<length p]"

definition point_dist :: "point \<Rightarrow> point \<Rightarrow> real" where
  "point_dist p v = sqrt (dist2 p v)"

definition distInf :: "point \<Rightarrow> point \<Rightarrow> real" where
  "distInf p v = foldl (\<lambda>linf i. let d = p ! i - v ! i in max linf \<bar>d\<bar>) 0 [0..<length p]"

subsection \<open>Vector algebra\<close>

definition point_add :: "point \<Rightarrow> point \<Rightarrow> point" where
  "point_add p v = map (\<lambda>i. p ! i + v ! i) [0..<length p]"

definition point_sub :: "point \<Rightarrow> point \<Rightarrow> point" where
  "point_sub p v = map (\<lambda>i. p ! i - v ! i) [0..<length p]"

definition point_scale :: "point \<Rightarrow> real \<Rightarrow> point" where
  "point_scale p d = map (\<lambda>x. x * d) p"

definition point_div :: "point \<Rightarrow> real \<Rightarrow> point" where
  "point_div p d = map (\<lambda>x. x / d) p"

definition point_neg :: "point \<Rightarrow> point" where
  "point_neg p = map (\<lambda>x. - x) p"

definition scale_point :: "real \<Rightarrow> point \<Rightarrow> point" where
  "scale_point d p = point_scale p d"

definition point_dot :: "point \<Rightarrow> point \<Rightarrow> real" where
  "point_dot p v = foldl (\<lambda>res i. res + p ! i * v ! i) 0 [0..<length p]"

definition point_cross :: "point \<Rightarrow> point \<Rightarrow> point" where
  "point_cross p v =
     point3 (p ! 1 * v ! 2 - p ! 2 * v ! 1)
            (p ! 2 * v ! 0 - p ! 0 * v ! 2)
            (p ! 0 * v ! 1 - p ! 1 * v ! 0)"

text \<open>\<open>setToCrossProd\<close> reuses its own buffer when it owns one large enough and
  otherwise swaps in a fresh owned buffer of dimension 3; the result is the pair
  of the new \<open>owns_\<close> flag and the new value.\<close>

definition setToCrossProd :: "bool \<Rightarrow> point \<Rightarrow> point \<Rightarrow> point \<Rightarrow> bool \<times> point" where
  "setToCrossProd owns p u v =
     (let have_already = owns \<and> length v \<le> length p;
          q = (if \<not> have_already then indet 3 else take 3 p)
      in (if \<not> have_already then True else owns,
          q[0 := u ! 1 * v ! 2 - u ! 2 * v ! 1,
            1 := u ! 2 * v ! 0 - u ! 0 * v ! 2,
            2 := u ! 0 * v ! 1 - u ! 1 * v ! 0]))"

definition normalize_checked :: "point \<Rightarrow> real \<times> point" where
  "normalize_checked p =
     (let tl = point_length p in
      if tl < 1 / 1000000000000 then (0, p) else (tl, point_div p tl))"

definition point_normalize :: "point \<Rightarrow> point option" where
  "point_normalize p =
     (let tl = point_length p in
      if tl = 0 then None else Some (point_div p tl))"

definition cosAngle :: "point \<Rightarrow> point \<Rightarrow> real" where
  "cosAngle p v =
     (let tl1 = point_length p; tl2 = point_length v in
      if tl1 * tl2 = 0 then 0
      else let res = point_dot p v / (tl1 * tl2) in min 1 (max (-1) res))"

definition angle :: "point \<Rightarrow> point \<Rightarrow> real" where
  "angle p v = arccos (cosAngle p v)"

definition angle_smallest :: "point \<Rightarrow> point \<Rightarrow> real" where
  "angle_smallest p v =
     (let tl1 = point_length p; tl2 = point_length v;
          tcos = \<bar>point_dot p v / (tl1 * tl2)\<bar>
      in arccos (min 1 tcos))"

subsection \<open>Lexicographic order\<close>

text \<open>\<open>operator<\<close> compares from the last coordinate down to the first.\<close>

fun less_from :: "point \<Rightarrow> point \<Rightarrow> nat \<Rightarrow> bool" where
  "less_from p1 p2 0 = False"
| "less_from p1 p2 (Suc i) =
     (if p1 ! i > p2 ! i then False
      else if p1 ! i < p2 ! i then True
      else less_from p1 p2 i)"

definition point_less :: "point \<Rightarrow> point \<Rightarrow> bool" where
  "point_less p1 p2 = less_from p1 p2 (length p1)"

subsection \<open>Sums and norms\<close>

lemma sum_list_map_nth: "sum_list (map f xs) = (\<Sum>i<length xs. f (xs ! i))"
  by (simp add: sum_list_sum_nth atLeast0LessThan)

lemma length2_sum: "length2 p = (\<Sum>i<length p. p ! i * p ! i)"
  by (simp add: length2_def foldl_add_sum_list sum_list_map_nth)

lemma point_dot_sum: "point_dot p v = (\<Sum>i<length p. p ! i * v ! i)"
  by (simp add: point_dot_def foldl_add_upt_sum)

lemma dist2_sum: "dist2 p v = (\<Sum>i<length p. (p ! i - v ! i) * (p ! i - v ! i))"
  by (simp add: dist2_def Let_def foldl_add_upt_sum)

lemma length2_nonneg: "0 \<le> length2 p"
  by (simp add: length2_sum sum_nonneg)

lemma point_length_sq: "point_length p * point_length p = length2 p"
  by (simp add: point_length_def length2_nonneg)

lemma length_point_sub [simp]: "length (point_sub p v) = length p"
  by (simp add: point_sub_def)

lemma length_point_div [simp]: "length (point_div p d) = length p"
  by (simp add: point_div_def)

lemma dist2_length2_sub: "dist2 p v = length2 (point_sub p v)"
  by (simp add: dist2_sum length2_sum point_sub_def)

lemma dist2_sym: "length p = length v \<Longrightarrow> dist2 p v = dist2 v p"
  by (simp add: dist2_sum algebra_simps)

lemma point_dot_cauchy:
  assumes "length p = length v"
  shows "\<bar>point_dot p v\<bar> \<le> point_length p * point_length v"
proof -
  have "(point_dot p v)\<^sup>2 \<le> length2 p * length2 v"
    using sum_cauchy_schwarz[of "\<lambda>i. p ! i" "\<lambda>i. v ! i" "length p"] assms
    by (simp add: point_dot_sum length2_sum)
  then have "sqrt ((point_dot p v)\<^sup>2) \<le> sqrt (length2 p * length2 v)"
    using real_sqrt_le_mono by blast
  then show ?thesis by (simp add: point_length_def real_sqrt_mult)
qed

lemma point_length_nonneg: "0 \<le> point_length p"
  by (simp add: point_length_def length2_nonneg)

lemma length2_div: "length2 (point_div p d) = length2 p / (d * d)"
  by (simp add: length2_sum point_div_def sum_divide_distrib)

lemma point_div_length_unit:
  assumes "0 < point_length p"
  shows "length2 (point_div p (point_length p)) = 1"
    and "point_scale (point_div p (point_length p)) (point_length p) = p"
proof -
  have sq: "point_length p * point_length p = length2 p" by (rule point_length_sq)
  have "length2 p \<noteq> 0" using assms sq by (metis mult_eq_0_iff less_irrefl)
  then show "length2 (point_div p (point_length p)) = 1" by (simp add: length2_div sq)
  show "point_scale (point_div p (point_length p)) (point_length p) = p"
    using assms by (simp add: point_scale_def point_div_def comp_def map_idI)
qed

lemma length2_eq_0_iff: "length2 p = 0 \<longleftrightarrow> list_all (\<lambda>x. x = 0) p"
proof -
  have "sum_list (map (\<lambda>x. x * x) p) = 0 \<longleftrightarrow> (\<forall>y\<in>set (map (\<lambda>x. x * x) p). y = 0)"
    by (rule sum_list_nonneg_eq_0_iff) auto
  then show ?thesis by (simp add: length2_def foldl_add_sum_list list_all_iff)
qed

lemma point_length_eq_0_iff: "point_length p = 0 \<longleftrightarrow> list_all (\<lambda>x. x = 0) p"
  by (simp add: point_length_def length2_eq_0_iff)

lemma point_normalize_None: "point_normalize p = None \<longleftrightarrow> list_all (\<lambda>x. x = 0) p"
  by (simp add: point_normalize_def Let_def point_length_eq_0_iff)

lemma point_normalize_unit:
  assumes "point_normalize p = Some q"
  shows "length2 q = 1 \<and> point_scale q (point_length p) = p"
proof -
  have "point_length p \<noteq> 0" and q: "q = point_div p (point_length p)"
    using assms by (auto simp: point_normalize_def Let_def split: if_splits)
  then have "0 < point_length p" using point_length_nonneg[of p] by linarith
  then show ?thesis using point_div_length_unit q by simp
qed

lemma point_normalize_checked:
  "1 / 1000000000000 \<le> point_length p \<Longrightarrow>
   point_normalize p = Some (snd (normalize_checked p))"
  by (simp add: point_normalize_def normalize_checked_def Let_def)

lemma less_from_irrefl: "\<not> less_from p p i"
  by (induction i) simp_all

lemma less_from_asym: "less_from a b i \<Longrightarrow> \<not> less_from b a i"
  by (induction i) (auto split: if_splits)

lemma less_from_trans: "less_from a b i \<Longrightarrow> less_from b c i \<Longrightarrow> less_from a c i"
  by (induction i) (auto split: if_splits)

lemma less_from_total:
  "less_from a b i \<or> less_from b a i \<or> (\<forall>j<i. a ! j = b ! j)"
proof (induction i)
  case 0
  then show ?case by simp
next
  case (Suc i)
  then show ?case by (auto simp: less_Suc_eq)
qed


lemma lengthInf_bounds:
  "0 \<le> lengthInf p \<and> (\<forall>x\<in>set p. \<bar>x\<bar> \<le> lengthInf p) \<and>
   (lengthInf p = 0 \<or> (\<exists>x\<in>set p. lengthInf p = \<bar>x\<bar>))"
  using foldl_max_bounds[of 0 abs p] by (simp add: lengthInf_def)

lemma abs_le_point_length: "x \<in> set p \<Longrightarrow> \<bar>x\<bar> \<le> point_length p"
proof -
  assume x: "x \<in> set p"
  have "x * x \<le> sum_list (map (\<lambda>x. x * x) p)"
    by (rule member_le_sum_list) (use x in auto)
  then have "x * x \<le> length2 p" by (simp add: length2_def foldl_add_sum_list)
  then have "sqrt (x * x) \<le> sqrt (length2 p)" using real_sqrt_le_mono by blast
  then show ?thesis by (simp add: point_length_def)
qed

lemma list_update2: "length q = 2 \<Longrightarrow> q[0 := x, 1 := y] = [x, y]"
  by (cases q rule: list.exhaust[case_product list.exhaust]) (auto simp: numeral_2_eq_2 length_Suc_conv)

lemma list_update3: "length q = 3 \<Longrightarrow> q[0 := x, 1 := y, 2 := z] = [x, y, z]"
  by (auto simp: numeral_3_eq_3 length_Suc_conv)

lemma length_resize [simp]: "length (resize d p) = d"
  by (simp add: resize_def indet_def)

lemma length3_cases:
  assumes "length u = 3"
  obtains a b c where "u = [a, b, c]"
  using assms by (auto simp: numeral_3_eq_3 length_Suc_conv)

lemma distInf_lengthInf: "distInf p v = lengthInf (point_sub p v)"
  by (simp add: distInf_def lengthInf_def point_sub_def foldl_map Let_def)

lemma dot_quotient_bounds:
  assumes "length p = length v"
    and "point_length p * point_length v \<noteq> 0"
  shows "-1 \<le> point_dot p v / (point_length p * point_length v) \<and>
         point_dot p v / (point_length p * point_length v) \<le> 1"
proof -
  let ?L = "point_length p * point_length v"
  have cs: "\<bar>point_dot p v\<bar> \<le> ?L" using point_dot_cauchy[OF assms(1)] .
  have pos: "0 < ?L"
    using point_length_nonneg[of p] point_length_nonneg[of v] assms(2) by (simp add: less_le)
  have "\<bar>point_dot p v / ?L\<bar> \<le> 1"
    using cs pos by (simp add: abs_divide)
  then show ?thesis by (metis abs_le_iff minus_le_iff)
qed

subsection \<open>Properties of Go::Point\<close>



text \<open>
  (C22) \<open>angle_smallest\<close> is the smaller of the angle between the two vectors and
  its supplement, for two non-zero vectors of the same dimension.
\<close>

theorem angle_smallest_min:
  assumes "length p = length v" and "point_length p * point_length v \<noteq> 0"
  shows "angle_smallest p v = min (angle p v) (pi - angle p v)"
proof -
  let ?c = "cosAngle p v"
  have c: "-1 \<le> ?c" "?c \<le> 1" "?c = point_dot p v / (point_length p * point_length v)"
    using dot_quotient_bounds[OF assms] by (auto simp: cosAngle_def Let_def)
  have as: "angle_smallest p v = arccos \<bar>?c\<bar>"
    using c by (simp add: angle_smallest_def Let_def)
  show ?thesis
  proof (cases "0 \<le> ?c")
    case True
    then have "arccos ?c \<le> arccos 0" using c by (intro arccos_le_arccos) auto
    then show ?thesis using True by (simp add: as angle_def)
  next
    case False
    then have "arccos 0 \<le> arccos ?c" using c by (intro arccos_le_arccos) auto
    moreover have "arccos (- ?c) = pi - arccos ?c" using c by (intro arccos_minus) auto
    ultimately show ?thesis using False by (simp add: as angle_def)
  qed
qed

theorem angle_smallest_min_witness:
  "length [1, 0] = length [-1, (0::real)] \<and>
   point_length [1, 0] * point_length [-1, (0::real)] \<noteq> 0 \<and>
   angle_smallest [1, 0] [-1, 0] = min (angle [1, 0] [-1, 0]) (pi - angle [1, 0] [-1, 0])"
  using angle_smallest_min[of "[1, 0]" "[-1, 0]"]
  by (simp add: point_length_def length2_def)



text \<open>
  (C24) \<open>normalize_checked\<close> leaves a vector shorter than 1e-12 alone and returns 0;
  otherwise it returns the length and leaves a unit vector that, scaled by that
  length, gives the original vector back. \<open>normalize()\<close> fails (a zero division,
  NaN in a release build) exactly on the zero vector, and above the threshold of
  \<open>normalize_checked\<close> the two routines leave the same vector.
\<close>

theorem normalize_checked_unit:
  "(point_length p < 1 / 1000000000000 \<longrightarrow> normalize_checked p = (0, p)) \<and>
   (1 / 1000000000000 \<le> point_length p \<longrightarrow>
      fst (normalize_checked p) = point_length p \<and>
      length2 (snd (normalize_checked p)) = 1 \<and>
      point_scale (snd (normalize_checked p)) (point_length p) = p \<and>
      point_normalize p = Some (snd (normalize_checked p))) \<and>
   (point_normalize p = None \<longleftrightarrow> list_all (\<lambda>x. x = 0) p)"
proof (intro conjI impI)
  assume "point_length p < 1 / 1000000000000"
  then show "normalize_checked p = (0, p)" by (simp add: normalize_checked_def)
next
  assume big: "1 / 1000000000000 \<le> point_length p"
  then have pos: "0 < point_length p" by linarith
  have nc: "normalize_checked p = (point_length p, point_div p (point_length p))"
    using big by (simp add: normalize_checked_def Let_def)
  show "fst (normalize_checked p) = point_length p" by (simp add: nc)
  show "length2 (snd (normalize_checked p)) = 1" using point_div_length_unit(1)[OF pos] by (simp add: nc)
  show "point_scale (snd (normalize_checked p)) (point_length p) = p"
    using point_div_length_unit(2)[OF pos] by (simp add: nc)
  show "point_normalize p = Some (snd (normalize_checked p))"
    using big by (rule point_normalize_checked)
next
  show "point_normalize p = None \<longleftrightarrow> list_all (\<lambda>x. x = 0) p" by (rule point_normalize_None)
qed

theorem normalize_checked_unit_witness:
  "fst (normalize_checked [1, 0]) = 1 \<and> normalize_checked [0, 0] = (0, [0, 0]) \<and>
   point_normalize [1, 0] = Some [1, 0] \<and> point_normalize [0, 0] = None"
  using normalize_checked_unit[of "[1, 0]"] normalize_checked_unit[of "[0, 0]"]
  by (simp add: point_length_def length2_def normalize_checked_def point_div_def)

text \<open>
  (C25) Distances: \<open>dist\<close> is the length of the difference, it is symmetric,
  \<open>distInf\<close> is the maximum norm of the difference, and the distance is zero
  exactly for equal points, for points of the same dimension.
\<close>

theorem dist_metric:
  assumes "length p = length v"
  shows "point_dist p v = point_length (point_sub p v) \<and> point_dist p v = point_dist v p \<and>
         distInf p v = lengthInf (point_sub p v) \<and> (point_dist p v = 0 \<longleftrightarrow> p = v)"
proof -
  have "dist2 p v = 0 \<longleftrightarrow> (\<forall>i<length p. (p ! i - v ! i) * (p ! i - v ! i) = 0)"
    by (auto simp: dist2_sum sum_nonneg_eq_0_iff)
  also have "\<dots> \<longleftrightarrow> p = v" using assms by (auto simp: list_eq_iff_nth_eq)
  finally have z: "dist2 p v = 0 \<longleftrightarrow> p = v" .
  show ?thesis
    using z dist2_sym[OF assms]
    by (simp add: point_dist_def point_length_def dist2_length2_sub distInf_lengthInf)
qed

theorem dist_metric_witness:
  "length [1, 2] = length [1, (2::real)] \<and> point_dist [1, 2] [1, (2::real)] = 0"
  using dist_metric[of "[1, 2]" "[1, 2]"] by simp

text \<open>
  (C26) \<open>operator<\<close>, comparing from the last coordinate down, is a strict total
  order on the points of one dimension: irreflexive, asymmetric, transitive, and
  any two distinct points are comparable.
\<close>

theorem point_less_strict_order:
  assumes "length a = length b" and "length b = length c"
  shows "\<not> point_less a a \<and> (point_less a b \<longrightarrow> \<not> point_less b a) \<and>
         (point_less a b \<and> point_less b c \<longrightarrow> point_less a c) \<and>
         (point_less a b \<or> a = b \<or> point_less b a)"
proof (intro conjI impI)
  show "\<not> point_less a a" by (simp add: point_less_def less_from_irrefl)
  show "point_less a b \<Longrightarrow> \<not> point_less b a"
    using assms(1) less_from_asym by (simp add: point_less_def)
  show "point_less a b \<and> point_less b c \<Longrightarrow> point_less a c"
    using assms less_from_trans[of a b "length a" c] by (simp add: point_less_def)
  have "(\<forall>j<length a. a ! j = b ! j) \<Longrightarrow> a = b"
    using assms(1) by (simp add: list_eq_iff_nth_eq)
  then show "point_less a b \<or> a = b \<or> point_less b a"
    using less_from_total[of a b "length a"] assms(1) by (auto simp: point_less_def)
qed

theorem point_less_strict_order_witness:
  "length [3, 1] = length [1, (2::real)] \<and> length [1, 2] = length [0, (5::real)] \<and>
   point_less [3, 1] [0, (5::real)]"
  using point_less_strict_order[of "[3, 1]" "[1, 2]" "[0, 5]"]
  by (simp add: point_less_def)

text \<open>
  (C27) The maximum norm \<open>lengthInf\<close> bounds every coordinate, is at most the
  Euclidean length, and the length is at most \<open>sqrt n\<close> times it.
\<close>

theorem lengthInf_norm_bounds:
  "(\<forall>i<length p. \<bar>p ! i\<bar> \<le> lengthInf p) \<and>
   lengthInf p \<le> point_length p \<and>
   point_length p \<le> sqrt (real (length p)) * lengthInf p"
proof -
  note b = lengthInf_bounds[of p]
  have le: "lengthInf p \<le> point_length p"
    using b abs_le_point_length[of _ p] by (auto simp: point_length_def length2_nonneg)
  have sq: "length2 p \<le> real (length p) * (lengthInf p * lengthInf p)"
  proof -
    have "\<forall>i<length p. p ! i * p ! i \<le> lengthInf p * lengthInf p"
      using b by (metis abs_mult_self_eq abs_ge_zero mult_mono nth_mem)
    then have "(\<Sum>i<length p. p ! i * p ! i) \<le> (\<Sum>i<length p. lengthInf p * lengthInf p)"
      by (intro sum_mono) simp
    then show ?thesis by (simp add: length2_sum)
  qed
  then have "sqrt (length2 p) \<le> sqrt (real (length p) * (lengthInf p * lengthInf p))"
    using real_sqrt_le_mono by blast
  then have "point_length p \<le> sqrt (real (length p)) * lengthInf p"
    using b by (simp add: point_length_def real_sqrt_mult)
  then show ?thesis using b le by auto
qed

theorem lengthInf_norm_bounds_witness:
  "4 \<le> lengthInf [3, -4 :: real] \<and> lengthInf [3, -4 :: real] \<le> point_length [3, -4]"
proof -
  note b = lengthInf_norm_bounds[of "[3, -4 :: real]"]
  have "\<bar>[3, -4 :: real] ! Suc 0\<bar> \<le> lengthInf [3, -4 :: real]"
    using conjunct1[OF b] by (simp add: less_Suc_eq)
  then show ?thesis using b by simp
qed

text \<open>
  \<open>setValue(x, y)\<close> and \<open>setValue(x, y, z)\<close> give exactly the point
  (x, y) and (x, y, z) from any previous value: \<open>resize\<close> both when it reallocates
  and when it truncates leaves a buffer of the requested dimension.
\<close>

theorem setValue_resize: "setValue2 x y p = [x, y] \<and> setValue3 x y z p = [x, y, z]"
  using list_update2[of "resize 2 p" x y] list_update3[of "resize 3 p" x y z]
  by (simp add: setValue2_def setValue3_def)

subsection \<open>Order, round trips and dimensions\<close>

lemma less_from_lexord:
  "i \<le> length p1 \<Longrightarrow> i \<le> length p2 \<Longrightarrow>
   less_from p1 p2 i \<longleftrightarrow> (rev (take i p1), rev (take i p2)) \<in> lexord {(u, v). u < v}"
  by (induction i) (auto simp: take_Suc_conv_app_nth)

lemma point_add_sub_cancel: "length p = length v \<Longrightarrow> point_sub (point_add p v) v = p"
  by (rule nth_equalityI) (simp_all add: point_sub_def point_add_def)

lemma point_sub_add_cancel: "length p = length v \<Longrightarrow> point_add (point_sub p v) v = p"
  by (rule nth_equalityI) (simp_all add: point_sub_def point_add_def)

lemma point_neg_neg: "point_neg (point_neg p) = p"
  by (simp add: point_neg_def comp_def)

lemma point_scale_div_cancel:
  "d \<noteq> 0 \<Longrightarrow> point_div (point_scale p d) d = p \<and> point_scale (point_div p d) d = p"
  by (simp add: point_div_def point_scale_def comp_def)

text \<open>
  (C35) \<open>operator<\<close> is the lexicographic order of the coordinate sequences read
  from the last coordinate to the first, for points of one dimension.
\<close>

theorem point_less_lexord:
  assumes "length p1 = length p2"
  shows "point_less p1 p2 \<longleftrightarrow> (rev p1, rev p2) \<in> lexord {(u, v). u < v}"
  using less_from_lexord[of "length p1" p1 p2] assms by (simp add: point_less_def)

theorem point_less_lexord_witness:
  "length [3, 1] = length [1, (2::real)] \<and> point_less [3, 1] [1, (2::real)] \<and>
   ([1, 3], [2, (1::real)]) \<in> lexord {(u, v). u < v}"
  using point_less_lexord[of "[3, 1]" "[1, 2]"] by (simp add: point_less_def)




end
