(* ===== verification/PointStore.thy ===== *)
theory PointStore
  imports Point
begin

text \<open>
  The buffer management of \<open>Go::Point\<close> (\<open>Point.h\<close> lines 56-215). A point is the
  triple of its members \<open>pstart_\<close>, \<open>n_\<close> and \<open>owns_\<close> (fields \<open>pstart\<close>,
  \<open>ndim\<close>, \<open>owns\<close>); the doubles live in a store
  of cells addressed by natural numbers, with address 0 the null pointer. The store
  records the live blocks of \<open>new double[]\<close> and a bump allocator \<open>brk\<close> that hands
  out fresh addresses; freed blocks are not reused, which is one of the behaviours
  an allocator may have. \<open>delete[]\<close> of a pointer that is not the base of a live
  block (a double or invalid free) is undefined behaviour, the value \<open>None\<close>;
  \<open>delete[]\<close> of null does nothing. Memory returned by \<open>new\<close> keeps whatever its
  cells held: its contents are indeterminate.
\<close>

type_synonym addr = nat

record store =
  cells :: "addr \<Rightarrow> real"
  blocks :: "(addr \<times> nat) list"
  brk :: addr

record gpoint =
  pstart :: addr
  ndim :: nat
  owns :: bool

subsection \<open>The store\<close>

definition new_array :: "nat \<Rightarrow> store \<Rightarrow> addr \<times> store" where
  "new_array d s = (brk s, s\<lparr>blocks := (brk s, d) # blocks s, brk := brk s + Suc d\<rparr>)"

definition delete_array :: "addr \<Rightarrow> store \<Rightarrow> store option" where
  "delete_array a s =
     (if a = 0 then Some s
      else if a \<in> fst ` set (blocks s) then Some (s\<lparr>blocks := filter (\<lambda>b. fst b \<noteq> a) (blocks s)\<rparr>)
      else None)"

definition read_range :: "addr \<Rightarrow> nat \<Rightarrow> store \<Rightarrow> real list" where
  "read_range a k s = map (\<lambda>i. cells s (a + i)) [0..<k]"

definition write_range :: "addr \<Rightarrow> real list \<Rightarrow> store \<Rightarrow> store" where
  "write_range a xs s =
     s\<lparr>cells := (\<lambda>x. if a \<le> x \<and> x < a + length xs then xs ! (x - a) else cells s x)\<rparr>"

definition pvalue :: "gpoint \<Rightarrow> store \<Rightarrow> point" where
  "pvalue p s = read_range (pstart p) (ndim p) s"

subsection \<open>Construction, copy, assignment and destruction\<close>

definition Point_default :: "store \<Rightarrow> gpoint \<times> store" where
  "Point_default s = (\<lparr>pstart = 0, ndim = 0, owns = True\<rparr>, s)"

definition Point_dim :: "nat \<Rightarrow> store \<Rightarrow> gpoint \<times> store" where
  "Point_dim d s = (let (a, s1) = new_array d s in (\<lparr>pstart = a, ndim = d, owns = True\<rparr>, s1))"

definition Point_xy :: "real \<Rightarrow> real \<Rightarrow> store \<Rightarrow> gpoint \<times> store" where
  "Point_xy x y s =
     (let (a, s1) = new_array 2 s in (\<lparr>pstart = a, ndim = 2, owns = True\<rparr>, write_range a [x, y] s1))"

definition Point_xyz :: "real \<Rightarrow> real \<Rightarrow> real \<Rightarrow> store \<Rightarrow> gpoint \<times> store" where
  "Point_xyz x y z s =
     (let (a, s1) = new_array 3 s in (\<lparr>pstart = a, ndim = 3, owns = True\<rparr>, write_range a [x, y, z] s1))"

text \<open>The constructors from an \<open>Array<T, Dim>\<close> and from an iterator range copy a
  sequence of values into a fresh buffer.\<close>

definition Point_range :: "real list \<Rightarrow> store \<Rightarrow> gpoint \<times> store" where
  "Point_range xs s =
     (let (a, s1) = new_array (length xs) s
      in (\<lparr>pstart = a, ndim = length xs, owns = True\<rparr>, write_range a xs s1))"

definition Point_view :: "addr \<Rightarrow> addr \<Rightarrow> bool \<Rightarrow> store \<Rightarrow> gpoint \<times> store" where
  "Point_view b e own s =
     (if own
      then (let (a, s1) = new_array (e - b) s
            in (\<lparr>pstart = a, ndim = e - b, owns = True\<rparr>, write_range a (read_range b (e - b) s) s1))
      else (\<lparr>pstart = b, ndim = e - b, owns = False\<rparr>, s))"

definition Point_copy :: "gpoint \<Rightarrow> store \<Rightarrow> gpoint \<times> store" where
  "Point_copy v s =
     (let (a, s1) = new_array (ndim v) s
      in (\<lparr>pstart = a, ndim = ndim v, owns = True\<rparr>,
          write_range a (read_range (pstart v) (ndim v) s) s1))"

definition Point_destroy :: "gpoint \<Rightarrow> store \<Rightarrow> store option" where
  "Point_destroy p s = (if owns p then delete_array (pstart p) s else Some s)"

definition Point_swap :: "gpoint \<Rightarrow> gpoint \<Rightarrow> gpoint \<times> gpoint" where
  "Point_swap this other =
     (this\<lparr>pstart := pstart other, ndim := ndim other, owns := owns other\<rparr>,
      other\<lparr>pstart := pstart this, ndim := ndim this, owns := owns this\<rparr>)"

text \<open>\<open>operator=\<close> is copy-and-swap: the copy \<open>temp\<close> takes the old buffer of
  \<open>this\<close> and frees it when it goes out of scope.\<close>

definition Point_assign :: "gpoint \<Rightarrow> gpoint \<Rightarrow> store \<Rightarrow> (gpoint \<times> store) option" where
  "Point_assign this v s =
     (let (temp, s1) = Point_copy v s;
          (this', temp') = Point_swap this temp
      in map_option (\<lambda>s2. (this', s2)) (Point_destroy temp' s1))"

subsection \<open>Element access, size and resizing\<close>

definition Point_get :: "gpoint \<Rightarrow> nat \<Rightarrow> store \<Rightarrow> real" where
  "Point_get p i s = cells s (pstart p + i)"

definition Point_set :: "gpoint \<Rightarrow> nat \<Rightarrow> real \<Rightarrow> store \<Rightarrow> store" where
  "Point_set p i x s = s\<lparr>cells := (cells s)(pstart p + i := x)\<rparr>"

definition Point_begin :: "gpoint \<Rightarrow> addr" where
  "Point_begin p = pstart p"

definition Point_end :: "gpoint \<Rightarrow> addr" where
  "Point_end p = pstart p + ndim p"

definition Point_size :: "gpoint \<Rightarrow> nat" where
  "Point_size p = ndim p"

definition Point_resize :: "nat \<Rightarrow> gpoint \<Rightarrow> store \<Rightarrow> (gpoint \<times> store) option" where
  "Point_resize d p s =
     (if ndim p < d
      then (let (temp, s1) = Point_dim d s;
                (p', temp') = Point_swap p temp
            in map_option (\<lambda>s2. (p', s2)) (Point_destroy temp' s1))
      else Some (p\<lparr>ndim := d\<rparr>, s))"

definition Point_setValue3 :: "real \<Rightarrow> real \<Rightarrow> real \<Rightarrow> gpoint \<Rightarrow> store \<Rightarrow> (gpoint \<times> store) option" where
  "Point_setValue3 x y z p s =
     map_option (\<lambda>(p', s1). (p', Point_set p' 2 z (Point_set p' 1 y (Point_set p' 0 x s1))))
       (Point_resize 3 p s)"

text \<open>\<open>operator+=\<close> updates the cells one index after the other, reading the
  operand's cell at each step from the store as it is at that step.\<close>

fun add_loop :: "gpoint \<Rightarrow> gpoint \<Rightarrow> nat list \<Rightarrow> store \<Rightarrow> store" where
  "add_loop p v [] s = s"
| "add_loop p v (i # is) s =
     add_loop p v is (Point_set p i (Point_get p i s + Point_get v i s) s)"

definition Point_add_assign :: "gpoint \<Rightarrow> gpoint \<Rightarrow> store \<Rightarrow> store" where
  "Point_add_assign p v s = add_loop p v [0..<ndim p] s"

subsection \<open>Well-formed stores\<close>

text \<open>Every live block lies below the allocator and above null, and no two live
  blocks share a base; an owning point either is the empty default point or owns a
  live block at least as large as its dimension.\<close>

definition store_wf :: "store \<Rightarrow> bool" where
  "store_wf s \<longleftrightarrow> 0 < brk s \<and> list_all (\<lambda>b. 0 < fst b \<and> fst b + snd b < brk s) (blocks s) \<and>
     distinct (map fst (blocks s))"

definition point_ok :: "gpoint \<Rightarrow> store \<Rightarrow> bool" where
  "point_ok p s \<longleftrightarrow>
     (owns p \<longrightarrow> (pstart p = 0 \<and> ndim p = 0) \<or>
        list_ex (\<lambda>b. fst b = pstart p \<and> ndim p \<le> snd b) (blocks s))"

definition empty_store :: store where
  "empty_store = \<lparr>cells = (\<lambda>_. 0), blocks = [], brk = 1\<rparr>"

subsection \<open>Reading and writing the store\<close>

lemma length_read_range [simp]: "length (read_range a k s) = k"
  by (simp add: read_range_def)

lemma read_write_same [simp]: "k = length xs \<Longrightarrow> read_range a k (write_range a xs s) = xs"
  by (rule nth_equalityI) (simp_all add: read_range_def write_range_def)

lemma read_write_disjoint:
  "b + k \<le> a \<or> a + length xs \<le> b \<Longrightarrow> read_range b k (write_range a xs s) = read_range b k s"
  by (auto simp: read_range_def write_range_def)

lemma read_range_set:
  "read_range b k (Point_set p i x s) =
     (if b \<le> pstart p + i \<and> pstart p + i < b + k then (read_range b k s)[pstart p + i - b := x]
      else read_range b k s)"
  by (auto simp: read_range_def Point_set_def list_eq_iff_nth_eq nth_list_update)

lemma cells_new_array [simp]: "cells (snd (new_array d s)) = cells s"
  by (simp add: new_array_def)

lemma fst_new_array [simp]: "fst (new_array d s) = brk s"
  by (simp add: new_array_def)

lemma read_range_cells: "cells s' = cells s \<Longrightarrow> read_range a k s' = read_range a k s"
  by (simp add: read_range_def)

lemma delete_array_cells: "delete_array a s = Some s' \<Longrightarrow> cells s' = cells s"
  by (auto simp: delete_array_def split: if_splits)

lemma destroy_cells: "Point_destroy p s = Some s' \<Longrightarrow> cells s' = cells s"
  by (auto simp: Point_destroy_def dest: delete_array_cells split: if_splits)

lemma Point_view_own:
  "Point_view b e True s = (\<lparr>pstart = brk s, ndim = e - b, owns = True\<rparr>,
     write_range (brk s) (read_range b (e - b) s) (snd (new_array (e - b) s)))"
  by (simp add: Point_view_def split_def Let_def)

lemma Point_view_alias:
  "Point_view b e False s = (\<lparr>pstart = b, ndim = e - b, owns = False\<rparr>, s)"
  by (simp add: Point_view_def)

lemma read_range_set_above:
  "b + k \<le> pstart p \<Longrightarrow> read_range b k (Point_set p i x s) = read_range b k s"
  by (simp add: read_range_set)

lemma view_copy_untouched:
  assumes "b \<le> e" and "e \<le> brk s"
  shows "read_range b (e - b) (Point_set (fst (Point_view b e True s)) i x (snd (Point_view b e True s))) =
         read_range b (e - b) s"
proof -
  have le: "b + (e - b) \<le> brk s" using assms by simp
  have "read_range b (e - b) (Point_set (fst (Point_view b e True s)) i x (snd (Point_view b e True s))) =
      read_range b (e - b) (write_range (brk s) (read_range b (e - b) s) (snd (new_array (e - b) s)))"
    unfolding Point_view_own fst_conv snd_conv
    by (rule read_range_set_above) (simp only: gpoint.select_convs le)
  also have "\<dots> = read_range b (e - b) (snd (new_array (e - b) s))"
    by (rule read_write_disjoint) (rule disjI1, rule le)
  also have "\<dots> = read_range b (e - b) s" by (rule read_range_cells) simp
  finally show ?thesis .
qed

subsection \<open>What each operation leaves in the store\<close>

lemma Point_copy_value: "pvalue (fst (Point_copy v s)) (snd (Point_copy v s)) = pvalue v s"
  by (simp add: Point_copy_def pvalue_def split_def Let_def)

lemma Point_assign_unfold:
  "Point_assign this v s =
     map_option (\<lambda>s2. (fst (Point_swap this (fst (Point_copy v s))), s2))
       (Point_destroy (snd (Point_swap this (fst (Point_copy v s)))) (snd (Point_copy v s)))"
  by (simp add: Point_assign_def split_def Let_def)

lemma Point_swap_eq [simp]: "Point_swap this other = (other, this)"
  by (cases this; cases other) (simp add: Point_swap_def)

lemma Point_assign_value:
  assumes "Point_assign this v s = Some (this', s')"
  shows "pvalue this' s' = pvalue v s"
proof -
  let ?c = "Point_copy v s"
  obtain s2 where d: "Point_destroy (snd (Point_swap this (fst ?c))) (snd ?c) = Some s2"
    and t: "this' = fst (Point_swap this (fst ?c))" and s': "s' = s2"
    using assms unfolding Point_assign_unfold by (cases "Point_destroy (snd (Point_swap this (fst ?c))) (snd ?c)") auto
  have "pvalue this' s' = pvalue (fst ?c) (snd ?c)"
    using read_range_cells[OF destroy_cells[OF d]] by (simp add: t s' pvalue_def)
  then show ?thesis by (simp add: Point_copy_value)
qed

lemma Point_set_value:
  "i < ndim p \<Longrightarrow> pvalue p (Point_set p i x s) = (pvalue p s)[i := x]"
  by (simp add: pvalue_def read_range_set)

lemma Point_resize_value:
  assumes "Point_resize d p s = Some (p', s')"
  shows "ndim p' = d \<and> (d \<le> ndim p \<longrightarrow> pvalue p' s' = take d (pvalue p s))"
proof (cases "ndim p < d")
  case True
  with assms show ?thesis
    by (auto simp: Point_resize_def Point_dim_def Point_swap_def split_def Let_def)
next
  case False
  with assms show ?thesis
    by (auto simp: Point_resize_def pvalue_def read_range_def take_map)
qed

lemma Point_setValue3_value:
  assumes "Point_setValue3 x y z p s = Some (p', s')"
  shows "pvalue p' s' = setValue3 x y z (pvalue p s)"
proof -
  obtain s1 where r: "Point_resize 3 p s = Some (p', s1)"
    and s': "s' = Point_set p' 2 z (Point_set p' 1 y (Point_set p' 0 x s1))"
    using assms by (auto simp: Point_setValue3_def)
  have d: "ndim p' = 3" using Point_resize_value[OF r] by simp
  have "pvalue p' s' = (((pvalue p' s1)[0 := x])[1 := y])[2 := z]"
    using d by (simp add: s' Point_set_value)
  also have "\<dots> = [x, y, z]" using d list_update3[of "pvalue p' s1" x y z] by (simp add: pvalue_def)
  finally show ?thesis
    using list_update3[of "resize 3 (pvalue p s)" x y z] by (simp add: setValue3_def)
qed

lemma Point_range_value: "pvalue (fst (Point_range xs s)) (snd (Point_range xs s)) = xs"
  by (simp add: Point_range_def pvalue_def split_def Let_def)

lemma Point_xyz_value:
  "pvalue (fst (Point_xyz x y z s)) (snd (Point_xyz x y z s)) = point3 x y z"
  "pvalue (fst (Point_xy x y s)) (snd (Point_xy x y s)) = point2 x y"
  by (simp_all add: Point_xyz_def Point_xy_def pvalue_def split_def Let_def point3_def point2_def)

subsection \<open>Allocation and release\<close>

lemma blocks_write_range [simp]: "blocks (write_range a xs s) = blocks s" "brk (write_range a xs s) = brk s"
  by (simp_all add: write_range_def)

lemma blocks_Point_set [simp]: "blocks (Point_set p i x s) = blocks s" "brk (Point_set p i x s) = brk s"
  by (simp_all add: Point_set_def)

lemma new_array_store [simp]:
  "blocks (snd (new_array d s)) = (brk s, d) # blocks s" "brk (snd (new_array d s)) = brk s + Suc d"
  by (simp_all add: new_array_def)

lemma Point_copy_fields:
  "fst (Point_copy v s) = \<lparr>pstart = brk s, ndim = ndim v, owns = True\<rparr>"
  "blocks (snd (Point_copy v s)) = (brk s, ndim v) # blocks s"
  "brk (snd (Point_copy v s)) = brk s + Suc (ndim v)"
  by (simp_all add: Point_copy_def split_def Let_def)

lemma store_wf_filter:
  "store_wf s \<Longrightarrow> store_wf (s\<lparr>blocks := filter P (blocks s)\<rparr>)"
  by (auto simp: store_wf_def list_all_iff distinct_map_filter)

lemma point_ok_base:
  "store_wf s \<Longrightarrow> point_ok p s \<Longrightarrow> owns p \<Longrightarrow> pstart p \<noteq> 0 \<Longrightarrow>
   pstart p \<in> fst ` set (blocks s) \<and> pstart p < brk s"
  by (auto simp: point_ok_def store_wf_def list_ex_iff list_all_iff intro: rev_image_eqI)

lemma delete_live:
  assumes "a \<noteq> 0" and "a \<in> fst ` set (blocks s)"
  shows "delete_array a s = Some (s\<lparr>blocks := filter (\<lambda>b. fst b \<noteq> a) (blocks s)\<rparr>)"
  using assms by (simp add: delete_array_def)

lemma destroy_after_alloc:
  assumes wf: "store_wf s" and ok: "point_ok p s"
    and b: "blocks s1 = (brk s, k) # blocks s" and r: "brk s1 = brk s + Suc k"
  shows "\<exists>s2. Point_destroy p s1 = Some s2 \<and> store_wf s2 \<and> cells s2 = cells s1 \<and> brk s2 = brk s1 \<and>
           blocks s2 = (brk s, k) #
             (if owns p \<and> pstart p \<noteq> 0 then filter (\<lambda>b. fst b \<noteq> pstart p) (blocks s) else blocks s)"
proof -
  have wf1: "store_wf s1" using wf b r by (auto simp: store_wf_def list_all_iff)
  show ?thesis
  proof (cases "owns p \<and> pstart p \<noteq> 0")
    case True
    note base = point_ok_base[OF wf ok conjunct1[OF True] conjunct2[OF True]]
    let ?s2 = "s1\<lparr>blocks := filter (\<lambda>b. fst b \<noteq> pstart p) (blocks s1)\<rparr>"
    have d: "Point_destroy p s1 = Some ?s2"
      using True base by (simp add: Point_destroy_def delete_live b)
    have bl: "blocks ?s2 = (brk s, k) # filter (\<lambda>b. fst b \<noteq> pstart p) (blocks s)"
      using base by (simp add: b)
    have wf2: "store_wf ?s2" by (rule store_wf_filter[OF wf1])
    show ?thesis
      by (rule exI[of _ ?s2]) (use d bl wf2 True in simp)
  next
    case False
    then have "Point_destroy p s1 = Some s1"
      by (auto simp: Point_destroy_def delete_array_def)
    then show ?thesis using wf1 False b by auto
  qed
qed

lemma point_ok_after_release:
  assumes "point_ok q s" and "owns q \<and> owns p \<and> pstart p \<noteq> 0 \<longrightarrow> pstart q \<noteq> pstart p"
    and "blocks s2 = x # (if owns p \<and> pstart p \<noteq> 0 then filter (\<lambda>b. fst b \<noteq> pstart p) (blocks s) else blocks s)"
  shows "point_ok q s2"
  using assms by (auto simp: point_ok_def list_ex_iff split: if_splits)

lemma Point_dim_fields:
  "fst (Point_dim d s) = \<lparr>pstart = brk s, ndim = d, owns = True\<rparr>"
  "blocks (snd (Point_dim d s)) = (brk s, d) # blocks s"
  "brk (snd (Point_dim d s)) = brk s + Suc d"
  by (simp_all add: Point_dim_def split_def Let_def)

subsection \<open>The update loop of operator+=\<close>

lemma add_loop_cells:
  assumes na: "\<not> (pstart v < pstart p \<and> pstart p < pstart v + n)"
  shows "k \<le> n \<Longrightarrow>
    cells s = (\<lambda>x. if pstart p \<le> x \<and> x < pstart p + k then c0 x + c0 (x - pstart p + pstart v) else c0 x) \<Longrightarrow>
    cells (add_loop p v [k..<n] s) =
      (\<lambda>x. if pstart p \<le> x \<and> x < pstart p + n then c0 x + c0 (x - pstart p + pstart v) else c0 x)"
proof (induction "n - k" arbitrary: k s)
  case 0
  then show ?case by simp
next
  case (Suc m)
  then have k: "k < n" by simp
  let ?s' = "Point_set p k (Point_get p k s + Point_get v k s) s"
  have vk: "cells s (pstart v + k) = c0 (pstart v + k)"
    using Suc.prems(2) na k by auto
  have pk: "cells s (pstart p + k) = c0 (pstart p + k)"
    using Suc.prems(2) by auto
  have step: "cells ?s' =
      (\<lambda>x. if pstart p \<le> x \<and> x < pstart p + Suc k then c0 x + c0 (x - pstart p + pstart v) else c0 x)"
  proof (rule ext)
    fix x
    show "cells ?s' x =
        (if pstart p \<le> x \<and> x < pstart p + Suc k then c0 x + c0 (x - pstart p + pstart v) else c0 x)"
      using Suc.prems(2) vk pk
      by (cases "x = pstart p + k") (auto simp: Point_set_def Point_get_def add.commute)
  qed
  have "add_loop p v [k..<n] s = add_loop p v [Suc k..<n] ?s'"
    using k by (simp add: upt_conv_Cons)
  then show ?case
    using Suc.hyps(1)[of "Suc k" ?s'] Suc.hyps(2) k step by simp
qed

subsection \<open>Properties of the buffer management\<close>

text \<open>
  (C30) Refinement of the value model: the constructors, the copy constructor,
  \<open>operator=\<close>, element assignment, \<open>setValue(x, y, z)\<close> and \<open>resize\<close> leave in the
  store exactly the value the operations of \<open>Point\<close> compute on coordinate lists;
  a growing \<open>resize\<close> only fixes the dimension, its contents are indeterminate.
\<close>

theorem store_refines_value:
  "pvalue (fst (Point_copy v s)) (snd (Point_copy v s)) = pvalue v s \<and>
   pvalue (fst (Point_range xs s)) (snd (Point_range xs s)) = xs \<and>
   pvalue (fst (Point_xyz x y z s)) (snd (Point_xyz x y z s)) = point3 x y z \<and>
   pvalue (fst (Point_xy x y s)) (snd (Point_xy x y s)) = point2 x y \<and>
   (i < ndim p \<longrightarrow> pvalue p (Point_set p i x s) = resetValue i x (pvalue p s)) \<and>
   (Point_assign this v s = Some (this', s') \<longrightarrow> pvalue this' s' = pvalue v s) \<and>
   (Point_setValue3 x y z p s = Some (p', sv) \<longrightarrow> pvalue p' sv = setValue3 x y z (pvalue p s)) \<and>
   (Point_resize d p s = Some (q', sr) \<longrightarrow>
      ndim q' = d \<and> (d \<le> ndim p \<longrightarrow> pvalue q' sr = resize d (pvalue p s)))"
proof (intro conjI impI)
  fix i assume "i < ndim p"
  then show "pvalue p (Point_set p i x s) = resetValue i x (pvalue p s)"
    by (simp add: Point_set_value resetValue_def)
next
  assume r: "Point_resize d p s = Some (q', sr)"
  then show "ndim q' = d" using Point_resize_value by blast
  assume "d \<le> ndim p"
  then show "pvalue q' sr = resize d (pvalue p s)"
    using Point_resize_value[OF r] by (clarsimp simp: resize_def pvalue_def)
qed (simp_all add: Point_copy_value Point_range_value Point_xyz_value Point_assign_value
     Point_setValue3_value)

theorem store_refines_value_witness:
  "(1::nat) < ndim \<lparr>pstart = 1, ndim = 2, owns = False\<rparr> \<and> Point_assign \<lparr>pstart = 1, ndim = 2, owns = False\<rparr> \<lparr>pstart = 1, ndim = 2, owns = False\<rparr> empty_store \<noteq> None \<and>
   Point_setValue3 7 8 9 \<lparr>pstart = 1, ndim = 2, owns = False\<rparr> empty_store \<noteq> None \<and> Point_resize 1 \<lparr>pstart = 1, ndim = 2, owns = False\<rparr> empty_store \<noteq> None \<and>
   pvalue (fst (the (Point_setValue3 7 8 9 \<lparr>pstart = 1, ndim = 2, owns = False\<rparr> empty_store))) (snd (the (Point_setValue3 7 8 9 \<lparr>pstart = 1, ndim = 2, owns = False\<rparr> empty_store))) =
     [7, 8, 9]"
proof -
  have a: "Point_assign \<lparr>pstart = 1, ndim = 2, owns = False\<rparr> \<lparr>pstart = 1, ndim = 2, owns = False\<rparr> empty_store = Some (fst (Point_copy \<lparr>pstart = 1, ndim = 2, owns = False\<rparr> empty_store), snd (Point_copy \<lparr>pstart = 1, ndim = 2, owns = False\<rparr> empty_store))"
    by (simp add: Point_assign_unfold Point_destroy_def)
  have r: "Point_resize 1 \<lparr>pstart = 1, ndim = 2, owns = False\<rparr> empty_store = Some (\<lparr>pstart = 1, ndim = 2, owns = False\<rparr>\<lparr>ndim := 1\<rparr>, empty_store)"
    by (simp add: Point_resize_def)
  have v: "Point_setValue3 7 8 9 \<lparr>pstart = 1, ndim = 2, owns = False\<rparr> empty_store \<noteq> None"
    by (simp add: Point_setValue3_def Point_resize_def Point_dim_def Point_destroy_def split_def Let_def)
  then have v': "Point_setValue3 7 8 9 \<lparr>pstart = 1, ndim = 2, owns = False\<rparr> empty_store =
      Some (fst (the (Point_setValue3 7 8 9 \<lparr>pstart = 1, ndim = 2, owns = False\<rparr> empty_store)), snd (the (Point_setValue3 7 8 9 \<lparr>pstart = 1, ndim = 2, owns = False\<rparr> empty_store)))"
    by auto
  have sv: "setValue3 7 8 9 (pvalue \<lparr>pstart = 1, ndim = 2, owns = False\<rparr> empty_store) = [7, 8, 9]"
    using list_update3[of "resize 3 (pvalue \<lparr>pstart = 1, ndim = 2, owns = False\<rparr> empty_store)" 7 8 9] by (simp add: setValue3_def)
  show ?thesis
    using store_refines_value[where i = 1 and p = "\<lparr>pstart = 1, ndim = 2, owns = False\<rparr>" and s = empty_store and v = "\<lparr>pstart = 1, ndim = 2, owns = False\<rparr>" and this = "\<lparr>pstart = 1, ndim = 2, owns = False\<rparr>"
        and this' = "fst (Point_copy \<lparr>pstart = 1, ndim = 2, owns = False\<rparr> empty_store)" and s' = "snd (Point_copy \<lparr>pstart = 1, ndim = 2, owns = False\<rparr> empty_store)"
        and x = 7 and y = 8 and z = 9
        and p' = "fst (the (Point_setValue3 7 8 9 \<lparr>pstart = 1, ndim = 2, owns = False\<rparr> empty_store))"
        and sv = "snd (the (Point_setValue3 7 8 9 \<lparr>pstart = 1, ndim = 2, owns = False\<rparr> empty_store))"
        and d = 1 and q' = "\<lparr>pstart = 1, ndim = 2, owns = False\<rparr>\<lparr>ndim := 1\<rparr>" and sr = empty_store]
      a r v v' sv
    by simp
qed

text \<open>
  (C31) \<open>operator=\<close> is safe on a well-formed store: the copy-and-swap never frees
  a block twice or a block that is not live, the new value lives in a fresh block,
  the old buffer of \<open>this\<close> is released exactly when \<open>this\<close> owned one (no leak),
  the store stays well-formed, and every other valid point stays valid.
\<close>

theorem assign_safe:
  assumes wf: "store_wf s" and ok: "point_ok this s"
  shows "\<exists>s'. Point_assign this v s = Some (fst (Point_copy v s), s') \<and> store_wf s' \<and>
           point_ok (fst (Point_copy v s)) s' \<and>
           blocks s' = (brk s, ndim v) #
             (if owns this \<and> pstart this \<noteq> 0 then filter (\<lambda>b. fst b \<noteq> pstart this) (blocks s) else blocks s) \<and>
           (\<forall>q. point_ok q s \<and> (owns q \<and> owns this \<and> pstart this \<noteq> 0 \<longrightarrow> pstart q \<noteq> pstart this) \<longrightarrow>
              point_ok q s')"
proof -
  obtain s2 where d: "Point_destroy this (snd (Point_copy v s)) = Some s2" and w: "store_wf s2"
    and bl: "blocks s2 = (brk s, ndim v) #
      (if owns this \<and> pstart this \<noteq> 0 then filter (\<lambda>b. fst b \<noteq> pstart this) (blocks s) else blocks s)"
    using destroy_after_alloc[OF wf ok Point_copy_fields(2,3)] by blast
  have "point_ok (fst (Point_copy v s)) s2" using bl by (simp add: point_ok_def Point_copy_fields)
  then show ?thesis
    using d w bl point_ok_after_release[OF _ _ bl] by (auto simp: Point_assign_unfold)
qed

theorem assign_safe_witness:
  "store_wf (snd (Point_xy 1 2 empty_store)) \<and> point_ok (fst (Point_xy 1 2 empty_store)) (snd (Point_xy 1 2 empty_store)) \<and>
   (\<exists>s'. Point_assign (fst (Point_xy 1 2 empty_store)) \<lparr>pstart = 1, ndim = 2, owns = False\<rparr> (snd (Point_xy 1 2 empty_store)) =
          Some (fst (Point_copy \<lparr>pstart = 1, ndim = 2, owns = False\<rparr> (snd (Point_xy 1 2 empty_store))), s') \<and> blocks s' = [(4, 2)])"
proof -
  have wf: "store_wf (snd (Point_xy 1 2 empty_store))"
    by (simp add: store_wf_def Point_xy_def new_array_def empty_store_def write_range_def)
  have ok: "point_ok (fst (Point_xy 1 2 empty_store)) (snd (Point_xy 1 2 empty_store))"
    by (simp add: point_ok_def Point_xy_def new_array_def empty_store_def write_range_def)
  have f: "brk (snd (Point_xy 1 2 empty_store)) = 4" "blocks (snd (Point_xy 1 2 empty_store)) = [(1, 2)]"
    "pstart (fst (Point_xy 1 2 empty_store)) = 1" "owns (fst (Point_xy 1 2 empty_store))"
    by (simp_all add: Point_xy_def new_array_def empty_store_def write_range_def)
  obtain s' where a: "Point_assign (fst (Point_xy 1 2 empty_store)) \<lparr>pstart = 1, ndim = 2, owns = False\<rparr> (snd (Point_xy 1 2 empty_store)) =
        Some (fst (Point_copy \<lparr>pstart = 1, ndim = 2, owns = False\<rparr> (snd (Point_xy 1 2 empty_store))), s')"
    and b: "blocks s' = (brk (snd (Point_xy 1 2 empty_store)), ndim \<lparr>pstart = 1, ndim = 2, owns = False\<rparr>) #
        (if owns (fst (Point_xy 1 2 empty_store)) \<and> pstart (fst (Point_xy 1 2 empty_store)) \<noteq> 0
         then filter (\<lambda>b. fst b \<noteq> pstart (fst (Point_xy 1 2 empty_store))) (blocks (snd (Point_xy 1 2 empty_store)))
         else blocks (snd (Point_xy 1 2 empty_store)))"
    using assign_safe[OF wf ok, of "\<lparr>pstart = 1, ndim = 2, owns = False\<rparr>"] by blast
  have "blocks s' = [(4, 2)]" using b by (simp add: f)
  then show ?thesis using a wf ok by blast
qed



text \<open>
  (C32) Aliasing of views: a point built with \<open>own = false\<close> on the range
  \<open>[begin, end)\<close> writes through to that memory, while a point built with
  \<open>own = true\<close> copies it, and writing the copy leaves the range unchanged.
\<close>

theorem view_aliasing:
  assumes "i < e - b"
  shows "read_range b (e - b) (Point_set (fst (Point_view b e False s)) i x (snd (Point_view b e False s))) =
           (read_range b (e - b) s)[i := x] \<and>
         (e \<le> brk s \<longrightarrow>
            read_range b (e - b) (Point_set (fst (Point_view b e True s)) i x (snd (Point_view b e True s))) =
              read_range b (e - b) s)"
proof -
  have be: "b \<le> e" and bi: "b + i < e" using assms by simp_all
  show ?thesis
    using view_copy_untouched[OF be, of s i x] bi be
    by (simp add: Point_view_alias read_range_set)
qed

theorem view_aliasing_witness:
  "(0::nat) < 3 - 1 \<and> 3 \<le> brk (empty_store\<lparr>brk := 3\<rparr>) \<and>
   read_range 1 (3 - 1) (Point_set (fst (Point_view 1 3 False (empty_store\<lparr>brk := 3\<rparr>))) 0 5
      (snd (Point_view 1 3 False (empty_store\<lparr>brk := 3\<rparr>)))) = [5, 0]"
  using view_aliasing[where i = 0 and e = 3 and b = 1 and x = 5 and s = "empty_store\<lparr>brk := 3\<rparr>"]
  by (simp add: read_range_def empty_store_def numeral_2_eq_2)

text \<open>
  (C33) \<open>operator+=\<close> refines \<open>point_add\<close> whenever the operand does not start
  strictly below the target inside its range: disjoint buffers, the point added to
  itself, and an operand shifted upwards all give the sum of the two old values.
\<close>

theorem add_assign_refines:
  assumes "ndim v = ndim p" and "\<not> (pstart v < pstart p \<and> pstart p < pstart v + ndim p)"
  shows "pvalue p (Point_add_assign p v s) = point_add (pvalue p s) (pvalue v s)"
proof -
  have c: "cells (Point_add_assign p v s) =
      (\<lambda>x. if pstart p \<le> x \<and> x < pstart p + ndim p
           then cells s x + cells s (x - pstart p + pstart v) else cells s x)"
    unfolding Point_add_assign_def
    by (rule add_loop_cells[OF assms(2)]) auto
  show ?thesis
    using assms(1) by (simp add: pvalue_def read_range_def point_add_def c add.commute)
qed

theorem add_assign_refines_witness:
  "ndim \<lparr>pstart = 2, ndim = 2, owns = False\<rparr> = ndim \<lparr>pstart = 2, ndim = 2, owns = False\<rparr> \<and> \<not> (pstart \<lparr>pstart = 2, ndim = 2, owns = False\<rparr> < pstart \<lparr>pstart = 2, ndim = 2, owns = False\<rparr> \<and> pstart \<lparr>pstart = 2, ndim = 2, owns = False\<rparr> < pstart \<lparr>pstart = 2, ndim = 2, owns = False\<rparr> + ndim \<lparr>pstart = 2, ndim = 2, owns = False\<rparr>) \<and>
   pvalue \<lparr>pstart = 2, ndim = 2, owns = False\<rparr> (Point_add_assign \<lparr>pstart = 2, ndim = 2, owns = False\<rparr> \<lparr>pstart = 2, ndim = 2, owns = False\<rparr> (empty_store\<lparr>cells := (\<lambda>_. 1)\<rparr>)) = [2, 2]"
  using add_assign_refines[of "\<lparr>pstart = 2, ndim = 2, owns = False\<rparr>" "\<lparr>pstart = 2, ndim = 2, owns = False\<rparr>" "empty_store\<lparr>cells := (\<lambda>_. 1)\<rparr>"]
  by (simp add: pvalue_def read_range_def point_add_def numeral_2_eq_2)

text \<open>
  An operand that starts below the target inside its range makes
  \<open>operator+=\<close> read cells it has already updated: with all cells 1, adding the
  view at address 1 to the overlapping view at address 2 gives (2, 3), not the sum
  (2, 2) of the two old values.
\<close>

theorem add_assign_overlap:
  "pvalue \<lparr>pstart = 2, ndim = 2, owns = False\<rparr>
     (Point_add_assign \<lparr>pstart = 2, ndim = 2, owns = False\<rparr> \<lparr>pstart = 1, ndim = 2, owns = False\<rparr>
        (empty_store\<lparr>cells := (\<lambda>_. 1)\<rparr>)) = [2, 3] \<and>
   point_add (pvalue \<lparr>pstart = 2, ndim = 2, owns = False\<rparr> (empty_store\<lparr>cells := (\<lambda>_. 1)\<rparr>))
     (pvalue \<lparr>pstart = 1, ndim = 2, owns = False\<rparr> (empty_store\<lparr>cells := (\<lambda>_. 1)\<rparr>)) = [2, 2]"
  by (simp add: Point_add_assign_def upt_conv_Cons Point_set_def Point_get_def pvalue_def
      read_range_def point_add_def numeral_2_eq_2)

end
