(* ===== verification/Circulator.thy ===== *)
theory Circulator
  imports Prelude
begin

text \<open>
  The circulation over the one-ring in \<open>setup_inner_vertex_relations\<close>
  (Calculator.cpp lines 67-69 and 96-133 alike): a halfedge circulator starts at
  \<open>vh->vertex_begin()\<close>, \<open>end\<close> is a copy of it, and \<open>CGAL_For_all(v_j, end)\<close> runs
  the body for \<open>v_j\<close>, advances \<open>++v_j\<close>, and stops when \<open>v_j\<close> is back at \<open>end\<close>; an
  empty circulator runs the body not at all. Halfedges are natural numbers and the
  circulator's increment is a successor function on them. Whether the loop returns
  depends on that function, so it is a \<open>partial_function (option)\<close>: \<open>None\<close> is a
  circulation that never comes back to its start. The assembly theories read the
  one-ring as the list \<open>ring m v\<close>; the theorem here says which successor functions
  produce that list and that the loop over them returns, and \<open>circulate_ring\<close>
  says that the circulator of a list without repetitions (\<open>ring_next\<close>, started at
  \<open>ring_begin\<close>) visits exactly that list, the empty one-ring included.
\<close>

partial_function (option) for_all_loop :: "(nat \<Rightarrow> nat) \<Rightarrow> nat \<Rightarrow> nat \<Rightarrow> nat list \<Rightarrow> nat list option" where
  "for_all_loop circ_next end_h h visited =
     (let visited' = visited @ [h]; h' = circ_next h
      in if h' = end_h then Some visited' else for_all_loop circ_next end_h h' visited')"

declare for_all_loop.simps [code]

definition circulate :: "(nat \<Rightarrow> nat) \<Rightarrow> nat option \<Rightarrow> nat list option" where
  "circulate circ_next vertex_begin =
     (case vertex_begin of
        None \<Rightarrow> Some []
      | Some h0 \<Rightarrow> for_all_loop circ_next h0 h0 [])"

definition cyclic_on :: "(nat \<Rightarrow> nat) \<Rightarrow> nat list \<Rightarrow> bool" where
  "cyclic_on circ_next hs \<longleftrightarrow> hs \<noteq> [] \<and> distinct hs \<and>
     (\<forall>k<length hs. circ_next (hs ! k) = hs ! (Suc k mod length hs))"

primrec ring_pos :: "nat list \<Rightarrow> nat \<Rightarrow> nat" where
  "ring_pos [] h = 0"
| "ring_pos (x # xs) h = (if x = h then 0 else Suc (ring_pos xs h))"

definition ring_next :: "nat list \<Rightarrow> nat \<Rightarrow> nat" where
  "ring_next hs h = hs ! (Suc (ring_pos hs h) mod length hs)"

definition ring_begin :: "nat list \<Rightarrow> nat option" where
  "ring_begin hs = (case hs of [] \<Rightarrow> None | h # _ \<Rightarrow> Some h)"

lemma ring_pos_nth: "distinct hs \<Longrightarrow> k < length hs \<Longrightarrow> ring_pos hs (hs ! k) = k"
proof (induction hs arbitrary: k)
  case (Cons x xs)
  then show ?case by (cases k) (auto simp: nth_Cons')
qed simp

lemma ring_next_cyclic: "distinct hs \<Longrightarrow> hs \<noteq> [] \<Longrightarrow> cyclic_on (ring_next hs) hs"
  by (simp add: cyclic_on_def ring_next_def ring_pos_nth)

lemma for_all_loop_cycle:
  assumes cyc: "cyclic_on circ_next hs" and k: "k < length hs"
  shows "for_all_loop circ_next (hs ! 0) (hs ! k) acc = Some (acc @ drop k hs)"
  using k
proof (induction "length hs - k" arbitrary: k acc)
  case 0
  then show ?case by simp
next
  case (Suc d)
  have nx: "circ_next (hs ! k) = hs ! (Suc k mod length hs)"
    using cyc Suc.prems by (simp add: cyclic_on_def)
  show ?case
  proof (cases "Suc k = length hs")
    case True
    then have "drop k hs = [hs ! k]"
      by (metis Suc.prems Cons_nth_drop_Suc drop_all le_refl)
    then show ?thesis using True nx by (simp add: for_all_loop.simps[of circ_next _ "hs ! k"])
  next
    case False
    then have sk: "Suc k < length hs" using Suc.prems by simp
    have ne: "hs ! Suc k \<noteq> hs ! 0"
      using cyc sk by (simp add: cyclic_on_def nth_eq_iff_index_eq)
    have "for_all_loop circ_next (hs ! 0) (hs ! Suc k) (acc @ [hs ! k]) = Some (acc @ [hs ! k] @ drop (Suc k) hs)"
      using Suc.hyps(1)[of "Suc k"] Suc.hyps(2) sk by simp
    then show ?thesis
      using nx sk ne Suc.prems by (simp add: for_all_loop.simps[of circ_next _ "hs ! k"] Cons_nth_drop_Suc)
  qed
qed

text \<open>
  (C39) Termination of the one-ring circulation: when the circulator's increment
  runs through the halfedges \<open>hs\<close> in order and comes back to the first, the
  \<open>CGAL_For_all\<close> loop started at \<open>hs ! 0\<close> returns, having visited every halfedge of
  \<open>hs\<close> once and in order.
\<close>

theorem circulate_terminates:
  assumes "cyclic_on circ_next hs"
  shows "circulate circ_next (Some (hs ! 0)) = Some hs"
proof -
  have "0 < length hs" using assms by (simp add: cyclic_on_def)
  then show ?thesis using for_all_loop_cycle[OF assms, of 0 "[]"] by (simp add: circulate_def)
qed

lemma circulate_ring:
  assumes "distinct hs"
  shows "circulate (ring_next hs) (ring_begin hs) = Some hs"
proof (cases hs)
  case (Cons h t)
  have "cyclic_on (ring_next hs) hs" using assms Cons by (simp add: ring_next_cyclic)
  from for_all_loop_cycle[OF this, of 0 "[]"] show ?thesis
    using Cons by (simp add: circulate_def ring_begin_def)
qed (simp add: circulate_def ring_begin_def)

theorem circulate_terminates_witness:
  "cyclic_on (\<lambda>h. if h = 5 then 7 else if h = 7 then 9 else 5) [5, 7, 9] \<and>
   circulate (\<lambda>h. if h = 5 then 7 else if h = 7 then 9 else 5) (Some 5) = Some [5, 7, 9]"
proof -
  have c: "cyclic_on (\<lambda>h. if h = 5 then 7 else if h = 7 then 9 else 5) [5, 7, 9]"
    unfolding cyclic_on_def by (auto simp: less_Suc_eq)
  show ?thesis using circulate_terminates[OF c] c by simp
qed

end
