(* ===== verification/Lifecycle.thy ===== *)
theory Lifecycle
  imports Weights
begin

text \<open>
  The lifetime of a \<open>Calculator\<close> object and of the weight object it owns
  (Calculator.cpp lines 3-20). The constructor allocates one option object with
  \<open>new\<close> and keeps the pointer \<open>m_weightOption\<close>; every assembly calls the object's
  \<open>operator()\<close> through that pointer (lines 72 and 110); the destructor deletes it
  when the pointer is not null and resets the pointer to null. The weight objects
  live in a small heap of (address, option) pairs with a bump allocator; deleting an
  address that is not live is undefined behaviour, the value \<open>None\<close>, and so is
  calling through a null or dangling pointer. The object moves through the phases
  \<open>Fresh\<close> (not yet constructed), \<open>Alive\<close> and \<open>Dead\<close>; \<open>lc_step\<close> is the relation of the
  calls a program can make on it. \<open>lc_weight_construct\<close> ties the object a call
  finds to the option \<open>m_weightOption (Calculator k)\<close> through which \<open>compute\<close>
  weighs the one-ring in the other theories.
\<close>

datatype phase = Fresh | Alive | Dead

record lifecycle =
  phase :: phase
  wptr :: "nat option"
  wobjs :: "(nat \<times> weight_option) list"
  wnext :: nat

definition lc_init :: lifecycle where
  "lc_init = \<lparr>phase = Fresh, wptr = None, wobjs = [], wnext = 1\<rparr>"

definition lc_construct :: "int \<Rightarrow> lifecycle \<Rightarrow> lifecycle" where
  "lc_construct weightOption s =
     s\<lparr>phase := Alive, wptr := Some (wnext s),
       wobjs := (wnext s, m_weightOption (Calculator weightOption)) # wobjs s,
       wnext := Suc (wnext s)\<rparr>"

definition lc_weight :: "lifecycle \<Rightarrow> weight_option option" where
  "lc_weight s = (case wptr s of None \<Rightarrow> None | Some a \<Rightarrow> map_of (wobjs s) a)"

definition lc_destruct :: "lifecycle \<Rightarrow> lifecycle option" where
  "lc_destruct s =
     (case wptr s of
        None \<Rightarrow> Some (s\<lparr>phase := Dead\<rparr>)
      | Some a \<Rightarrow>
          if a \<in> fst ` set (wobjs s)
          then Some (s\<lparr>phase := Dead, wobjs := filter (\<lambda>e. fst e \<noteq> a) (wobjs s), wptr := None\<rparr>)
          else None)"

inductive lc_step :: "lifecycle \<Rightarrow> lifecycle \<Rightarrow> bool" where
  construct: "phase s = Fresh \<Longrightarrow> lc_step s (lc_construct k s)"
| compute: "phase s = Alive \<Longrightarrow> lc_weight s = Some opt \<Longrightarrow> lc_step s s"
| destruct: "phase s = Alive \<Longrightarrow> lc_destruct s = Some s' \<Longrightarrow> lc_step s s'"

code_pred lc_step .

definition lc_reachable :: "lifecycle \<Rightarrow> bool" where
  "lc_reachable s \<longleftrightarrow> lc_step\<^sup>*\<^sup>* lc_init s"

definition lc_inv :: "lifecycle \<Rightarrow> bool" where
  "lc_inv s \<longleftrightarrow>
     (case phase s of
        Fresh \<Rightarrow> wptr s = None \<and> wobjs s = []
      | Alive \<Rightarrow> (\<exists>a opt. wptr s = Some a \<and> wobjs s = [(a, opt)])
      | Dead \<Rightarrow> wptr s = None \<and> wobjs s = [])"

inductive_cases lc_stepE: "lc_step s s'"

lemma lc_inv_init: "lc_inv lc_init"
  by (simp add: lc_inv_def lc_init_def)

lemma lc_inv_step: "lc_step s s' \<Longrightarrow> lc_inv s \<Longrightarrow> lc_inv s'"
  by (induction rule: lc_step.induct)
     (auto simp: lc_inv_def lc_construct_def lc_destruct_def split: phase.splits if_splits)

lemma lc_reachable_inv: "lc_reachable s \<Longrightarrow> lc_inv s"
  unfolding lc_reachable_def
  by (induction rule: rtranclp_induct) (auto intro: lc_inv_init lc_inv_step)

lemma lc_reachable_step: "lc_reachable s \<Longrightarrow> lc_step s s' \<Longrightarrow> lc_reachable s'"
  unfolding lc_reachable_def by (rule rtranclp.rtrancl_into_rtrancl)

lemma lc_weight_construct:
  "lc_weight (lc_construct k s) = Some (m_weightOption (Calculator k))"
  by (simp add: lc_weight_def lc_construct_def)

text \<open>
  (C40) Liveness of the release: from every reachable state of a constructed
  \<open>Calculator\<close>, calls through \<open>m_weightOption\<close> find the live weight object, and
  the destructor is enabled, is a step of the lifecycle, and reaches a state in which
  no weight object is live and the pointer is null; calling the destructor again
  there does nothing, thanks to the null check and the reset on lines 15-18.
\<close>

theorem lc_release:
  assumes "lc_reachable s" and "phase s = Alive"
  shows "(\<exists>opt. lc_weight s = Some opt) \<and>
         (\<exists>s'. lc_destruct s = Some s' \<and> lc_step s s' \<and> lc_reachable s' \<and>
               wobjs s' = [] \<and> wptr s' = None \<and> lc_destruct s' = Some s')"
proof -
  obtain a opt where p: "wptr s = Some a" and o: "wobjs s = [(a, opt)]"
    using lc_reachable_inv[OF assms(1)] assms(2) by (auto simp: lc_inv_def)
  let ?s' = "s\<lparr>phase := Dead, wobjs := [], wptr := None\<rparr>"
  have d: "lc_destruct s = Some ?s'" using p o by (simp add: lc_destruct_def)
  have st: "lc_step s ?s'" using assms(2) d by (rule destruct)
  have w: "lc_weight s = Some opt" using p o by (simp add: lc_weight_def)
  show ?thesis
    using d st w lc_reachable_step[OF assms(1) st] by (auto simp: lc_destruct_def)
qed

theorem lc_release_witness:
  "lc_reachable (lc_construct 2 lc_init) \<and> phase (lc_construct 2 lc_init) = Alive \<and>
   lc_weight (lc_construct 2 lc_init) = Some TutteOption \<and>
   lc_destruct (lc_construct 2 lc_init) \<noteq> None"
proof -
  have r: "lc_reachable (lc_construct 2 lc_init)"
    unfolding lc_reachable_def by (rule r_into_rtranclp, rule construct) (simp add: lc_init_def)
  have a: "phase (lc_construct 2 lc_init) = Alive" by (simp add: lc_construct_def)
  show ?thesis
    using lc_release[OF r a] r a
    by (auto simp: lc_weight_def lc_construct_def lc_init_def Calculator_def)
qed

end
