(* ===== verification/Spec2Isabelle.thy ===== *)
theory Spec2Isabelle
  imports Logging PointStore Circulator Lifecycle
begin

text \<open>
  \<^bold>\<open>A verification development for the mesh parameterization calculator of
  \<open>src/examples/14_matrix/taucs/taucs_dgal/Calculator.cpp\<close> and the vector class
  \<open>Go::Point\<close> of \<open>src/examples/04-fileIO_String/Mesh_io/include/gotools_core/Point.h\<close>.\<close>

  \<^medskip>\<^bold>\<open>The program.\<close> \<open>Calculator::compute\<close> parameterizes a triangle mesh: it numbers
  the vertices, pins the vertices named by the constraint list to their scalar values,
  assembles a sparse linear system whose row for a free vertex is a weighted graph
  Laplacian over its one-ring (weights chosen by the option given to the constructor),
  hands the system to one of four TAUCS-based solver routines chosen by a strategy
  string, and on success writes the solution back into the vertices' scalar field.
  \<open>Go::Point\<close> is an independent run-time sized vector of doubles with vector algebra.

  \<^medskip>\<^bold>\<open>Theories and what they model.\<close>
  \<^item> \<open>Prelude\<close>: the types of the model (vertex handles \<open>vh\<close>, dense vectors \<open>vec\<close>,
    sparse coefficient lists \<open>coefs\<close>); reading a coefficient list (\<open>coef_of\<close>,
    \<open>row_sum_of\<close>, \<open>row_dot_of\<close>), folds as finite sums, the Cauchy-Schwarz
    inequality, and lookups by key in association lists.
  \<^item> \<open>Mesh\<close>: the mesh as a record (\<open>vertices\<close> is the vertex iteration order,
    \<open>ring\<close> the one-ring circulator, \<open>vdata\<close> the per-vertex fields \<open>index\<close>, \<open>s\<close> and
    \<open>is_parameterized\<close>) and the loops over it: \<open>index_mesh_vertices\<close>
    (Calculator.cpp 21-32), \<open>setScalarForVc\<close> (33-42), \<open>set_mesh_scalar_from_system\<close>
    (134-148), and \<open>classify\<close>, the first phase of \<open>compute\<close> (345-357) with its
    reset loop \<open>reset_parameterized\<close> (348-354).
  \<^item> \<open>Weights\<close>: the constructor \<open>Calculator(int)\<close> (3-12) and the option objects.
    The four geometric weightings are defined in headers outside \<open>src/\<close>: they form
    the interface record \<open>weight_impl\<close> and every lemma is stated for all of them;
    the Tutte option is the constant 1.
  \<^item> \<open>Assembly\<close>: the sparse \<open>Matrix\<close> and \<open>SymmetricMatrix\<close> (outside \<open>src/\<close>,
    modelled from the specification: a write overwrites, an unwritten entry reads 0),
    \<open>initialize_system_from_mesh_vc\<close> (43-56), \<open>setup_inner_vertex_relations\<close> and
    its circulation \<open>ring_loop\<close> (58-95), their symmetric versions (96-133),
    \<open>setupSystem\<close> (304-323) and \<open>setupSymmetricSystem\<close> (324-334). The abstract
    system \<open>system_coef\<close>/\<open>system_rhs\<close> (identity row for a pinned vertex, Laplacian
    row for a free one) is the specification; \<open>setupSystem_coef\<close> and
    \<open>setupSystem_rhs\<close> refine it.
  \<^item> \<open>Solver\<close>: TAUCS is an interface record \<open>taucs\<close> of the numeric results; a
    \<open>solver_ctx\<close> records the handles the routines allocate and free and the calls
    they make, so that leaks are values. It models \<open>lu_symbolic_factor_solve\<close>
    (149-195), \<open>lu_symbolic_factor_solve1\<close> (196-239), \<open>ooc_lu_factor_solve\<close>
    (240-267) and \<open>ll_symbolic_factor_solve\<close> (268-303); the build flag
    \<open>USE_OPENNL\<close> is a boolean argument. \<open>linsolve_sound\<close> says a solver's reported
    successes are solutions; \<open>checking_taucs\<close> is a concrete solver for examples.
  \<^item> \<open>Engine\<close>: \<open>compute\<close> (335-419): classification, assembly of both systems,
    the strategy dispatch \<open>dispatch\<close> (384-402) and the write-back.
  \<^item> \<open>Point\<close>: \<open>Go::Point\<close> as the list of its coordinates, in the release build
    where \<open>DEBUG_ERROR_IF\<close> does nothing (the dimension checks are hypotheses).
  \<^item> \<open>PointStore\<close>: the buffer management of \<open>Go::Point\<close> (lines 56-215): the
    members \<open>pstart_\<close>, \<open>n_\<close>, \<open>owns_\<close> over an explicit store of cells with the
    live blocks of \<open>new double[]\<close> and a bump allocator (address 0 is null, a
    \<open>delete[]\<close> of a pointer that is not a live block is the error \<open>None\<close>): every
    constructor, including the non-owning view, the copy constructor, copy-and-swap
    \<open>operator=\<close>, the destructor, \<open>swap\<close>, \<open>operator[]\<close>, \<open>resize\<close>,
    \<open>setValue(x, y, z)\<close> and the update loop of \<open>operator+=\<close>. \<open>pvalue\<close> abstracts
    a point in a store to its coordinate list, the model of \<open>Point\<close>.
  \<^item> \<open>Circulator\<close>: the \<open>CGAL_For_all\<close> circulation of the one-ring (69 and 107)
    as a \<open>partial_function (option)\<close> \<open>for_all_loop\<close> over a successor function on
    halfedges, and \<open>circulate\<close>, which starts it at \<open>vertex_begin()\<close> or skips it
    for an empty circulator. It justifies reading the one-ring as the list \<open>ring\<close>.
  \<^item> \<open>Lifecycle\<close>: the lifetime of a \<open>Calculator\<close> and of the weight object it
    owns: \<open>lc_construct\<close> (3-12) allocates it in a heap of option objects,
    \<open>lc_weight\<close> is the virtual call through \<open>m_weightOption\<close> (72 and 110),
    \<open>lc_destruct\<close> is the destructor (13-20), and \<open>lc_step\<close> is the inductive
    relation of the calls a program makes, with reachability from \<open>lc_init\<close>.
  \<^item> \<open>Logging\<close>: the diagnostics: what each solve routine writes to the
    \<open>std::ofstream\<close> logger (\<open>lu_symbolic_factor_solve_log\<close>,
    \<open>lu_symbolic_factor_solve1_log\<close>, \<open>ooc_lu_factor_solve_log\<close>,
    \<open>ll_symbolic_factor_solve_log\<close>) and with \<open>printf\<close> to standard output
    (\<open>lu_symbolic_factor_solve1_stdout\<close>), and what \<open>compute\<close> writes
    (\<open>compute_log\<close> with the \<open>DEBUG_TRACE\<close> lines, \<open>compute_stdout\<close>). Output never
    feeds back into control flow, so each is a function beside the routine it
    belongs to, with the routine's branches.
  \<^item> This theory: the property that spans the components (C1).

  \<^medskip>\<^bold>\<open>What is shown.\<close> C1: a successful LU run of \<open>compute\<close> with a sound solver
  leaves every pinned vertex at its last constraint value and every free vertex
  satisfying its weighted Laplacian equation. C2-C4: the assembled general system
  refines the abstract one, free rows sum to zero, pinned rows are identity rows.
  C5: classification. C6-C8: the handles each solver routine leaves live (leaks)
  and how error codes collapse. C9-C16: \<open>compute\<close> per strategy, including the
  behaviours that diverge from the specification (unsupported strategy names, the
  Cholesky result written from the wrong vector, \<open>USE_OPENNL\<close> reporting success
  without solving, the ignored divisor of the out-of-core solver, degenerate rows
  not reported, the mesh modified by a failed run). C17-C19: the symmetric system
  ignores constraints and is symmetric for symmetric weights; the uniform weights.
  C20: the degenerate row. C29: the sparsity pattern of the rows. C21-C27:
  \<open>Go::Point\<close> (Cauchy-Schwarz for \<open>cosAngle\<close>, angles, cross product,
  normalization, distances, the order of \<open>operator<\<close>, norm bounds). C28 and C34: the
  diagnostics: a failing \<open>Taucs::lu_symbolic\<close> run leaves the log exactly as a
  successful one and reports only on standard output, and which failures each solve
  routine logs (a failed supernodal Cholesky solve is not logged). C30-C33: the
  store model refines the value model; \<open>operator=\<close> neither leaks nor frees twice;
  views alias, owning copies do not; \<open>operator+=\<close> is the sum exactly unless the
  operand overlaps from below (\<open>add_assign_overlap\<close> gives the overlapping
  case). C35-C37: \<open>operator<\<close> is the reversed lexicographic
  order, the round trips of the algebra, and the dimension of every result. C38:
  \<open>resize\<close> keeps the store well-formed and releases exactly the owned buffer.
  C39: the one-ring circulation returns, visiting each halfedge once and in order.
  C40: from every reachable state of a live \<open>Calculator\<close> the weight object can be
  called and the destructor releases it, leaving a null pointer, so that running
  the destructor again is harmless.

  \<^medskip>\<^bold>\<open>Modelling choices.\<close> Doubles are reals: no rounding, no NaN or infinity, and
  a division by zero is 0 in HOL; where the code divides it guards first
  (\<open>cosAngle\<close>, \<open>normalize_checked\<close>) and the lemmas keep that guard; where it does
  not (\<open>normalize()\<close>), the zero division is the error value \<open>None\<close>. Status codes
  are \<open>int\<close>, indices \<open>nat\<close>. Every loop of the code walks a finite list (vertices, a
  one-ring, the constraints, the coordinates), so every definition but one is
  structural recursion or a fold: all are total and executable, and no fuel is
  needed. The exception is the circulation itself, whose end depends on the
  circulator coming back to its start: it is a \<open>partial_function (option)\<close>, and
  C39 proves that it returns when the successor function is cyclic on the ring.
  Memory freshly allocated by \<open>new double[d]\<close> is the unspecified \<open>indet d\<close>.

  \<^medskip>\<^bold>\<open>Not modelled.\<close> The elapsed times the timing lines print (the wall
  clock read by \<open>taucs_ctime\<close>: a timed line keeps its label only); the halfedge data structure behind the circulator (a
  successor function here); the numerical algorithms of TAUCS (an interface
  here); the geometric weight formulas (outside \<open>src/\<close>); \<open>read\<close>/\<open>write\<close> of
  \<open>Point\<close> and the stream operators that call them (I/O, defined outside \<open>src/\<close>);
  \<open>doxymain.h\<close> is a Doxygen main page: comments only, no code to model.
\<close>

section \<open>The solution a successful run writes back\<close>

lemma general_system_row:
  assumes "assembly_wf m vcs n" and "v \<in> set (vertices m)"
  shows "mat_vec (fst (general_system w m n vcs cv)) x ! v_index (vdata m v) =
         (\<Sum>c<n. system_coef w m v c * x ! c)"
proof -
  note facts = assembly_wf_facts[OF assms(1)]
  note S = setupSystem_matrix_wf[OF assms(1), of w cv]
  show ?thesis
    using mat_vec_nth[OF conjunct1[OF S], of "v_index (vdata m v)" x] S facts(4)[OF assms(2)]
      setupSystem_coef[OF assms]
    by (simp add: general_system_def)
qed

text \<open>
  (C1) End to end: for a well-formed mesh whose constraints name its vertices, any
  weighting scheme, and an LU solver whose reported successes are solutions, a run
  of \<open>compute\<close> with \<open>Taucs::lu_symbolic\<close> that returns 0 leaves every
  constrained vertex at its last constraint value, and every other vertex \<open>v\<close>
  satisfying the equation of its row: the sum of its edge weights times its value,
  less the weighted sum of its neighbours' values, equals the Poisson term (0
  without one). With two or more neighbours and no Poisson term, each free value is
  the weighted average of its neighbours'.
\<close>

theorem compute_lu_solution:
  assumes "mesh_wf m" and "\<forall>vc\<in>set vcs. m_vh vc \<in> set (vertices m)" and "linsolve_sound t"
    and "fst (compute False t wi calc m vcs cv ''Taucs::lu_symbolic'' ctx) = 0"
    and "v \<in> set (vertices m)"
  shows "(\<forall>c. last_constraint vcs v = Some c \<longrightarrow>
            v_s (vdata (fst (snd (compute False t wi calc m vcs cv ''Taucs::lu_symbolic'' ctx))) v) = c) \<and>
         (last_constraint vcs v = None \<longrightarrow>
            (if 2 \<le> length (ring m v)
             then sum_list (map (calc_weight wi calc (snd (classify m vcs)) v) (ring m v)) *
                    v_s (vdata (fst (snd (compute False t wi calc m vcs cv ''Taucs::lu_symbolic'' ctx))) v)
             else 0) -
            sum_list (map (\<lambda>u. calc_weight wi calc (snd (classify m vcs)) v u *
                    v_s (vdata (fst (snd (compute False t wi calc m vcs cv ''Taucs::lu_symbolic'' ctx))) u))
              (ring m v)) =
            (if 2 \<le> length (ring m v) \<and> cv \<noteq> [] then \<bar>cv ! v_index (vdata (snd (classify m vcs)) v)\<bar> else 0))"
proof -
  let ?n = "fst (classify m vcs)" and ?m1 = "snd (classify m vcs)" and ?w = "calc_weight wi calc"
  let ?S = "general_system ?w ?m1 ?n vcs cv"
  let ?X = "snd (linsolve t (fst ?S) (snd ?S))"
  let ?M = "fst (snd (compute False t wi calc m vcs cv ''Taucs::lu_symbolic'' ctx))"
  have wf: "assembly_wf ?m1 vcs ?n" using classify_assembly_wf[OF assms(1,2)] .
  note facts = assembly_wf_facts[OF wf]
  have v1: "v \<in> set (vertices ?m1)" using assms(5) by simp
  have ok: "fst (linsolve t (fst ?S) (snd ?S)) = 0"
    and M: "?M = set_mesh_scalar_from_system ?m1 ?X"
    using assms(4)
    by (simp_all add: compute_unfold Let_def dispatch_lu_symbolic lu_symbolic_factor_solve1_result
        TAUCS_SUCCESS_def split: if_splits)
  have sol: "mat_vec (fst ?S) ?X = snd ?S" using assms(3) ok by (simp add: linsolve_sound_def)
  have s: "v_s (vdata ?M u) = ?X ! v_index (vdata ?m1 u)" if "u \<in> set (vertices m)" for u
    using that by (simp add: M vdata_set_mesh_scalar)
  have row: "(\<Sum>c<?n. system_coef ?w ?m1 v c * ?X ! c) = system_rhs ?m1 vcs cv v"
    using general_system_row[OF wf v1, of ?w cv ?X] sol setupSystem_rhs[OF wf v1, of ?w cv]
    by (simp add: general_system_def)
  have ring_sub: "set (ring m v) \<subseteq> set (vertices m)"
    using mesh_wf_ring[OF assms(1,5)] by simp
  have param: "v_param (vdata ?m1 v) \<longleftrightarrow> last_constraint vcs v \<noteq> None"
    using facts(5)[OF v1] by (simp add: last_constraint_None_iff)
  have map_s: "map (\<lambda>u. ?w ?m1 v u * v_s (vdata ?M u)) (ring m v) =
      map (\<lambda>u. ?w ?m1 v u * ?X ! v_index (vdata ?m1 u)) (ring m v)"
    using ring_sub s by (intro map_cong) auto
  have rg: "ring ?m1 v = ring m v" by simp
  have pinned: "?X ! v_index (vdata ?m1 v) = c" if "last_constraint vcs v = Some c" for c
    using row system_coef_row_dot[OF wf v1, of ?w "\<lambda>c. ?X ! c"] param that
    by (simp add: system_rhs_def)
  have free: "(if 2 \<le> length (ring m v)
       then sum_list (map (?w ?m1 v) (ring m v)) * ?X ! v_index (vdata ?m1 v) else 0) -
      sum_list (map (\<lambda>u. ?w ?m1 v u * ?X ! v_index (vdata ?m1 u)) (ring m v)) =
      (if 2 \<le> length (ring m v) \<and> cv \<noteq> [] then \<bar>cv ! v_index (vdata ?m1 v)\<bar> else 0)"
    if "last_constraint vcs v = None"
    using row system_coef_row_dot[OF wf v1, of ?w "\<lambda>c. ?X ! c", unfolded rg] param that
    by (simp add: system_rhs_def)
  show ?thesis
    unfolding map_s s[OF assms(5)] using pinned free by simp
qed

theorem compute_lu_solution_witness:
  "mesh_wf triangle_mesh \<and>
   list_all (\<lambda>vc. m_vh vc \<in> set (vertices triangle_mesh)) triangle_constraints \<and>
   linsolve_sound (checking_taucs [0, 1, 1/2]) \<and>
   fst (compute False (checking_taucs [0, 1, 1/2]) uniform_impl (Calculator 2) triangle_mesh
      triangle_constraints [] ''Taucs::lu_symbolic'' empty_ctx) = 0 \<and>
   2 * v_s (vdata (fst (snd (compute False (checking_taucs [0, 1, 1/2]) uniform_impl (Calculator 2)
      triangle_mesh triangle_constraints [] ''Taucs::lu_symbolic'' empty_ctx))) 2) -
   (v_s (vdata (fst (snd (compute False (checking_taucs [0, 1, 1/2]) uniform_impl (Calculator 2)
      triangle_mesh triangle_constraints [] ''Taucs::lu_symbolic'' empty_ctx))) 0) +
    v_s (vdata (fst (snd (compute False (checking_taucs [0, 1, 1/2]) uniform_impl (Calculator 2)
      triangle_mesh triangle_constraints [] ''Taucs::lu_symbolic'' empty_ctx))) 1)) = 0"
proof -
  have mw: "mesh_wf triangle_mesh" by (simp add: mesh_wf_def triangle_mesh_def)
  have cv: "\<forall>vc\<in>set triangle_constraints. m_vh vc \<in> set (vertices triangle_mesh)"
    by (simp add: triangle_constraints_def triangle_mesh_def)
  have st: "fst (compute False (checking_taucs [0, 1, 1/2]) uniform_impl (Calculator 2) triangle_mesh
      triangle_constraints [] ''Taucs::lu_symbolic'' empty_ctx) = 0"
    by (simp add: compute_unfold Let_def calc_weight_tutte triangle_count triangle_general_system
        dispatch_lu_symbolic lu_symbolic_factor_solve1_result checking_taucs_def triangle_mat_vec
        TAUCS_SUCCESS_def)
  have v2: "(2::nat) \<in> set (vertices triangle_mesh)" by (simp add: triangle_topology)
  show ?thesis
    using compute_lu_solution[OF mw cv checking_taucs_linsolve_sound st v2] mw cv st
      checking_taucs_linsolve_sound
    by (simp add: triangle_last_constraint triangle_topology calc_weight_tutte list_all_iff)
qed

end
